theory Spec2Isabelle
  imports Complex_Main "HOL-Library.Log_Nat"
begin

unbundle bit_operations_syntax

section \<open>Errors (src/errors.ts)\<close>

text \<open>
  \<^verbatim>\<open>JPYCPaymentErrorCode\<close> is the union of string literals of the source. A
  \<^verbatim>\<open>JPYCPaymentError\<close> carries a message, a code and optional details. The message
  texts of the source are Japanese sentences with interpolated values; the model keeps one
  constructor per throw site, holding the interpolated values.
\<close>

datatype JPYCPaymentErrorCode =
    INVALID_ADDRESS
  | INVALID_AMOUNT
  | INVALID_NETWORK
  | INVALID_DECIMALS
  | VALIDATION_FAILED
  | ENCODING_FAILED
  | QR_GENERATION_FAILED
  | CHECKSUM_FAILED

text \<open>
  A number of the runtime: NaN, the two infinities, or a finite value. A finite value is
  kept as the rational it denotes; negative zero is not told apart from zero (no
  operation of the program does).
\<close>

datatype jsnum = NaN | PosInf | NegInf | Fin rat

datatype decode_cause =
    NoScheme | NoContract | NoChainId | NoFunction | NoQuery | NoRecipient | NoAmount

datatype native_error = SyntaxError | TypeError | RangeError

datatype validation_message =
    MerchantRequired
  | InvalidMerchantFormat string
  | AmountRequired
  | InvalidAmountFormat string
  | AmountNotPositive jsnum
  | AmountNotFinite
  | AmountTooLarge jsnum
  | UnsupportedNetwork string
  | InvalidContractFormat string
  | DecimalsOutOfRange jsnum
  | DecimalsNeedContract

datatype message =
    MsgAddressPrefix
  | MsgAddressLength
  | MsgAddressHex
  | MsgDecimalsRange jsnum
  | MsgNegativeAmount
  | MsgInvalidAmountFormat string
  | MsgAmountNotFinite
  | MsgMultipleDecimalPoints string
  | MsgEncodeFailed
  | MsgDecodeFailed
  | MsgValidationFailed "validation_message list"
  | MsgUnsupportedNetwork string

datatype details =
    NoDetails
  | AddressDetails string
  | AddressLengthDetails string nat
  | AmountDetails string
  | UriDetails string decode_cause
  | ErrorsDetails "validation_message list"
  | CauseDetails native_error

text \<open>What a call can throw: a \<^verbatim>\<open>JPYCPaymentError\<close> or an error of the runtime.\<close>

datatype js_error =
    JPYCPaymentError message JPYCPaymentErrorCode details
  | Native native_error

section \<open>Strings of the runtime\<close>

text \<open>
  A string is a list of 8-bit characters. Every string the claims speak about (addresses,
  decimal amounts, identifiers) is ASCII; for other text the list is read as its UTF-8
  bytes, and the case mappings below leave non-ASCII bytes alone.
\<close>

definition is_digit :: "char \<Rightarrow> bool" where
  \<comment> \<open>the character class \<^verbatim>\<open>\d\<close>: the ten ASCII digits, codes 48 to 57\<close>
  "is_digit c = (48 \<le> (of_char c :: int) \<and> (of_char c :: int) \<le> 57)"

definition digit_value :: "char \<Rightarrow> int" where
  "digit_value c = of_char c - 48"

definition digit_char :: "int \<Rightarrow> char" where
  "digit_char d = char_of (48 + d)"

definition is_hex_digit :: "char \<Rightarrow> bool" where
  \<comment> \<open>the character class \<^verbatim>\<open>[a-fA-F0-9]\<close>\<close>
  "is_hex_digit c = (c \<in> set ''0123456789abcdefABCDEF'')"

definition toLowerCase_char :: "char \<Rightarrow> char" where
  "toLowerCase_char c =
     (case map_of (zip ''ABCDEFGHIJKLMNOPQRSTUVWXYZ'' ''abcdefghijklmnopqrstuvwxyz'') c of
        None \<Rightarrow> c | Some l \<Rightarrow> l)"

definition toUpperCase_char :: "char \<Rightarrow> char" where
  "toUpperCase_char c =
     (case map_of (zip ''abcdefghijklmnopqrstuvwxyz'' ''ABCDEFGHIJKLMNOPQRSTUVWXYZ'') c of
        None \<Rightarrow> c | Some u \<Rightarrow> u)"

definition toLowerCase :: "string \<Rightarrow> string" where
  "toLowerCase s = map toLowerCase_char s"

definition startsWith :: "string \<Rightarrow> string \<Rightarrow> bool" where
  \<comment> \<open>\<^verbatim>\<open>s.startsWith(p)\<close>\<close>
  "startsWith p s = (take (length p) s = p)"

definition padStart :: "nat \<Rightarrow> char \<Rightarrow> string \<Rightarrow> string" where
  "padStart n c s = replicate (n - length s) c @ s"

definition padEnd :: "nat \<Rightarrow> char \<Rightarrow> string \<Rightarrow> string" where
  "padEnd n c s = s @ replicate (n - length s) c"

definition hex_char :: "int \<Rightarrow> char" where
  \<comment> \<open>the digit of a value below 16, as \<^verbatim>\<open>toString(16)\<close> writes it\<close>
  "hex_char d = ''0123456789abcdef'' ! nat d"

definition hex_digit_value :: "char \<Rightarrow> int option" where
  \<comment> \<open>\<^verbatim>\<open>Number.parseInt(c, 16)\<close> of a one-character string; \<open>None\<close> is NaN\<close>
  "hex_digit_value c =
     map_of (zip ''0123456789abcdefABCDEF''
       [0, 1, 2, 3, 4, 5, 6, 7, 8, 9, 10, 11, 12, 13, 14, 15, 10, 11, 12, 13, 14, 15]) c"

text \<open>
  White space as the runtime strips it from the ends of numeric text: TAB, LF, VT, FF, CR,
  SP, U+00A0, U+1680, U+2000 to U+200A, U+2028, U+2029, U+202F, U+205F, U+3000 and
  U+FEFF, each as its UTF-8 bytes. No sequence is the start or the end of another.
\<close>

definition white_space :: "string list" where
  "white_space =
     [[CHR 0x09], [CHR 0x0A], [CHR 0x0B], [CHR 0x0C], [CHR 0x0D], [CHR 0x20],
      [CHR 0xC2, CHR 0xA0],
      [CHR 0xE1, CHR 0x9A, CHR 0x80],
      [CHR 0xE2, CHR 0x80, CHR 0x80], [CHR 0xE2, CHR 0x80, CHR 0x81],
      [CHR 0xE2, CHR 0x80, CHR 0x82], [CHR 0xE2, CHR 0x80, CHR 0x83],
      [CHR 0xE2, CHR 0x80, CHR 0x84], [CHR 0xE2, CHR 0x80, CHR 0x85],
      [CHR 0xE2, CHR 0x80, CHR 0x86], [CHR 0xE2, CHR 0x80, CHR 0x87],
      [CHR 0xE2, CHR 0x80, CHR 0x88], [CHR 0xE2, CHR 0x80, CHR 0x89],
      [CHR 0xE2, CHR 0x80, CHR 0x8A],
      [CHR 0xE2, CHR 0x80, CHR 0xA8], [CHR 0xE2, CHR 0x80, CHR 0xA9],
      [CHR 0xE2, CHR 0x80, CHR 0xAF],
      [CHR 0xE2, CHR 0x81, CHR 0x9F],
      [CHR 0xE3, CHR 0x80, CHR 0x80],
      [CHR 0xEF, CHR 0xBB, CHR 0xBF]]"

definition match_prefix :: "string list \<Rightarrow> string \<Rightarrow> nat" where
  \<comment> \<open>the length of the sequence of the list that starts the string, 0 when none does\<close>
  "match_prefix ws s = (case filter (\<lambda>w. startsWith w s) ws of [] \<Rightarrow> 0 | w # _ \<Rightarrow> length w)"

function skip_prefixes :: "string list \<Rightarrow> string \<Rightarrow> string" where
  \<comment> \<open>the string without the sequences of the list that start it\<close>
  "skip_prefixes ws s =
     (if match_prefix ws s = 0 then s else skip_prefixes ws (drop (match_prefix ws s) s))"
  by pat_completeness auto
termination
proof (relation "measure (\<lambda>(ws, s). length s)")
  show "wf (measure (\<lambda>(ws, s). length s))" by simp
next
  fix ws :: "string list" and s :: string
  assume n: "match_prefix ws s \<noteq> 0"
  then obtain w r where f: "filter (\<lambda>w. startsWith w s) ws = w # r"
    by (cases "filter (\<lambda>w. startsWith w s) ws") (simp_all add: match_prefix_def)
  then have m: "match_prefix ws s = length w"
    by (simp add: match_prefix_def)
  have "w \<in> set (filter (\<lambda>w. startsWith w s) ws)"
    using f by simp
  then have "take (length w) s = w"
    by (simp add: startsWith_def)
  then have "length (take (length w) s) = length w"
    by simp
  then have le: "length w \<le> length s"
    by (simp add: min_def split: if_splits)
  have pos: "0 < length w"
    using n m by simp
  have "length s - length w < length s"
    using le pos by arith
  then have "length (drop (match_prefix ws s) s) < length s"
    by (simp add: m)
  then show "((ws, drop (match_prefix ws s) s), (ws, s)) \<in> measure (\<lambda>(ws, s). length s)"
    by simp
qed

declare skip_prefixes.simps [simp del]

definition skip_ws :: "string \<Rightarrow> string" where
  \<comment> \<open>the string without its leading white space\<close>
  "skip_ws s = skip_prefixes white_space s"

definition trim_ws :: "string \<Rightarrow> string" where
  \<comment> \<open>the string without its leading and trailing white space\<close>
  "trim_ws s = rev (skip_prefixes (map rev white_space) (rev (skip_ws s)))"

definition count_char :: "char \<Rightarrow> string \<Rightarrow> nat" where
  \<comment> \<open>\<^verbatim>\<open>(s.match(/c/g) || []).length\<close>\<close>
  "count_char c s = length (filter (\<lambda>x. x = c) s)"

fun split_on :: "char \<Rightarrow> string \<Rightarrow> string list" where
  \<comment> \<open>\<^verbatim>\<open>s.split(c)\<close>: never empty, \<^verbatim>\<open>''.split(c)\<close> is \<^verbatim>\<open>['']\<close>\<close>
  "split_on c [] = [[]]"
| "split_on c (x # xs) =
     (if x = c then [] # split_on c xs
      else (case split_on c xs of [] \<Rightarrow> [[x]] | w # ws \<Rightarrow> (x # w) # ws))"

definition strip_trailing_zeros :: "string \<Rightarrow> string" where
  \<comment> \<open>\<^verbatim>\<open>s.replace(/0+$/, '')\<close>\<close>
  "strip_trailing_zeros s = rev (dropWhile (\<lambda>c. c = CHR ''0'') (rev s))"

definition digits_to_int :: "string \<Rightarrow> int" where
  \<comment> \<open>the value of a string of decimal digits\<close>
  "digits_to_int ds = foldl (\<lambda>acc c. 10 * acc + digit_value c) 0 ds"

function int_to_digits :: "int \<Rightarrow> string" where
  \<comment> \<open>the decimal digits of a non-negative integer, without leading zeros\<close>
  "int_to_digits n =
     (if n < 10 then [digit_char n] else int_to_digits (n div 10) @ [digit_char (n mod 10)])"
  by pat_completeness auto
termination
  by (relation "measure nat") auto

declare int_to_digits.simps [simp del]

section \<open>Numbers of the runtime\<close>

text \<open>
  The functions of this section are the runtime's (ECMAScript), not the repository's; they
  are written from the language specification. A number is an IEEE 754 binary64 value:
  \<open>round_double\<close> maps a rational to the nearest such value, ties to the even
  significand, and to an infinity from \<open>2 ^ 1024 - 2 ^ 970\<close> on.
\<close>

definition js_neg :: "jsnum \<Rightarrow> jsnum" where
  "js_neg x = (case x of NaN \<Rightarrow> NaN | PosInf \<Rightarrow> NegInf | NegInf \<Rightarrow> PosInf | Fin q \<Rightarrow> Fin (- q))"

definition js_lt :: "jsnum \<Rightarrow> jsnum \<Rightarrow> bool" where
  \<comment> \<open>\<^verbatim>\<open>x < y\<close>; false when either side is NaN\<close>
  "js_lt x y =
     (case (x, y) of
        (NaN, _) \<Rightarrow> False | (_, NaN) \<Rightarrow> False
      | (PosInf, _) \<Rightarrow> False | (_, NegInf) \<Rightarrow> False
      | (NegInf, _) \<Rightarrow> True | (_, PosInf) \<Rightarrow> True
      | (Fin a, Fin b) \<Rightarrow> a < b)"

definition js_gt :: "jsnum \<Rightarrow> jsnum \<Rightarrow> bool" where
  "js_gt x y = js_lt y x"

definition js_le :: "jsnum \<Rightarrow> jsnum \<Rightarrow> bool" where
  \<comment> \<open>\<^verbatim>\<open>x <= y\<close>; false when either side is NaN\<close>
  "js_le x y = (x \<noteq> NaN \<and> y \<noteq> NaN \<and> \<not> js_lt y x)"

definition Number_isNaN :: "jsnum \<Rightarrow> bool" where
  "Number_isNaN x = (x = NaN)"

definition Number_isFinite :: "jsnum \<Rightarrow> bool" where
  "Number_isFinite x = (case x of Fin _ \<Rightarrow> True | _ \<Rightarrow> False)"

definition Number_isInteger :: "jsnum \<Rightarrow> bool" where
  "Number_isInteger x = (case x of Fin q \<Rightarrow> q = of_int \<lfloor>q\<rfloor> | _ \<Rightarrow> False)"

function ilog2 :: "int \<Rightarrow> int" where
  \<comment> \<open>the position of the leading bit of a positive integer\<close>
  "ilog2 n = (if n < 2 then 0 else 1 + ilog2 (n div 2))"
  by pat_completeness auto
termination
  by (relation "measure nat") auto

declare ilog2.simps [simp del]

definition floor_log2 :: "rat \<Rightarrow> int" where
  \<comment> \<open>for \<open>q > 0\<close>, the \<open>e\<close> with \<open>2 powi e \<le> q < 2 powi (e + 1)\<close>\<close>
  "floor_log2 q =
     (let (a, b) = quotient_of q; e0 = ilog2 a - ilog2 b
      in if 2 powi e0 \<le> q then e0 else e0 - 1)"

definition round_half_even :: "rat \<Rightarrow> int" where
  "round_half_even x =
     (let f = \<lfloor>x\<rfloor>; d = x - of_int f
      in if d < 1 / 2 then f else if 1 / 2 < d then f + 1 else if even f then f else f + 1)"

definition double_overflow :: rat where
  \<comment> \<open>halfway between the largest double and \<open>2 ^ 1024\<close>\<close>
  "double_overflow = 2 ^ 1024 - 2 ^ 970"

definition round_double_pos :: "rat \<Rightarrow> jsnum" where
  "round_double_pos q =
     (if double_overflow \<le> q then PosInf
      else let e = max (floor_log2 q) (- 1022); ulp = 2 powi (e - 52)
           in Fin (of_int (round_half_even (q / ulp)) * ulp))"

definition round_double :: "rat \<Rightarrow> jsnum" where
  "round_double q =
     (if q = 0 then Fin 0
      else if 0 < q then round_double_pos q
      else js_neg (round_double_pos (- q)))"

subsection \<open>\<^verbatim>\<open>Number.parseFloat\<close> and \<^verbatim>\<open>Number.parseInt\<close>\<close>

definition parse_exponent :: "string \<Rightarrow> int" where
  \<comment> \<open>the value of an exponent part at the head of the text, 0 when there is none\<close>
  "parse_exponent r =
     (case r of
        [] \<Rightarrow> 0
      | e # r1 \<Rightarrow>
          if e = CHR ''e'' \<or> e = CHR ''E'' then
            (case r1 of
               [] \<Rightarrow> 0
             | s # r2 \<Rightarrow>
                 if s = CHR ''-'' then - digits_to_int (takeWhile is_digit r2)
                 else if s = CHR ''+'' then digits_to_int (takeWhile is_digit r2)
                 else digits_to_int (takeWhile is_digit r1))
          else 0)"

definition parse_unsigned_decimal :: "string \<Rightarrow> jsnum" where
  \<comment> \<open>the longest prefix that is an unsigned decimal literal, as a number; NaN when there
      is none\<close>
  "parse_unsigned_decimal s =
     (if startsWith ''Infinity'' s then PosInf
      else
        let ip = takeWhile is_digit s;
            r1 = dropWhile is_digit s;
            has_dot = startsWith ''.'' r1;
            fp = (if has_dot then takeWhile is_digit (drop 1 r1) else []);
            r2 = (if has_dot then dropWhile is_digit (drop 1 r1) else r1)
        in if ip = [] \<and> fp = [] then NaN
           else round_double (of_int (digits_to_int (ip @ fp))
                              * 10 powi (parse_exponent r2 - int (length fp))))"

definition parseFloat :: "string \<Rightarrow> jsnum" where
  "parseFloat s =
     (let t = skip_ws s
      in if startsWith ''-'' t then js_neg (parse_unsigned_decimal (drop 1 t))
         else if startsWith ''+'' t then parse_unsigned_decimal (drop 1 t)
         else parse_unsigned_decimal t)"

definition parseInt10 :: "string \<Rightarrow> jsnum" where
  \<comment> \<open>\<^verbatim>\<open>Number.parseInt(s, 10)\<close>\<close>
  "parseInt10 s =
     (let t = skip_ws s;
          neg = startsWith ''-'' t;
          u = (if neg \<or> startsWith ''+'' t then drop 1 t else t);
          ds = takeWhile is_digit u
      in if ds = [] then NaN
         else round_double (of_int ((if neg then - 1 else 1) * digits_to_int ds)))"

subsection \<open>\<^verbatim>\<open>Number.prototype.toString\<close>\<close>

function ilog10 :: "int \<Rightarrow> int" where
  \<comment> \<open>the number of decimal digits of a positive integer, less one\<close>
  "ilog10 n = (if n < 10 then 0 else 1 + ilog10 (n div 10))"
  by pat_completeness auto
termination
  by (relation "measure nat") auto

declare ilog10.simps [simp del]

definition dec_exponent :: "rat \<Rightarrow> int" where
  \<comment> \<open>for \<open>q > 0\<close>, the \<open>n\<close> with \<open>10 powi (n - 1) \<le> q < 10 powi n\<close>\<close>
  "dec_exponent q =
     (let (a, b) = quotient_of q; n0 = ilog10 a - ilog10 b
      in if q < 10 powi n0 then n0 else if q < 10 powi (n0 + 1) then n0 + 1 else n0 + 2)"

definition reads_back :: "rat \<Rightarrow> int \<Rightarrow> int \<Rightarrow> bool" where
  \<comment> \<open>\<open>s * 10 powi e\<close> is read as the double \<open>q\<close>\<close>
  "reads_back q s e = (round_double (of_int s * 10 powi e) = Fin q)"

fun shortest_digits :: "rat \<Rightarrow> int \<Rightarrow> nat list \<Rightarrow> int \<times> int \<times> int" where
  \<comment> \<open>the \<open>(n, k, s)\<close> of the language specification: the fewest digits \<open>k\<close> such that
      \<open>s * 10 powi (n - k)\<close> reads back as \<open>q\<close>, the nearer \<open>s\<close> of two\<close>
  "shortest_digits q n [] = (n, 17, \<lfloor>q / 10 powi (n - 17)\<rfloor>)"
| "shortest_digits q n (k # ks) =
     (let sc = 10 powi (n - int k);
          lo = \<lfloor>q / sc\<rfloor>;
          hi = lo + 1;
          oklo = reads_back q lo (n - int k);
          okhi = reads_back q hi (n - int k);
          pick_hi = (if hi = 10 ^ k then (n + 1, 1, 1) else (n, int k, hi))
      in if oklo \<and> okhi then
           (if q - of_int lo * sc < of_int hi * sc - q then (n, int k, lo)
            else if of_int hi * sc - q < q - of_int lo * sc then pick_hi
            else if even lo then (n, int k, lo) else pick_hi)
         else if oklo then (n, int k, lo)
         else if okhi then pick_hi
         else shortest_digits q n ks)"

definition format_digits :: "int \<times> int \<times> int \<Rightarrow> string" where
  "format_digits nks =
     (case nks of (n, k, s) \<Rightarrow>
        let ds = int_to_digits s in
        if k \<le> n \<and> n \<le> 21 then ds @ replicate (nat (n - k)) (CHR ''0'')
        else if 0 < n \<and> n \<le> 21 then take (nat n) ds @ ''.'' @ drop (nat n) ds
        else if - 6 < n \<and> n \<le> 0 then ''0.'' @ replicate (nat (- n)) (CHR ''0'') @ ds
        else
          let e = n - 1;
              es = (if e < 0 then ''-'' else ''+'') @ int_to_digits (abs e)
          in if k = 1 then ds @ ''e'' @ es
             else take 1 ds @ ''.'' @ drop 1 ds @ ''e'' @ es)"

definition positive_toString :: "rat \<Rightarrow> string" where
  \<comment> \<open>An integer of magnitude at most \<open>2 ^ 53\<close> is written as its decimal digits: no
      shorter digit string reads back as it, and it has at most 16 digits.\<close>
  "positive_toString q =
     (if q = of_int \<lfloor>q\<rfloor> \<and> q \<le> 2 ^ 53 then int_to_digits \<lfloor>q\<rfloor>
      else format_digits (shortest_digits q (dec_exponent q) [1..<18]))"

definition Number_toString :: "jsnum \<Rightarrow> string" where
  "Number_toString x =
     (case x of
        NaN \<Rightarrow> ''NaN''
      | PosInf \<Rightarrow> ''Infinity''
      | NegInf \<Rightarrow> ''-Infinity''
      | Fin q \<Rightarrow>
          if q = 0 then ''0''
          else if q < 0 then ''-'' @ positive_toString (- q)
          else positive_toString q)"

subsection \<open>BigInt\<close>

text \<open>A BigInt is an integer; \<^verbatim>\<open>/\<close> truncates towards zero and \<^verbatim>\<open>%\<close> takes the sign of
  the dividend.\<close>

definition radix_literal :: "int \<Rightarrow> string \<Rightarrow> int option" where
  \<comment> \<open>the digits after \<^verbatim>\<open>0x\<close>, \<^verbatim>\<open>0o\<close> or \<^verbatim>\<open>0b\<close>: at least one, each below the radix\<close>
  "radix_literal r ds =
     (if ds \<noteq> [] \<and> list_all (\<lambda>c. case hex_digit_value c of None \<Rightarrow> False | Some v \<Rightarrow> v < r) ds
      then Some (foldl (\<lambda>acc c. r * acc + the (hex_digit_value c)) 0 ds)
      else None)"

definition decimal_literal :: "string \<Rightarrow> int option" where
  "decimal_literal ds = (if ds \<noteq> [] \<and> list_all is_digit ds then Some (digits_to_int ds) else None)"

definition StringToBigInt :: "string \<Rightarrow> int option" where
  \<comment> \<open>\<open>None\<close> where \<^verbatim>\<open>BigInt(s)\<close> throws a SyntaxError\<close>
  "StringToBigInt str =
     (let s = trim_ws str
      in if s = [] then Some 0
         else if startsWith ''0x'' s \<or> startsWith ''0X'' s then radix_literal 16 (drop 2 s)
         else if startsWith ''0o'' s \<or> startsWith ''0O'' s then radix_literal 8 (drop 2 s)
         else if startsWith ''0b'' s \<or> startsWith ''0B'' s then radix_literal 2 (drop 2 s)
         else if startsWith ''-'' s then map_option uminus (decimal_literal (drop 1 s))
         else if startsWith ''+'' s then decimal_literal (drop 1 s)
         else decimal_literal s)"

definition BigInt :: "string \<Rightarrow> js_error + int" where
  "BigInt str = (case StringToBigInt str of None \<Rightarrow> Inl (Native SyntaxError) | Some n \<Rightarrow> Inr n)"

definition BigInt_toString :: "int \<Rightarrow> string" where
  "BigInt_toString n = (if n < 0 then ''-'' @ int_to_digits (- n) else int_to_digits n)"

definition BigInt_div :: "int \<Rightarrow> int \<Rightarrow> int" where
  "BigInt_div a b = sgn a * sgn b * (abs a div abs b)"

definition BigInt_mod :: "int \<Rightarrow> int \<Rightarrow> int" where
  "BigInt_mod a b = sgn a * (abs a mod abs b)"

section \<open>Keccak-256 (the library function \<^verbatim>\<open>keccak_256\<close> of @noble/hashes)\<close>

text \<open>
  The hash is not code of the repository: it is the Keccak-256 function of the Keccak
  submission (rate 1088 bits, capacity 512 bits, padding byte 0x01, 24 rounds of
  Keccak-f[1600]), which is what the imported function computes on the UTF-8 bytes of a
  string. A lane is a 64-bit value, held as a non-negative integer below \<open>2 ^ 64\<close>; the
  state is the list of the 25 lanes, lane \<open>(x, y)\<close> at index \<open>x + 5 * y\<close>.
\<close>

definition rotl64 :: "int \<Rightarrow> nat \<Rightarrow> int" where
  "rotl64 w n = take_bit 64 (push_bit n w) OR drop_bit (64 - n) w"

definition keccak_rotc :: "nat list" where
  "keccak_rotc = [0, 1, 62, 28, 27, 36, 44, 6, 55, 20, 3, 10, 43, 25, 39,
                  41, 45, 15, 21, 8, 18, 2, 61, 56, 14]"

definition keccak_rc :: "int list" where
  "keccak_rc =
     [0x0000000000000001, 0x0000000000008082, 0x800000000000808A, 0x8000000080008000,
      0x000000000000808B, 0x0000000080000001, 0x8000000080008081, 0x8000000000008009,
      0x000000000000008A, 0x0000000000000088, 0x0000000080008009, 0x000000008000000A,
      0x000000008000808B, 0x800000000000008B, 0x8000000000008089, 0x8000000000008003,
      0x8000000000008002, 0x8000000000000080, 0x000000000000800A, 0x800000008000000A,
      0x8000000080008081, 0x8000000000008080, 0x0000000080000001, 0x8000000080008008]"

definition theta :: "int list \<Rightarrow> int list" where
  "theta a =
     (let c = map (\<lambda>x. a ! x XOR a ! (x + 5) XOR a ! (x + 10) XOR a ! (x + 15) XOR a ! (x + 20))
                [0..<5];
          d = map (\<lambda>x. c ! ((x + 4) mod 5) XOR rotl64 (c ! ((x + 1) mod 5)) 1) [0..<5]
      in map (\<lambda>i. a ! i XOR d ! (i mod 5)) [0..<25])"

definition rho_pi :: "int list \<Rightarrow> int list" where
  \<comment> \<open>lane \<open>(x, y)\<close>, rotated, moves to \<open>(y, 2 * x + 3 * y)\<close>; read from the target's side\<close>
  "rho_pi a =
     map (\<lambda>j. let x' = j mod 5; y' = j div 5; x = (x' + 3 * y') mod 5; i = x + 5 * x'
              in rotl64 (a ! i) (keccak_rotc ! i)) [0..<25]"

definition chi :: "int list \<Rightarrow> int list" where
  "chi b =
     map (\<lambda>i. let x = i mod 5; y = i div 5
              in b ! i XOR ((b ! ((x + 1) mod 5 + 5 * y) XOR 0xFFFFFFFFFFFFFFFF)
                             AND b ! ((x + 2) mod 5 + 5 * y))) [0..<25]"

definition iota :: "int \<Rightarrow> int list \<Rightarrow> int list" where
  "iota rc a = (case a of [] \<Rightarrow> [] | l # ls \<Rightarrow> (l XOR rc) # ls)"

definition keccak_round :: "int list \<Rightarrow> int \<Rightarrow> int list" where
  "keccak_round a rc = iota rc (chi (rho_pi (theta a)))"

definition keccak_f :: "int list \<Rightarrow> int list" where
  "keccak_f a = foldl keccak_round a keccak_rc"

definition pad_keccak :: "int list \<Rightarrow> int list" where
  "pad_keccak m =
     (let q = 136 - length m mod 136
      in if q = 1 then m @ [0x81] else m @ [0x01] @ replicate (q - 2) 0 @ [0x80])"

fun lane_of_bytes :: "int list \<Rightarrow> int" where
  "lane_of_bytes [] = 0"
| "lane_of_bytes (b # bs) = b + 256 * lane_of_bytes bs"

fun lanes_of_block :: "nat \<Rightarrow> int list \<Rightarrow> int list" where
  "lanes_of_block 0 bs = []"
| "lanes_of_block (Suc n) bs = lane_of_bytes (take 8 bs) # lanes_of_block n (drop 8 bs)"

definition absorb_block :: "int list \<Rightarrow> int list \<Rightarrow> int list" where
  "absorb_block a blk = keccak_f (map2 (XOR) a (lanes_of_block 17 blk @ replicate 8 0))"

fun absorb :: "nat \<Rightarrow> int list \<Rightarrow> int list \<Rightarrow> int list" where
  "absorb 0 a bs = a"
| "absorb (Suc n) a bs = absorb n (absorb_block a (take 136 bs)) (drop 136 bs)"

definition bytes_of_lane :: "int \<Rightarrow> int list" where
  "bytes_of_lane l = map (\<lambda>k. (l div 256 ^ k) mod 256) [0..<8]"

definition keccak_256_bytes :: "int list \<Rightarrow> int list" where
  "keccak_256_bytes m =
     (let p = pad_keccak m
      in take 32 (concat (map bytes_of_lane (absorb (length p div 136) (replicate 25 0) p))))"

definition keccak_256 :: "string \<Rightarrow> int list" where
  "keccak_256 s = keccak_256_bytes (map of_char s)"

section \<open>Checksum addresses (src/checksum.ts)\<close>

definition byte_toString16 :: "int \<Rightarrow> string" where
  \<comment> \<open>\<^verbatim>\<open>byte.toString(16)\<close> of a byte\<close>
  "byte_toString16 b = (if b < 16 then [hex_char b] else [hex_char (b div 16), hex_char (b mod 16)])"

definition bytesToHex :: "int list \<Rightarrow> string" where
  "bytesToHex bytes = concat (map (\<lambda>byte. padStart 2 (CHR ''0'') (byte_toString16 byte)) bytes)"

definition isValidAddressFormat :: "string \<Rightarrow> bool" where
  \<comment> \<open>\<^verbatim>\<open>/^0x[a-fA-F0-9]{40}$/.test(address)\<close>\<close>
  "isValidAddressFormat address =
     (take 2 address = ''0x'' \<and> length address = 42 \<and> list_all is_hex_digit (drop 2 address))"

text \<open>
  The loop of \<^verbatim>\<open>toChecksumAddress\<close>: index \<open>i\<close> runs over the lower-cased digits, a
  position without a character of the hash is skipped, and the character is upper-cased
  when the hash character parses to a value of at least 8.
\<close>

function checksum_loop :: "string \<Rightarrow> string \<Rightarrow> nat \<Rightarrow> string \<Rightarrow> string" where
  "checksum_loop lowerCaseAddress hashHex i checksumAddress =
     (if i < length lowerCaseAddress then
        (if i < length hashHex then
           checksum_loop lowerCaseAddress hashHex (i + 1)
             (checksumAddress @
               [if (case hex_digit_value (hashHex ! i) of None \<Rightarrow> False | Some hashValue \<Rightarrow> hashValue \<ge> 8)
                then toUpperCase_char (lowerCaseAddress ! i) else lowerCaseAddress ! i])
         else checksum_loop lowerCaseAddress hashHex (i + 1) checksumAddress)
      else checksumAddress)"
  by pat_completeness auto
termination
  by (relation "measure (\<lambda>(l, h, i, acc). length l - i)") auto

declare checksum_loop.simps [simp del]

definition toChecksumAddress :: "string \<Rightarrow> js_error + string" where
  "toChecksumAddress address =
     (if \<not> startsWith ''0x'' address then
        Inl (JPYCPaymentError MsgAddressPrefix INVALID_ADDRESS (AddressDetails address))
      else if length address \<noteq> 42 then
        Inl (JPYCPaymentError MsgAddressLength INVALID_ADDRESS
               (AddressLengthDetails address (length address)))
      else if \<not> isValidAddressFormat address then
        Inl (JPYCPaymentError MsgAddressHex INVALID_ADDRESS (AddressDetails address))
      else
        let lowerCaseAddress = toLowerCase (drop 2 address);
            hashHex = bytesToHex (keccak_256 lowerCaseAddress)
        in Inr (checksum_loop lowerCaseAddress hashHex 0 ''0x''))"

definition isValidChecksumAddress :: "string \<Rightarrow> bool" where
  "isValidChecksumAddress address =
     (case toChecksumAddress address of Inl _ \<Rightarrow> False | Inr checksummed \<Rightarrow> address = checksummed)"

text \<open>
  The loop in closed form, for the proofs: the casing of one digit, and the 40 digits of a
  checksummed address as a function of the lower-cased digits.
\<close>

definition checksum_char :: "char \<Rightarrow> char \<Rightarrow> char" where
  "checksum_char h c =
     (if (case hex_digit_value h of None \<Rightarrow> False | Some v \<Rightarrow> v \<ge> 8) then toUpperCase_char c else c)"

definition checksum_digits :: "string \<Rightarrow> string" where
  "checksum_digits l =
     map (\<lambda>j. checksum_char (bytesToHex (keccak_256 l) ! j) (l ! j)) [0..<length l]"

section \<open>Constants (src/constants.ts)\<close>

text \<open>
  Field names that several interfaces of the source share carry a prefix here
  (\<open>cfg_\<close>, \<open>opt_\<close>, \<open>dec_\<close>, \<open>res_\<close>, \<open>vr_\<close>): a field name is a constant of
  the theory.
\<close>

record ChainConfig =
  cfg_chainId :: jsnum
  name :: string
  jpycAddress :: string
  explorerUrl :: string

definition JPYC_DECIMALS :: jsnum where
  "JPYC_DECIMALS = Fin 18"

definition DEFAULT_NETWORK :: string where
  "DEFAULT_NETWORK = ''polygon''"

text \<open>
  \<^verbatim>\<open>CHAIN_CONFIGS\<close> is an object literal, and the program reads it with keys that come
  from its caller. A key that is a network gives that network's configuration. A key
  that names a property of \<^verbatim>\<open>Object.prototype\<close> gives the inherited value, which is a
  function or an object: it counts as true and has no \<^verbatim>\<open>chainId\<close> and no
  \<^verbatim>\<open>jpycAddress\<close>. Any other key gives \<^verbatim>\<open>undefined\<close>, which is \<open>None\<close>.
\<close>

datatype chain_entry = OwnConfig ChainConfig | InheritedProperty

definition Object_prototype_keys :: "string list" where
  "Object_prototype_keys =
     [''constructor'', ''__defineGetter__'', ''__defineSetter__'', ''hasOwnProperty'',
      ''__lookupGetter__'', ''__lookupSetter__'', ''isPrototypeOf'', ''propertyIsEnumerable'',
      ''toString'', ''valueOf'', ''__proto__'', ''toLocaleString'']"

definition CHAIN_CONFIGS :: "string \<Rightarrow> chain_entry option" where
  "CHAIN_CONFIGS network =
     (if network = ''ethereum'' then
        Some (OwnConfig \<lparr>cfg_chainId = Fin 1, name = ''Ethereum Mainnet'',
              jpycAddress = ''0xe7c3d8c9a439fede00d2600032d5db0be71c3c29'',
              explorerUrl = ''https://etherscan.io''\<rparr>)
      else if network = ''polygon'' then
        Some (OwnConfig \<lparr>cfg_chainId = Fin 137, name = ''Polygon'',
              jpycAddress = ''0xe7c3d8c9a439fede00d2600032d5db0be71c3c29'',
              explorerUrl = ''https://polygonscan.com''\<rparr>)
      else if network = ''avalanche'' then
        Some (OwnConfig \<lparr>cfg_chainId = Fin 43114, name = ''Avalanche C-Chain'',
              jpycAddress = ''0xe7c3d8c9a439fede00d2600032d5db0be71c3c29'',
              explorerUrl = ''https://snowtrace.io''\<rparr>)
      else if network \<in> set Object_prototype_keys then Some InheritedProperty
      else None)"

definition entry_chainId :: "chain_entry \<Rightarrow> jsnum option" where
  \<comment> \<open>\<^verbatim>\<open>chainConfig.chainId\<close>; \<open>None\<close> is \<^verbatim>\<open>undefined\<close>\<close>
  "entry_chainId e = (case e of OwnConfig c \<Rightarrow> Some (cfg_chainId c) | InheritedProperty \<Rightarrow> None)"

definition entry_jpycAddress :: "chain_entry \<Rightarrow> string option" where
  \<comment> \<open>\<^verbatim>\<open>chainConfig.jpycAddress\<close>; \<open>None\<close> is \<^verbatim>\<open>undefined\<close>\<close>
  "entry_jpycAddress e = (case e of OwnConfig c \<Rightarrow> Some (jpycAddress c) | InheritedProperty \<Rightarrow> None)"

definition EIP681_SCHEME :: string where
  "EIP681_SCHEME = ''ethereum''"

definition TRANSFER_FUNCTION :: string where
  "TRANSFER_FUNCTION = ''transfer''"

definition MAX_SAFE_AMOUNT :: jsnum where
  "MAX_SAFE_AMOUNT = Fin (10 ^ 15)"

section \<open>Amount conversion and the identifier codec (src/encoder.ts)\<close>

text \<open>An amount is a number or a string (\<^verbatim>\<open>number | string\<close>).\<close>

datatype amount = AmtString string | AmtNumber jsnum

definition amount_toString :: "amount \<Rightarrow> string" where
  \<comment> \<open>\<^verbatim>\<open>typeof amount === 'string' ? amount : amount.toString()\<close>\<close>
  "amount_toString a = (case a of AmtString s \<Rightarrow> s | AmtNumber x \<Rightarrow> Number_toString x)"

definition to_length :: "jsnum \<Rightarrow> nat" where
  \<comment> \<open>a count taken from a number that passed the integer check\<close>
  "to_length x = (case x of Fin q \<Rightarrow> nat \<lfloor>q\<rfloor> | _ \<Rightarrow> 0)"

definition invalid_decimals :: "jsnum \<Rightarrow> bool" where
  \<comment> \<open>\<^verbatim>\<open>decimals < 0 || decimals > 18 || !Number.isInteger(decimals)\<close>\<close>
  "invalid_decimals decimals =
     (js_lt decimals (Fin 0) \<or> js_gt decimals (Fin 18) \<or> \<not> Number_isInteger decimals)"

definition jpyToWei :: "amount \<Rightarrow> jsnum \<Rightarrow> js_error + string" where
  "jpyToWei amount decimals =
     (if invalid_decimals decimals then
        Inl (JPYCPaymentError (MsgDecimalsRange decimals) INVALID_DECIMALS NoDetails)
      else
        let amountStr = amount_toString amount in
        if startsWith ''-'' amountStr then
          Inl (JPYCPaymentError MsgNegativeAmount INVALID_AMOUNT (AmountDetails amountStr))
        else
          let amountNum = parseFloat amountStr in
          if Number_isNaN amountNum then
            Inl (JPYCPaymentError (MsgInvalidAmountFormat amountStr) INVALID_AMOUNT
                   (AmountDetails amountStr))
          else if \<not> Number_isFinite amountNum then
            Inl (JPYCPaymentError MsgAmountNotFinite INVALID_AMOUNT (AmountDetails amountStr))
          else if count_char (CHR ''.'') amountStr > 1 then
            Inl (JPYCPaymentError (MsgMultipleDecimalPoints amountStr) INVALID_AMOUNT
                   (AmountDetails amountStr))
          else
            let parts = split_on (CHR ''.'') amountStr;
                intPart = (case parts of [] \<Rightarrow> ''0'' | p0 # _ \<Rightarrow> if p0 = [] then ''0'' else p0);
                decPart = (case parts of _ # p1 # _ \<Rightarrow> p1 | _ \<Rightarrow> []);
                paddedDec = take (to_length decimals)
                              (padEnd (to_length decimals) (CHR ''0'') decPart)
            in case BigInt (intPart @ paddedDec) of
                 Inl e \<Rightarrow> Inl e
               | Inr weiAmount \<Rightarrow> Inr (BigInt_toString weiAmount))"

definition weiToJpy :: "string \<Rightarrow> jsnum \<Rightarrow> js_error + string" where
  "weiToJpy weiAmount decimals =
     (if invalid_decimals decimals then
        Inl (JPYCPaymentError (MsgDecimalsRange decimals) INVALID_DECIMALS NoDetails)
      else
        case BigInt weiAmount of
          Inl e \<Rightarrow> Inl e
        | Inr wei \<Rightarrow>
            let divisor = 10 ^ to_length decimals;
                intPart = BigInt_div wei divisor;
                remainder = BigInt_mod wei divisor;
                decPart = padStart (to_length decimals) (CHR ''0'') (BigInt_toString remainder);
                trimmedDecPart = strip_trailing_zeros decPart
            in Inr (if trimmedDecPart \<noteq> [] then BigInt_toString intPart @ ''.'' @ trimmedDecPart
                    else BigInt_toString intPart))"

definition encodeEIP681 :: "string \<Rightarrow> string \<Rightarrow> string \<Rightarrow> jsnum \<Rightarrow> js_error + string" where
  \<comment> \<open>the \<^verbatim>\<open>catch\<close> rethrows a \<^verbatim>\<open>JPYCPaymentError\<close> and wraps any other error\<close>
  "encodeEIP681 contractAddress recipientAddress amount chainId =
     (case (case toChecksumAddress contractAddress of
              Inl e \<Rightarrow> Inl e
            | Inr checksummedContract \<Rightarrow>
                (case toChecksumAddress recipientAddress of
                   Inl e \<Rightarrow> Inl e
                 | Inr checksummedRecipient \<Rightarrow>
                     Inr (EIP681_SCHEME @ '':'' @ checksummedContract @ ''@'' @
                          Number_toString chainId @ ''/'' @ TRANSFER_FUNCTION @
                          ''?address='' @ checksummedRecipient @ ''&uint256='' @ amount))) of
        Inl (JPYCPaymentError m c d) \<Rightarrow> Inl (JPYCPaymentError m c d)
      | Inl (Native e) \<Rightarrow> Inl (JPYCPaymentError MsgEncodeFailed ENCODING_FAILED (CauseDetails e))
      | Inr uri \<Rightarrow> Inr uri)"

text \<open>
  The request builder calls the encoder with values it read from the network registry,
  which are \<^verbatim>\<open>undefined\<close> (\<open>None\<close>) for an inherited key. An undefined contract
  address makes \<^verbatim>\<open>toChecksumAddress\<close> throw a TypeError inside the \<^verbatim>\<open>try\<close> block, which
  the \<^verbatim>\<open>catch\<close> wraps; an undefined chain id is written \<^verbatim>\<open>undefined\<close> by the template.
\<close>

definition encodeEIP681_untyped ::
  "string option \<Rightarrow> string \<Rightarrow> string \<Rightarrow> jsnum option \<Rightarrow> js_error + string" where
  "encodeEIP681_untyped contractAddress recipientAddress amount chainId =
     (case contractAddress of
        None \<Rightarrow> Inl (JPYCPaymentError MsgEncodeFailed ENCODING_FAILED (CauseDetails TypeError))
      | Some contract \<Rightarrow>
          (case chainId of
             Some n \<Rightarrow> encodeEIP681 contract recipientAddress amount n
           | None \<Rightarrow>
               (case (case toChecksumAddress contract of
                        Inl e \<Rightarrow> Inl e
                      | Inr checksummedContract \<Rightarrow>
                          (case toChecksumAddress recipientAddress of
                             Inl e \<Rightarrow> Inl e
                           | Inr checksummedRecipient \<Rightarrow>
                               Inr (EIP681_SCHEME @ '':'' @ checksummedContract @ ''@'' @
                                    ''undefined'' @ ''/'' @ TRANSFER_FUNCTION @
                                    ''?address='' @ checksummedRecipient @ ''&uint256='' @ amount))) of
                  Inl (JPYCPaymentError m c d) \<Rightarrow> Inl (JPYCPaymentError m c d)
                | Inl (Native e) \<Rightarrow>
                    Inl (JPYCPaymentError MsgEncodeFailed ENCODING_FAILED (CauseDetails e))
                | Inr uri \<Rightarrow> Inr uri)))"

subsection \<open>The regular expressions and the query parser of \<^verbatim>\<open>decodeEIP681\<close>\<close>

definition match_anchored :: "(char \<Rightarrow> bool) \<Rightarrow> char \<Rightarrow> string \<Rightarrow> string option" where
  \<comment> \<open>group 1 of \<^verbatim>\<open>/^(B+)c/\<close> for a character class \<open>B\<close> that excludes \<open>c\<close>\<close>
  "match_anchored body cls s =
     (let g = takeWhile body s
      in if g \<noteq> [] \<and> startsWith [cls] (dropWhile body s) then Some g else None)"

fun match_delimited :: "char \<Rightarrow> (char \<Rightarrow> bool) \<Rightarrow> char \<Rightarrow> string \<Rightarrow> string option" where
  \<comment> \<open>group 1 of the leftmost match of \<^verbatim>\<open>/o(B+)c/\<close> for a class \<open>B\<close> that excludes \<open>c\<close>:
      after an \<open>o\<close> the group takes every character of \<open>B\<close>, and \<open>c\<close> must follow\<close>
  "match_delimited opn body cls [] = None"
| "match_delimited opn body cls (x # xs) =
     (if x = opn \<and> match_anchored body cls xs \<noteq> None then match_anchored body cls xs
      else match_delimited opn body cls xs)"

definition plus_to_space :: "string \<Rightarrow> string" where
  "plus_to_space s = map (\<lambda>c. if c = CHR ''+'' then CHR '' '' else c) s"

fun percent_decode :: "string \<Rightarrow> string" where
  "percent_decode (p # h1 # h2 # rest) =
     (if p = CHR ''%'' \<and> is_hex_digit h1 \<and> is_hex_digit h2
      then char_of (16 * the (hex_digit_value h1) + the (hex_digit_value h2)) # percent_decode rest
      else p # percent_decode (h1 # h2 # rest))"
| "percent_decode s = s"

definition in_range :: "char \<Rightarrow> int \<Rightarrow> int \<Rightarrow> bool" where
  "in_range c lo hi = (lo \<le> of_char c \<and> of_char c \<le> hi)"

definition replacement_character :: string where
  \<comment> \<open>U+FFFD as its UTF-8 bytes\<close>
  "replacement_character = [CHR 0xEF, CHR 0xBF, CHR 0xBD]"

fun utf8_decode :: "string \<Rightarrow> string" where
  \<comment> \<open>UTF-8 decoding without a byte order mark, as the URL standard has it, written on
      the bytes of the result: a well-formed sequence is kept, and every maximal ill-formed
      part becomes U+FFFD, the byte that ended it being read again\<close>
  "utf8_decode [] = []"
| "utf8_decode (b # bs) =
     (if in_range b 0x00 0x7F then b # utf8_decode bs
      else if in_range b 0xC2 0xDF then
        (case bs of
           [] \<Rightarrow> replacement_character
         | c1 # r1 \<Rightarrow>
             if in_range c1 0x80 0xBF then b # c1 # utf8_decode r1
             else replacement_character @ utf8_decode bs)
      else if in_range b 0xE0 0xEF then
        (case bs of
           [] \<Rightarrow> replacement_character
         | c1 # r1 \<Rightarrow>
             if in_range c1 (if b = CHR 0xE0 then 0xA0 else 0x80)
                           (if b = CHR 0xED then 0x9F else 0xBF) then
               (case r1 of
                  [] \<Rightarrow> replacement_character
                | c2 # r2 \<Rightarrow>
                    if in_range c2 0x80 0xBF then b # c1 # c2 # utf8_decode r2
                    else replacement_character @ utf8_decode r1)
             else replacement_character @ utf8_decode bs)
      else if in_range b 0xF0 0xF4 then
        (case bs of
           [] \<Rightarrow> replacement_character
         | c1 # r1 \<Rightarrow>
             if in_range c1 (if b = CHR 0xF0 then 0x90 else 0x80)
                           (if b = CHR 0xF4 then 0x8F else 0xBF) then
               (case r1 of
                  [] \<Rightarrow> replacement_character
                | c2 # r2 \<Rightarrow>
                    if in_range c2 0x80 0xBF then
                      (case r2 of
                         [] \<Rightarrow> replacement_character
                       | c3 # r3 \<Rightarrow>
                           if in_range c3 0x80 0xBF then b # c1 # c2 # c3 # utf8_decode r3
                           else replacement_character @ utf8_decode r2)
                    else replacement_character @ utf8_decode r1)
             else replacement_character @ utf8_decode bs)
      else replacement_character @ utf8_decode bs)"

definition parse_pair :: "string \<Rightarrow> string \<times> string" where
  \<comment> \<open>one \<^verbatim>\<open>name=value\<close> segment of a query string: in the name and in the value a plus
      sign becomes a space, the percent escapes are decoded, and the bytes are read as
      UTF-8\<close>
  "parse_pair seg =
     (let n = takeWhile (\<lambda>c. c \<noteq> CHR ''='') seg;
          v = drop (length n + 1) seg
      in (utf8_decode (percent_decode (plus_to_space n)),
          utf8_decode (percent_decode (plus_to_space v))))"

definition URLSearchParams :: "string \<Rightarrow> (string \<times> string) list" where
  \<comment> \<open>\<^verbatim>\<open>new URLSearchParams(init)\<close>: the name-value pairs in order\<close>
  "URLSearchParams init =
     map parse_pair
       (filter (\<lambda>seg. seg \<noteq> [])
          (split_on (CHR ''&'') (if startsWith ''?'' init then drop 1 init else init)))"

definition URLSearchParams_get :: "(string \<times> string) list \<Rightarrow> string \<Rightarrow> string option" where
  \<comment> \<open>\<^verbatim>\<open>params.get(name)\<close>: the value of the first pair of that name, \<open>None\<close> for null\<close>
  "URLSearchParams_get params n = map_of params n"

record DecodedEIP681 =
  scheme :: string
  contractAddress :: string
  dec_chainId :: jsnum
  functionName :: string
  recipientAddress :: string
  dec_amount :: string

definition decode_try :: "string \<Rightarrow> decode_cause + DecodedEIP681" where
  \<comment> \<open>the \<^verbatim>\<open>try\<close> block: \<open>Inl\<close> is the \<^verbatim>\<open>Error\<close> it throws\<close>
  "decode_try uri =
     (case match_anchored (\<lambda>c. c \<noteq> CHR '':'') (CHR '':'') uri of
        None \<Rightarrow> Inl NoScheme
      | Some scheme' \<Rightarrow>
     (case match_delimited (CHR '':'') (\<lambda>c. c \<noteq> CHR ''@'') (CHR ''@'') uri of
        None \<Rightarrow> Inl NoContract
      | Some contractAddress' \<Rightarrow>
     (case match_delimited (CHR ''@'') is_digit (CHR ''/'') uri of
        None \<Rightarrow> Inl NoChainId
      | Some chainIdMatch \<Rightarrow>
     (case match_delimited (CHR ''/'') (\<lambda>c. c \<noteq> CHR ''?'') (CHR ''?'') uri of
        None \<Rightarrow> Inl NoFunction
      | Some functionName' \<Rightarrow>
     (case split_on (CHR ''?'') uri of
        q0 # queryString # _ \<Rightarrow>
          if queryString = [] then Inl NoQuery
          else
            let params = URLSearchParams queryString;
                recipientAddress' = URLSearchParams_get params ''address'';
                amount' = URLSearchParams_get params ''uint256''
            in (case recipientAddress' of
                  None \<Rightarrow> Inl NoRecipient
                | Some r \<Rightarrow>
                    if r = [] then Inl NoRecipient
                    else (case amount' of
                            None \<Rightarrow> Inl NoAmount
                          | Some a \<Rightarrow>
                              if a = [] then Inl NoAmount
                              else Inr \<lparr>scheme = scheme', contractAddress = contractAddress',
                                        dec_chainId = parseInt10 chainIdMatch,
                                        functionName = functionName',
                                        recipientAddress = r, dec_amount = a\<rparr>))
      | _ \<Rightarrow> Inl NoQuery)))))"

definition decodeEIP681 :: "string \<Rightarrow> js_error + DecodedEIP681" where
  "decodeEIP681 uri =
     (case decode_try uri of
        Inl cause \<Rightarrow> Inl (JPYCPaymentError MsgDecodeFailed ENCODING_FAILED (UriDetails uri cause))
      | Inr decoded \<Rightarrow> Inr decoded)"

section \<open>Validation (src/validator.ts, src/types.ts)\<close>

datatype warning_message =
    SmallAmountWarning jsnum
  | LargeAmountWarning jsnum
  | CustomContractWarning
  | CustomDecimalsWarning jsnum

record Warning =
  code :: string
  message :: warning_message

text \<open>
  The options as the validator reads them: a field that is \<^verbatim>\<open>undefined\<close> (or
  \<^verbatim>\<open>null\<close>) is \<open>None\<close>. The tests of the repository pass records without
  \<^verbatim>\<open>merchantAddress\<close> or \<^verbatim>\<open>amount\<close> and with other network names, so the
  required fields are optional here and the network is a string.
\<close>

record PaymentURIOptions =
  merchantAddress :: "string option"
  opt_amount :: "amount option"
  opt_network :: "string option"
  opt_jpycContractAddress :: "string option"
  opt_decimals :: "jsnum option"

record ValidationResult =
  valid :: bool
  errors :: "validation_message list"
  vr_warnings :: "Warning list"

definition amount_to_number :: "amount \<Rightarrow> jsnum" where
  \<comment> \<open>\<^verbatim>\<open>typeof amount === 'string' ? Number.parseFloat(amount) : amount\<close>\<close>
  "amount_to_number a = (case a of AmtString s \<Rightarrow> parseFloat s | AmtNumber x \<Rightarrow> x)"

definition check_merchantAddress ::
  "PaymentURIOptions \<Rightarrow> validation_message list \<Rightarrow> validation_message list" where
  "check_merchantAddress options errs =
     (case merchantAddress options of
        None \<Rightarrow> errs @ [MerchantRequired]
      | Some m \<Rightarrow>
          if m = [] then errs @ [MerchantRequired]
          else if \<not> isValidAddressFormat m then errs @ [InvalidMerchantFormat m]
          else errs)"

definition check_amount ::
  "PaymentURIOptions \<Rightarrow> validation_message list \<times> Warning list
     \<Rightarrow> validation_message list \<times> Warning list" where
  "check_amount options st =
     (case st of (errs, warns) \<Rightarrow>
        if opt_amount options = None \<or> opt_amount options = Some (AmtString []) then
          (errs @ [AmountRequired], warns)
        else
          let amountNum = amount_to_number (the (opt_amount options));
              errs1 =
                (if Number_isNaN amountNum then
                   errs @ [InvalidAmountFormat (amount_toString (the (opt_amount options)))]
                 else if js_le amountNum (Fin 0) then errs @ [AmountNotPositive amountNum]
                 else if \<not> Number_isFinite amountNum then errs @ [AmountNotFinite]
                 else if js_gt amountNum MAX_SAFE_AMOUNT then errs @ [AmountTooLarge amountNum]
                 else errs);
              warns1 =
                (if js_lt amountNum (Fin 1) \<and> js_gt amountNum (Fin 0) then
                   warns @ [\<lparr>code = ''SMALL_AMOUNT'', message = SmallAmountWarning amountNum\<rparr>]
                 else warns);
              warns2 =
                (if js_gt amountNum (Fin 1000000) then
                   warns1 @ [\<lparr>code = ''LARGE_AMOUNT'', message = LargeAmountWarning amountNum\<rparr>]
                 else warns1)
          in (errs1, warns2))"

definition check_network ::
  "PaymentURIOptions \<Rightarrow> validation_message list \<Rightarrow> validation_message list" where
  "check_network options errs =
     (case opt_network options of
        None \<Rightarrow> errs
      | Some n \<Rightarrow> if CHAIN_CONFIGS n = None then errs @ [UnsupportedNetwork n] else errs)"

definition check_jpycContractAddress ::
  "PaymentURIOptions \<Rightarrow> validation_message list \<times> Warning list
     \<Rightarrow> validation_message list \<times> Warning list" where
  "check_jpycContractAddress options st =
     (case st of (errs, warns) \<Rightarrow>
        (case opt_jpycContractAddress options of
           None \<Rightarrow> (errs, warns)
         | Some c \<Rightarrow>
             if \<not> isValidAddressFormat c then (errs @ [InvalidContractFormat c], warns)
             else (errs, warns @ [\<lparr>code = ''CUSTOM_CONTRACT'', message = CustomContractWarning\<rparr>])))"

definition check_decimals ::
  "PaymentURIOptions \<Rightarrow> validation_message list \<times> Warning list
     \<Rightarrow> validation_message list \<times> Warning list" where
  "check_decimals options st =
     (case st of (errs, warns) \<Rightarrow>
        (case opt_decimals options of
           None \<Rightarrow> (errs, warns)
         | Some d \<Rightarrow>
             let errs1 =
                   (if \<not> Number_isInteger d \<or> js_lt d (Fin 0) \<or> js_gt d (Fin 18)
                    then errs @ [DecimalsOutOfRange d] else errs);
                 errs2 =
                   (if opt_jpycContractAddress options = None
                       \<or> opt_jpycContractAddress options = Some []
                    then errs1 @ [DecimalsNeedContract] else errs1);
                 warns1 =
                   (if d \<noteq> Fin 18 then
                      warns @ [\<lparr>code = ''CUSTOM_DECIMALS'', message = CustomDecimalsWarning d\<rparr>]
                    else warns)
             in (errs2, warns1)))"

definition validateGenerateOptions :: "PaymentURIOptions \<Rightarrow> js_error + ValidationResult" where
  \<comment> \<open>The five blocks of the source in their order, each appending to the two lists. No
      statement of the function throws, so the result is always \<open>Inr\<close>.\<close>
  "validateGenerateOptions options =
     (let errs1 = check_merchantAddress options [];
          st2 = check_amount options (errs1, []);
          st3 = (check_network options (fst st2), snd st2);
          st4 = check_jpycContractAddress options st3;
          st5 = check_decimals options st4
      in Inr \<lparr>valid = (length (fst st5) = 0), errors = fst st5, vr_warnings = snd st5\<rparr>)"

definition isValidAddress :: "string \<Rightarrow> bool" where
  \<comment> \<open>\<^verbatim>\<open>ADDRESS_REGEX.test(address)\<close>, the same expression as \<^verbatim>\<open>isValidAddressFormat\<close>\<close>
  "isValidAddress address = isValidAddressFormat address"

definition isValidAmount :: "amount \<Rightarrow> bool" where
  "isValidAmount a =
     (let amountNum = amount_to_number a
      in \<not> Number_isNaN amountNum \<and> Number_isFinite amountNum \<and> js_gt amountNum (Fin 0)
         \<and> js_le amountNum MAX_SAFE_AMOUNT)"

section \<open>The request builder (src/uri-generator.ts)\<close>

record PaymentURIResult =
  uri :: string
  res_chainId :: "jsnum option"
  res_network :: string
  res_jpycContractAddress :: "string option"
  amountWei :: string
  amountJPY :: string
  res_decimals :: jsnum
  res_warnings :: "Warning list"

definition generatePaymentURI :: "PaymentURIOptions \<Rightarrow> js_error + PaymentURIResult" where
  \<comment> \<open>After a passing validation \<^verbatim>\<open>merchantAddress\<close> and \<^verbatim>\<open>amount\<close> are present; the
      branches for their absence are never taken and stand for the TypeError of the runtime.
      The chain id and the contract address of the result are \<open>None\<close> where the program
      holds \<^verbatim>\<open>undefined\<close>.\<close>
  "generatePaymentURI options =
     (case validateGenerateOptions options of
        Inl e \<Rightarrow> Inl e
      | Inr validation \<Rightarrow>
          if \<not> valid validation then
            Inl (JPYCPaymentError (MsgValidationFailed (errors validation)) VALIDATION_FAILED
                   (ErrorsDetails (errors validation)))
          else
            let network = (case opt_network options of None \<Rightarrow> DEFAULT_NETWORK | Some n \<Rightarrow> n) in
            (case CHAIN_CONFIGS network of
               None \<Rightarrow> Inl (JPYCPaymentError (MsgUnsupportedNetwork network) INVALID_NETWORK NoDetails)
             | Some chainConfig \<Rightarrow>
                 let contract = (case opt_jpycContractAddress options of
                                   None \<Rightarrow> entry_jpycAddress chainConfig | Some c \<Rightarrow> Some c);
                     decimals = (case opt_decimals options of None \<Rightarrow> JPYC_DECIMALS | Some d \<Rightarrow> d)
                 in (case (opt_amount options, merchantAddress options) of
                       (Some amount, Some merchant) \<Rightarrow>
                         (case jpyToWei amount decimals of
                            Inl e \<Rightarrow> Inl e
                          | Inr amountWei' \<Rightarrow>
                              (case encodeEIP681_untyped contract merchant amountWei'
                                      (entry_chainId chainConfig) of
                                 Inl e \<Rightarrow> Inl e
                               | Inr uri' \<Rightarrow>
                                   Inr \<lparr>uri = uri',
                                        res_chainId = entry_chainId chainConfig,
                                        res_network = network,
                                        res_jpycContractAddress = contract,
                                        amountWei = amountWei',
                                        amountJPY = amount_toString amount,
                                        res_decimals = decimals,
                                        res_warnings = vr_warnings validation\<rparr>))
                     | _ \<Rightarrow> Inl (Native TypeError))))"
section \<open>Notions of the specification\<close>

text \<open>The digits of a number: no leading zeros, a single zero for zero.\<close>

definition strip_leading_zeros :: "string \<Rightarrow> string" where
  "strip_leading_zeros ds =
     (if dropWhile (\<lambda>c. c = CHR ''0'') ds = [] then ''0'' else dropWhile (\<lambda>c. c = CHR ''0'') ds)"

text \<open>
  A non-negative decimal string: digits with at most one fractional separator and at least
  one digit. Its integer part stands before the separator and its fractional part after
  it; its value is the rational number it denotes. Its canonical form writes the same
  number with no leading zeros in the integer part (a single zero when that part is zero
  or empty), no trailing zeros in the fractional part, and no separator when the
  fractional part is empty.
\<close>

definition is_decimal_string :: "string \<Rightarrow> bool" where
  "is_decimal_string A =
     (list_all (\<lambda>c. is_digit c \<or> c = CHR ''.'') A \<and> count_char (CHR ''.'') A \<le> 1
      \<and> list_ex is_digit A)"

definition int_part :: "string \<Rightarrow> string" where
  "int_part A = takeWhile (\<lambda>c. c \<noteq> CHR ''.'') A"

definition frac_part :: "string \<Rightarrow> string" where
  "frac_part A = drop 1 (dropWhile (\<lambda>c. c \<noteq> CHR ''.'') A)"

definition decimal_value :: "string \<Rightarrow> rat" where
  "decimal_value A =
     of_int (digits_to_int (int_part A))
     + of_int (digits_to_int (frac_part A)) / 10 ^ length (frac_part A)"

definition canonical :: "string \<Rightarrow> string" where
  "canonical A =
     strip_leading_zeros (int_part A)
     @ (if strip_trailing_zeros (frac_part A) = [] then []
        else ''.'' @ strip_trailing_zeros (frac_part A))"


text \<open>
  The six fields of an identifier string
  \<^verbatim>\<open><scheme>:<contract>@<chainId>/<function>?address=<recipient>&uint256=<amount>\<close>,
  each at its place. The scheme is the text before the first colon. The contract address
  is the text between that colon and the next \<^verbatim>\<open>@\<close>. The chain id is the text between
  that \<^verbatim>\<open>@\<close> and the next slash, and it consists of digits. The function name is the text
  between that slash and the next question mark. The query is what follows that question
  mark; a parameter is present when the query, read as a form-encoded list of name-value
  pairs, gives its name a non-empty value. A field is present when its closing delimiter
  is there and its text is not empty.
\<close>

definition text_before :: "char \<Rightarrow> string \<Rightarrow> string" where
  "text_before c s = takeWhile (\<lambda>x. x \<noteq> c) s"

definition text_after :: "char \<Rightarrow> string \<Rightarrow> string" where
  "text_after c s = drop 1 (dropWhile (\<lambda>x. x \<noteq> c) s)"

definition has_scheme :: "string \<Rightarrow> bool" where
  "has_scheme u = (CHR '':'' \<in> set u \<and> text_before (CHR '':'') u \<noteq> [])"

definition after_scheme :: "string \<Rightarrow> string" where
  "after_scheme u = text_after (CHR '':'') u"

definition has_contract :: "string \<Rightarrow> bool" where
  "has_contract u =
     (CHR ''@'' \<in> set (after_scheme u) \<and> text_before (CHR ''@'') (after_scheme u) \<noteq> [])"

definition after_contract :: "string \<Rightarrow> string" where
  "after_contract u = text_after (CHR ''@'') (after_scheme u)"

definition has_chain_id :: "string \<Rightarrow> bool" where
  "has_chain_id u =
     (CHR ''/'' \<in> set (after_contract u) \<and> text_before (CHR ''/'') (after_contract u) \<noteq> []
      \<and> list_all is_digit (text_before (CHR ''/'') (after_contract u)))"

definition after_chain_id :: "string \<Rightarrow> string" where
  "after_chain_id u = text_after (CHR ''/'') (after_contract u)"

definition has_function :: "string \<Rightarrow> bool" where
  "has_function u =
     (CHR ''?'' \<in> set (after_chain_id u) \<and> text_before (CHR ''?'') (after_chain_id u) \<noteq> [])"

definition query_of :: "string \<Rightarrow> string" where
  "query_of u = text_after (CHR ''?'') (after_chain_id u)"

definition has_parameter :: "string \<Rightarrow> string \<Rightarrow> bool" where
  "has_parameter n u =
     (case map_of (URLSearchParams (query_of u)) n of None \<Rightarrow> False | Some v \<Rightarrow> v \<noteq> [])"
section \<open>Verified properties\<close>

subsection \<open>Keccak-256 and the checksum engine\<close>

lemma length_iota [simp]: "length (iota rc a) = length a"
  by (simp add: iota_def split: list.splits)

lemma length_chi [simp]: "length (chi b) = 25"
  by (simp add: chi_def)

lemma length_keccak_round [simp]: "length (keccak_round a rc) = 25"
  by (simp add: keccak_round_def)

lemma length_foldl_keccak_round: "length a = 25 \<Longrightarrow> length (foldl keccak_round a rcs) = 25"
  by (induction rcs arbitrary: a) simp_all

lemma length_keccak_f: "length a = 25 \<Longrightarrow> length (keccak_f a) = 25"
  by (simp add: keccak_f_def length_foldl_keccak_round)

lemma length_lanes_of_block [simp]: "length (lanes_of_block n bs) = n"
  by (induction n arbitrary: bs) simp_all

lemma length_absorb_block: "length a = 25 \<Longrightarrow> length (absorb_block a blk) = 25"
  by (simp add: absorb_block_def length_keccak_f)

lemma length_absorb: "length a = 25 \<Longrightarrow> length (absorb n a bs) = 25"
  by (induction n arbitrary: a bs) (simp_all add: length_absorb_block)

lemma length_concat_bytes_of_lane: "length (concat (map bytes_of_lane ls)) = 8 * length ls"
  by (induction ls) (simp_all add: bytes_of_lane_def)

lemma length_keccak_256 [simp]: "length (keccak_256 s) = 32"
  by (simp add: keccak_256_def keccak_256_bytes_def Let_def length_concat_bytes_of_lane length_absorb)

lemma length_bytesToHex [simp]: "length (bytesToHex bs) = 2 * length bs"
  by (induction bs) (simp_all add: bytesToHex_def padStart_def byte_toString16_def)

lemma checksum_loop_eq:
  "length l \<le> length h \<Longrightarrow>
   checksum_loop l h i acc = acc @ map (\<lambda>j. checksum_char (h ! j) (l ! j)) [i..<length l]"
proof (induction l h i acc rule: checksum_loop.induct)
  case (1 l h i acc)
  show ?case
  proof (cases "i < length l")
    case True
    then have ih: "i < length h" using "1.prems" by simp
    have "[i..<length l] = i # [i + 1..<length l]"
      using True by (simp add: upt_conv_Cons)
    then show ?thesis
      using True ih "1.IH"(1) [OF True ih "1.prems"]
      by (subst checksum_loop.simps) (simp add: checksum_char_def)
  next
    case False
    then show ?thesis by (subst checksum_loop.simps) simp
  qed
qed


lemma hex_case_facts:
  assumes "is_hex_digit c"
  shows "is_hex_digit (toLowerCase_char c)"
    and "is_hex_digit (toUpperCase_char (toLowerCase_char c))"
    and "toLowerCase_char (toUpperCase_char (toLowerCase_char c)) = toLowerCase_char c"
    and "toLowerCase_char (toLowerCase_char c) = toLowerCase_char c"
proof -
  have "c \<in> set ''0123456789abcdefABCDEF''"
    using assms by (simp add: is_hex_digit_def)
  then have "is_hex_digit (toLowerCase_char c) \<and>
             is_hex_digit (toUpperCase_char (toLowerCase_char c)) \<and>
             toLowerCase_char (toUpperCase_char (toLowerCase_char c)) = toLowerCase_char c \<and>
             toLowerCase_char (toLowerCase_char c) = toLowerCase_char c"
    unfolding set_simps
    by (elim insertE emptyE; hypsubst;
        simp add: is_hex_digit_def toLowerCase_char_def toUpperCase_char_def)
  then show "is_hex_digit (toLowerCase_char c)"
    and "is_hex_digit (toUpperCase_char (toLowerCase_char c))"
    and "toLowerCase_char (toUpperCase_char (toLowerCase_char c)) = toLowerCase_char c"
    and "toLowerCase_char (toLowerCase_char c) = toLowerCase_char c"
    by simp_all
qed

lemma checksum_char_lower:
  "is_hex_digit c \<Longrightarrow> toLowerCase_char (checksum_char h (toLowerCase_char c)) = toLowerCase_char c"
  by (simp add: checksum_char_def hex_case_facts)

lemma checksum_char_hex:
  "is_hex_digit c \<Longrightarrow> is_hex_digit (checksum_char h (toLowerCase_char c))"
  by (simp add: checksum_char_def hex_case_facts)

lemma toChecksumAddress_valid:
  assumes "isValidAddressFormat X"
  shows "toChecksumAddress X = Inr (''0x'' @ checksum_digits (toLowerCase (drop 2 X)))"
proof -
  have len: "length (toLowerCase (drop 2 X)) = 40"
    using assms by (simp add: isValidAddressFormat_def toLowerCase_def)
  have "checksum_loop (toLowerCase (drop 2 X)) (bytesToHex (keccak_256 (toLowerCase (drop 2 X)))) 0 ''0x''
        = ''0x'' @ checksum_digits (toLowerCase (drop 2 X))"
    unfolding checksum_digits_def
    by (rule checksum_loop_eq) (simp add: len)
  moreover have "startsWith ''0x'' X" "length X = 42"
    using assms by (simp_all add: isValidAddressFormat_def startsWith_def numeral_2_eq_2)
  ultimately show ?thesis
    using assms
    by (simp add: toChecksumAddress_def Let_def del: checksum_loop.simps)
qed

lemma checksum_digits_props:
  assumes "list_all is_hex_digit ds"
  shows "length (checksum_digits (toLowerCase ds)) = length ds"
    and "list_all is_hex_digit (checksum_digits (toLowerCase ds))"
    and "toLowerCase (checksum_digits (toLowerCase ds)) = toLowerCase ds"
proof -
  show "length (checksum_digits (toLowerCase ds)) = length ds"
    by (simp add: checksum_digits_def toLowerCase_def)
  show "list_all is_hex_digit (checksum_digits (toLowerCase ds))"
    using assms
    by (auto simp: checksum_digits_def toLowerCase_def list_all_iff intro!: checksum_char_hex)
  show "toLowerCase (checksum_digits (toLowerCase ds)) = toLowerCase ds"
    using assms
    by (auto simp: checksum_digits_def toLowerCase_def list_all_iff checksum_char_lower
        intro!: nth_equalityI)
qed

lemma toChecksumAddress_result_valid:
  assumes "isValidAddressFormat X" and "toChecksumAddress X = Inr Y"
  shows "isValidAddressFormat Y" and "toLowerCase (drop 2 Y) = toLowerCase (drop 2 X)"
proof -
  have hex: "list_all is_hex_digit (drop 2 X)" and len: "length (drop 2 X) = 40"
    using assms(1) by (simp_all add: isValidAddressFormat_def)
  have Y: "Y = ''0x'' @ checksum_digits (toLowerCase (drop 2 X))"
    using assms toChecksumAddress_valid by simp
  show "isValidAddressFormat Y"
    using checksum_digits_props(1,2) [OF hex] len
    by (simp add: Y isValidAddressFormat_def)
  show "toLowerCase (drop 2 Y) = toLowerCase (drop 2 X)"
    using checksum_digits_props(3) [OF hex] by (simp add: Y)
qed

text \<open>
  Claim C3. \<^verbatim>\<open>toChecksumAddress\<close> succeeds on every format-valid address, its result
  is a fixed point (applying it again returns the same address), and every format-valid
  address with the same 40 digits up to letter case has the same result.
\<close>

theorem toChecksumAddress_case_insensitive_idempotent:
  assumes "isValidAddressFormat X"
  shows "\<exists>Y. toChecksumAddress X = Inr Y \<and> toChecksumAddress Y = Inr Y \<and>
             (\<forall>X'. isValidAddressFormat X' \<and> toLowerCase (drop 2 X') = toLowerCase (drop 2 X)
                    \<longrightarrow> toChecksumAddress X' = Inr Y)"
proof -
  define Y where "Y = ''0x'' @ checksum_digits (toLowerCase (drop 2 X))"
  have 1: "toChecksumAddress X = Inr Y"
    using assms by (simp add: toChecksumAddress_valid Y_def)
  have 2: "toChecksumAddress Y = Inr Y"
    using toChecksumAddress_result_valid [OF assms 1] by (simp add: toChecksumAddress_valid Y_def)
  have 3: "toChecksumAddress X' = Inr Y"
    if "isValidAddressFormat X'" "toLowerCase (drop 2 X') = toLowerCase (drop 2 X)" for X'
    using that by (simp add: toChecksumAddress_valid Y_def)
  from 1 2 3 show ?thesis by blast
qed







lemma checksum_jpyc_loop:
  "checksum_loop ''e7c3d8c9a439fede00d2600032d5db0be71c3c29''
     ''ef8496cc661f62b276f3eb5fa3915a7c010ce56708ada78beb7395c4bfd81675'' 0 ''0x'' =
   ''0xE7C3D8C9a439feDe00D2600032D5dB0Be71C3c29''"
  by code_simp

lemma keccak_256_jpyc_address:
  "keccak_256 ''e7c3d8c9a439fede00d2600032d5db0be71c3c29'' =
   [239, 132, 150, 204, 102, 31, 98, 178, 118, 243, 235, 95, 163, 145, 90, 124, 1, 12, 229,
    103, 8, 173, 167, 139, 235, 115, 149, 196, 191, 216, 22, 117]"
  by code_simp

lemma hashHex_jpyc_address:
  "bytesToHex (keccak_256 ''e7c3d8c9a439fede00d2600032d5db0be71c3c29'') =
   ''ef8496cc661f62b276f3eb5fa3915a7c010ce56708ada78beb7395c4bfd81675''"
  unfolding keccak_256_jpyc_address by code_simp

lemma toChecksumAddress_loop:
  assumes "isValidAddressFormat X"
  shows "toChecksumAddress X =
         Inr (checksum_loop (toLowerCase (drop 2 X))
                (bytesToHex (keccak_256 (toLowerCase (drop 2 X)))) 0 ''0x'')"
proof -
  have "startsWith ''0x'' X" "length X = 42"
    using assms by (simp_all add: isValidAddressFormat_def startsWith_def numeral_2_eq_2)
  then show ?thesis
    using assms by (simp add: toChecksumAddress_def Let_def del: checksum_loop.simps)
qed

lemma jpyc_address_valid:
  "isValidAddressFormat ''0xe7c3d8c9a439fede00d2600032d5db0be71c3c29''"
  by code_simp

lemma jpyc_address_lower:
  "toLowerCase (drop 2 ''0xe7c3d8c9a439fede00d2600032d5db0be71c3c29'') =
   ''e7c3d8c9a439fede00d2600032d5db0be71c3c29''"
  by code_simp

lemma toChecksumAddress_jpyc:
  "toChecksumAddress ''0xe7c3d8c9a439fede00d2600032d5db0be71c3c29'' =
   Inr ''0xE7C3D8C9a439feDe00D2600032D5dB0Be71C3c29''"
  by (simp only: toChecksumAddress_loop [OF jpyc_address_valid] jpyc_address_lower
      hashHex_jpyc_address checksum_jpyc_loop)


theorem toChecksumAddress_case_insensitive_idempotent_witness:
  "isValidAddressFormat ''0xE7C3D8C9A439FEDE00D2600032D5DB0BE71C3C29'' \<and>
   toChecksumAddress ''0xE7C3D8C9A439FEDE00D2600032D5DB0BE71C3C29'' =
     Inr ''0xE7C3D8C9a439feDe00D2600032D5dB0Be71C3c29'' \<and>
   toChecksumAddress ''0xE7C3D8C9a439feDe00D2600032D5dB0Be71C3c29'' =
     Inr ''0xE7C3D8C9a439feDe00D2600032D5dB0Be71C3c29''"
proof -
  have v: "isValidAddressFormat ''0xE7C3D8C9A439FEDE00D2600032D5DB0BE71C3C29''"
    by code_simp
  have same: "toLowerCase (drop 2 ''0xe7c3d8c9a439fede00d2600032d5db0be71c3c29'') =
              toLowerCase (drop 2 ''0xE7C3D8C9A439FEDE00D2600032D5DB0BE71C3C29'')"
    by code_simp
  from toChecksumAddress_case_insensitive_idempotent [OF v]
  obtain Y where Y: "toChecksumAddress ''0xE7C3D8C9A439FEDE00D2600032D5DB0BE71C3C29'' = Inr Y"
      "toChecksumAddress Y = Inr Y"
      "\<And>X'. isValidAddressFormat X' \<Longrightarrow>
         toLowerCase (drop 2 X') = toLowerCase (drop 2 ''0xE7C3D8C9A439FEDE00D2600032D5DB0BE71C3C29'')
         \<Longrightarrow> toChecksumAddress X' = Inr Y"
    by blast
  have "Y = ''0xE7C3D8C9a439feDe00D2600032D5dB0Be71C3c29''"
    using Y(3) [OF jpyc_address_valid same] toChecksumAddress_jpyc by simp
  then show ?thesis
    using v Y(1,2) by simp
qed


subsection \<open>Rounding to a double\<close>


lemma ilog2_bounds:
  "1 \<le> n \<Longrightarrow> 0 \<le> ilog2 n \<and> 2 ^ nat (ilog2 n) \<le> n \<and> n < 2 * 2 ^ nat (ilog2 n)"
proof (induction n rule: ilog2.induct)
  case (1 n)
  show ?case
  proof (cases "n < 2")
    case True
    with "1.prems" have "n = 1" by simp
    then show ?thesis by (simp add: ilog2.simps)
  next
    case False
    then have h: "1 \<le> n div 2" by simp
    have ih: "0 \<le> ilog2 (n div 2)" "2 ^ nat (ilog2 (n div 2)) \<le> n div 2"
        "n div 2 < 2 * 2 ^ nat (ilog2 (n div 2))"
      using "1.IH" [OF False h] by simp_all
    have eq: "ilog2 n = 1 + ilog2 (n div 2)"
      using False by (subst ilog2.simps) simp
    have p: "(2::int) ^ nat (1 + ilog2 (n div 2)) = 2 * 2 ^ nat (ilog2 (n div 2))"
      using ih(1) by (simp add: nat_add_distrib)
    show ?thesis
      unfolding eq p using ih by (simp; presburger)
  qed
qed

lemma ilog2_1 [simp]: "ilog2 1 = 0"
  by (simp add: ilog2.simps)

lemma floor_log2_of_int:
  assumes "1 \<le> n"
  shows "floor_log2 (of_int n) = ilog2 n"
proof -
  have b: "0 \<le> ilog2 n" "2 ^ nat (ilog2 n) \<le> n"
    using ilog2_bounds [OF assms] by simp_all
  have "(2::rat) powi ilog2 n = of_int (2 ^ nat (ilog2 n))"
    using b(1) by (simp add: power_int_def)
  also have "\<dots> \<le> of_int n"
    using b(2) by (simp only: of_int_le_iff)
  finally show ?thesis
    by (simp add: floor_log2_def quotient_of_int)
qed

lemma round_half_even_of_int [simp]: "round_half_even (of_int m) = m"
  by (simp add: round_half_even_def)

lemma double_overflow_gt: "(2::rat) ^ 53 < double_overflow"
  by (simp add: double_overflow_def)

lemma round_double_pos_exact:
  assumes "q < double_overflow"
    and "q / 2 powi (max (floor_log2 q) (- 1022) - 52) = of_int m"
  shows "round_double_pos q = Fin q"
proof -
  have nz: "(2::rat) powi (max (floor_log2 q) (- 1022) - 52) \<noteq> 0"
    by simp
  have "of_int m * 2 powi (max (floor_log2 q) (- 1022) - 52) = q"
    using assms(2) nz by (metis nonzero_divide_eq_eq)
  then show ?thesis
    using assms by (simp add: round_double_pos_def Let_def)
qed

lemma round_double_pos_int:
  assumes "1 \<le> n" "n \<le> 2 ^ 53"
  shows "round_double_pos (of_int n) = Fin (of_int n)"
proof -
  define k where "k = ilog2 n"
  have b: "0 \<le> k" "2 ^ nat k \<le> n" "n < 2 * 2 ^ nat k"
    using ilog2_bounds [OF assms(1)] by (simp_all add: k_def)
  have k53: "k \<le> 53"
  proof (rule ccontr)
    assume "\<not> k \<le> 53"
    then have "54 \<le> nat k" by simp
    then have "(2::int) ^ 54 \<le> 2 ^ nat k"
      by (intro power_increasing) simp_all
    then show False using b(2) assms(2) by simp
  qed
  have fl: "floor_log2 (of_int n) = k"
    using floor_log2_of_int [OF assms(1)] by (simp add: k_def)
  have mx: "max k (- 1022) = k" using b(1) by simp
  have lt: "(of_int n :: rat) < double_overflow"
  proof -
    have "(of_int n :: rat) \<le> of_int (2 ^ 53)"
      using assms(2) by (simp only: of_int_le_iff)
    then show ?thesis using double_overflow_gt by simp
  qed
  have "\<exists>m. (of_int n :: rat) / 2 powi (k - 52) = of_int m"
  proof (cases "k \<le> 52")
    case True
    then have "(2::rat) powi (k - 52) = 1 / 2 ^ nat (52 - k)"
      by (simp add: power_int_def field_simps)
    then have "(of_int n :: rat) / 2 powi (k - 52) = of_int (n * 2 ^ nat (52 - k))"
      by simp
    then show ?thesis by blast
  next
    case False
    then have k: "k = 53" using k53 by simp
    then have "n = 2 ^ 53"
      using b(2) assms(2) by simp
    then have "(of_int n :: rat) / 2 powi (k - 52) = of_int (2 ^ 52)"
      by (simp add: k)
    then show ?thesis by blast
  qed
  then obtain m where "(of_int n :: rat) / 2 powi (k - 52) = of_int m" ..
  then show ?thesis
    using round_double_pos_exact [OF lt, of m] by (simp add: fl mx)
qed

lemma round_double_int:
  assumes "\<bar>n\<bar> \<le> 2 ^ 53"
  shows "round_double (of_int n) = Fin (of_int n)"
proof -
  consider "n = 0" | "1 \<le> n" | "n \<le> - 1" by linarith
  then show ?thesis
  proof cases
    case 1
    then show ?thesis by (simp add: round_double_def)
  next
    case 2
    then show ?thesis
      using assms round_double_pos_int [of n] by (simp add: round_double_def)
  next
    case 3
    then have "round_double_pos (of_int (- n)) = Fin (of_int (- n))"
      using assms by (intro round_double_pos_int) simp_all
    then show ?thesis
      using 3 by (simp add: round_double_def js_neg_def)
  qed
qed

lemma round_double_not_NaN [simp]: "round_double q \<noteq> NaN"
  by (simp add: round_double_def round_double_pos_def js_neg_def Let_def)

lemma round_double_overflow:
  "double_overflow \<le> q \<Longrightarrow> round_double q = PosInf"
proof -
  assume a: "double_overflow \<le> q"
  have "0 < double_overflow" using double_overflow_gt
    by (smt (verit) zero_less_power less_trans zero_less_numeral)
  then show ?thesis using a by (simp add: round_double_def round_double_pos_def)
qed

lemma round_double_finite:
  "\<bar>q\<bar> < double_overflow \<Longrightarrow> Number_isFinite (round_double q)"
  by (auto simp: round_double_def round_double_pos_def js_neg_def Let_def Number_isFinite_def)

subsection \<open>Decimal digits\<close>

lemma digit_value_range: "is_digit c \<Longrightarrow> 0 \<le> digit_value c \<and> digit_value c < 10"
  by (simp add: is_digit_def digit_value_def)

lemma digit_char_value: "digit_char (digit_value c) = c"
  by (simp add: digit_char_def digit_value_def)

lemma digit_value_char: "0 \<le> d \<Longrightarrow> d < 10 \<Longrightarrow> digit_value (digit_char d) = d"
  by (simp add: digit_char_def digit_value_def of_char_of)

lemma is_digit_char: "0 \<le> d \<Longrightarrow> d < 10 \<Longrightarrow> is_digit (digit_char d)"
  by (simp add: digit_char_def is_digit_def of_char_of)

lemma digit_char_0 [simp]: "digit_char 0 = CHR ''0''"
  by code_simp

lemma digit_value_zero_iff: "is_digit c \<Longrightarrow> digit_value c = 0 \<longleftrightarrow> c = CHR ''0''"
proof
  assume "is_digit c" "digit_value c = 0"
  then have "digit_char (digit_value c) = digit_char 0" by simp
  then show "c = CHR ''0''" by (simp add: digit_char_value)
next
  assume "c = CHR ''0''"
  then show "digit_value c = 0" by (simp add: digit_value_def)
qed

lemma foldl_digits:
  "foldl (\<lambda>acc c. 10 * acc + digit_value c) a ds = a * 10 ^ length ds + digits_to_int ds"
proof (induction ds arbitrary: a)
  case Nil
  then show ?case by (simp add: digits_to_int_def)
next
  case (Cons c ds)
  have "foldl (\<lambda>acc c. 10 * acc + digit_value c) a (c # ds) =
        (10 * a + digit_value c) * 10 ^ length ds + digits_to_int ds"
    using Cons.IH [of "10 * a + digit_value c"] by simp
  moreover have "digits_to_int (c # ds) = digit_value c * 10 ^ length ds + digits_to_int ds"
    using Cons.IH [of "digit_value c"] by (simp add: digits_to_int_def)
  ultimately show ?case by (simp add: algebra_simps)
qed

lemma digits_to_int_Nil [simp]: "digits_to_int [] = 0"
  by (simp add: digits_to_int_def)

lemma digits_to_int_Cons:
  "digits_to_int (c # ds) = digit_value c * 10 ^ length ds + digits_to_int ds"
  using foldl_digits [of "digit_value c" ds] by (simp add: digits_to_int_def)

lemma digits_to_int_append:
  "digits_to_int (xs @ ys) = digits_to_int xs * 10 ^ length ys + digits_to_int ys"
  using foldl_digits [of "digits_to_int xs" ys] by (simp add: digits_to_int_def)

lemma digits_to_int_snoc: "digits_to_int (xs @ [c]) = 10 * digits_to_int xs + digit_value c"
  by (simp add: digits_to_int_append digits_to_int_Cons)

lemma digits_to_int_bounds:
  "list_all is_digit ds \<Longrightarrow> 0 \<le> digits_to_int ds \<and> digits_to_int ds < 10 ^ length ds"
proof (induction ds rule: rev_induct)
  case Nil
  then show ?case by simp
next
  case (snoc c ds)
  then have ih: "0 \<le> digits_to_int ds" "digits_to_int ds < 10 ^ length ds"
    and c: "0 \<le> digit_value c" "digit_value c < 10"
    using digit_value_range by simp_all
  have "10 * digits_to_int ds + digit_value c < 10 * 10 ^ length ds"
    using ih(2) c(2) by linarith
  then show ?case
    using ih(1) c(1) by (simp add: digits_to_int_snoc)
qed

lemma digits_to_int_zeros [simp]: "digits_to_int (replicate n (CHR ''0'')) = 0"
  by (induction n) (simp_all add: digits_to_int_Cons digit_value_def)

lemma digits_to_int_zero_iff:
  "list_all is_digit ds \<Longrightarrow> digits_to_int ds = 0 \<longleftrightarrow> (\<forall>c\<in>set ds. c = CHR ''0'')"
proof (induction ds rule: rev_induct)
  case Nil
  then show ?case by simp
next
  case (snoc c ds)
  then have d: "list_all is_digit ds" "is_digit c" by simp_all
  have b: "0 \<le> digits_to_int ds" "0 \<le> digit_value c"
    using digits_to_int_bounds [OF d(1)] digit_value_range [OF d(2)] by simp_all
  have "digits_to_int (ds @ [c]) = 0 \<longleftrightarrow> digits_to_int ds = 0 \<and> digit_value c = 0"
    using b by (simp add: digits_to_int_snoc) linarith
  then show ?case
    using snoc.IH [OF d(1)] digit_value_zero_iff [OF d(2)] by auto
qed

lemma int_to_digits_small: "n < 10 \<Longrightarrow> int_to_digits n = [digit_char n]"
  by (subst int_to_digits.simps) simp

lemma int_to_digits_step:
  "0 \<le> d \<Longrightarrow> d < 10 \<Longrightarrow> 1 \<le> v \<Longrightarrow>
   int_to_digits (10 * v + d) = int_to_digits v @ [digit_char d]"
  by (subst int_to_digits.simps) simp

lemma int_to_digits_of_digits:
  "list_all is_digit ds \<Longrightarrow> int_to_digits (digits_to_int ds) = strip_leading_zeros ds"
proof (induction ds rule: rev_induct)
  case Nil
  show ?case by (simp add: strip_leading_zeros_def int_to_digits_small)
next
  case (snoc c ds)
  then have d: "list_all is_digit ds" "is_digit c" by simp_all
  have cb: "0 \<le> digit_value c" "digit_value c < 10"
    using digit_value_range [OF d(2)] by simp_all
  have vb: "0 \<le> digits_to_int ds"
    using digits_to_int_bounds [OF d(1)] by simp
  show ?case
  proof (cases "digits_to_int ds = 0")
    case True
    then have z: "\<forall>x\<in>set ds. x = CHR ''0''"
      using digits_to_int_zero_iff [OF d(1)] by simp
    then have "dropWhile (\<lambda>c. c = CHR ''0'') (ds @ [c]) = dropWhile (\<lambda>c. c = CHR ''0'') [c]"
      by (simp add: dropWhile_append2)
    then have "strip_leading_zeros (ds @ [c]) = [c]"
      by (simp add: strip_leading_zeros_def)
    moreover have "int_to_digits (digits_to_int (ds @ [c])) = [c]"
      using True cb by (simp add: digits_to_int_snoc int_to_digits_small digit_char_value)
    ultimately show ?thesis by simp
  next
    case False
    then have v1: "1 \<le> digits_to_int ds" using vb by simp
    have nz: "dropWhile (\<lambda>c. c = CHR ''0'') ds \<noteq> []"
      using False digits_to_int_zero_iff [OF d(1)] by (auto simp: dropWhile_eq_Nil_conv)
    then obtain x where x: "x \<in> set ds" "x \<noteq> CHR ''0''"
      by (auto simp: dropWhile_eq_Nil_conv)
    have "dropWhile (\<lambda>c. c = CHR ''0'') (ds @ [c]) = dropWhile (\<lambda>c. c = CHR ''0'') ds @ [c]"
      using x by (intro dropWhile_append1) auto
    then have "strip_leading_zeros (ds @ [c]) = strip_leading_zeros ds @ [c]"
      using nz by (simp add: strip_leading_zeros_def del: dropWhile_eq_Nil_conv)
    moreover have "int_to_digits (digits_to_int (ds @ [c])) = int_to_digits (digits_to_int ds) @ [c]"
      using int_to_digits_step [OF cb v1] by (simp add: digits_to_int_snoc digit_char_value)
    ultimately show ?thesis
      using snoc.IH [OF d(1)] by simp
  qed
qed

lemma int_to_digits_props:
  "0 \<le> n \<Longrightarrow> list_all is_digit (int_to_digits n) \<and> int_to_digits n \<noteq> [] \<and>
     digits_to_int (int_to_digits n) = n"
proof (induction n rule: int_to_digits.induct)
  case (1 n)
  show ?case
  proof (cases "n < 10")
    case True
    then show ?thesis
      using "1.prems" by (simp add: int_to_digits_small is_digit_char digits_to_int_Cons digit_value_char)
  next
    case False
    then have h: "0 \<le> n div 10" by simp
    have ih: "list_all is_digit (int_to_digits (n div 10))"
        "digits_to_int (int_to_digits (n div 10)) = n div 10"
      using "1.IH" [OF False h] by simp_all
    have eq: "int_to_digits n = int_to_digits (n div 10) @ [digit_char (n mod 10)]"
      using False by (subst int_to_digits.simps) simp
    have m: "0 \<le> n mod 10" "n mod 10 < 10" by simp_all
    show ?thesis
      unfolding eq using ih m
      by (simp add: digits_to_int_snoc is_digit_char digit_value_char)
  qed
qed

subsection \<open>The encoder\<close>


lemma toUpperCase_char_digit: "is_digit c \<Longrightarrow> toUpperCase_char c = c"
proof -
  assume d: "is_digit c"
  have "c \<notin> set ''abcdefghijklmnopqrstuvwxyz''"
  proof
    assume "c \<in> set ''abcdefghijklmnopqrstuvwxyz''"
    then show False
      using d unfolding set_simps is_digit_def
      by (elim insertE emptyE; hypsubst_thin; simp)
  qed
  then have "map_of (zip ''abcdefghijklmnopqrstuvwxyz'' ''ABCDEFGHIJKLMNOPQRSTUVWXYZ'') c = None"
    by (subst map_of_eq_None_iff) simp
  then show ?thesis
    by (simp add: toUpperCase_char_def)
qed

lemma checksum_digits_of_digits:
  assumes "list_all is_digit l"
  shows "checksum_digits l = l"
  using assms
  by (auto simp: checksum_digits_def checksum_char_def list_all_iff toUpperCase_char_digit
      intro!: nth_equalityI)

lemma toChecksumAddress_digits_only:
  "toChecksumAddress ''0x1234567890123456789012345678901234567890'' =
   Inr ''0x1234567890123456789012345678901234567890''"
proof -
  have v: "isValidAddressFormat ''0x1234567890123456789012345678901234567890''"
    by code_simp
  have l: "toLowerCase (drop 2 ''0x1234567890123456789012345678901234567890'') =
           ''1234567890123456789012345678901234567890''"
    by code_simp
  have d: "list_all is_digit ''1234567890123456789012345678901234567890''"
    by code_simp
  show ?thesis
    by (simp only: toChecksumAddress_valid [OF v] l checksum_digits_of_digits [OF d]) simp
qed

lemma int_to_digits_137: "int_to_digits 137 = ''137''"
  by code_simp

lemma Number_toString_safe_int:
  assumes "0 < n" "n \<le> 2 ^ 53"
  shows "Number_toString (Fin (of_int n)) = int_to_digits n"
proof -
  have "(of_int n :: rat) \<le> 2 ^ 53"
    using assms(2) by (metis of_int_le_iff of_int_numeral of_int_power)
  then show ?thesis
    using assms(1) by (simp add: Number_toString_def positive_toString_def)
qed

lemma Number_toString_137: "Number_toString (Fin 137) = ''137''"
  using Number_toString_safe_int [of 137] by (simp add: int_to_digits_137)

lemma encodeEIP681_valid:
  assumes "toChecksumAddress c = Inr cc" "toChecksumAddress r = Inr cr"
  shows "encodeEIP681 c r a chainId =
         Inr (''ethereum:'' @ cc @ ''@'' @ Number_toString chainId @ ''/transfer?address='' @ cr @
              ''&uint256='' @ a)"
  using assms by (simp add: encodeEIP681_def EIP681_SCHEME_def TRANSFER_FUNCTION_def)

text \<open>
  Claim C5. For format-valid addresses, any amount string and any chain id, the encoder
  returns exactly the scheme, a colon, the checksummed contract, \<^verbatim>\<open>@\<close>, the chain id as
  the runtime writes a number, \<^verbatim>\<open>/transfer?address=\<close>, the checksummed recipient,
  \<^verbatim>\<open>&uint256=\<close> and the amount, with nothing between the pieces; the scenario of the
  specification yields the stated identifier.
\<close>

theorem encodeEIP681_exact_format:
  "(\<forall>c r a chainId. isValidAddressFormat c \<and> isValidAddressFormat r \<longrightarrow>
      (\<exists>cc cr. toChecksumAddress c = Inr cc \<and> toChecksumAddress r = Inr cr \<and>
         encodeEIP681 c r a chainId =
           Inr (''ethereum:'' @ cc @ ''@'' @ Number_toString chainId @ ''/transfer?address='' @ cr @
                ''&uint256='' @ a))) \<and>
   encodeEIP681 ''0xe7c3d8c9a439fede00d2600032d5db0be71c3c29''
     ''0x1234567890123456789012345678901234567890'' ''1000000000000000000'' (Fin 137) =
   Inr ''ethereum:0xE7C3D8C9a439feDe00D2600032D5dB0Be71C3c29@137/transfer?address=0x1234567890123456789012345678901234567890&uint256=1000000000000000000''"
proof (intro conjI allI impI)
  fix c r a chainId
  assume "isValidAddressFormat c \<and> isValidAddressFormat r"
  then obtain cc cr where "toChecksumAddress c = Inr cc" "toChecksumAddress r = Inr cr"
    using toChecksumAddress_valid by blast
  then show "\<exists>cc cr. toChecksumAddress c = Inr cc \<and> toChecksumAddress r = Inr cr \<and>
         encodeEIP681 c r a chainId =
           Inr (''ethereum:'' @ cc @ ''@'' @ Number_toString chainId @ ''/transfer?address='' @ cr @
                ''&uint256='' @ a)"
    using encodeEIP681_valid by blast
next
  show "encodeEIP681 ''0xe7c3d8c9a439fede00d2600032d5db0be71c3c29''
     ''0x1234567890123456789012345678901234567890'' ''1000000000000000000'' (Fin 137) =
   Inr ''ethereum:0xE7C3D8C9a439feDe00D2600032D5dB0Be71C3c29@137/transfer?address=0x1234567890123456789012345678901234567890&uint256=1000000000000000000''"
    by (simp add: encodeEIP681_valid [OF toChecksumAddress_jpyc toChecksumAddress_digits_only]
        Number_toString_137)
qed

theorem encodeEIP681_exact_format_witness:
  "isValidAddressFormat ''0xe7c3d8c9a439fede00d2600032d5db0be71c3c29'' \<and>
   isValidAddressFormat ''0x1234567890123456789012345678901234567890'' \<and>
   (\<exists>cc cr. encodeEIP681 ''0xe7c3d8c9a439fede00d2600032d5db0be71c3c29''
              ''0x1234567890123456789012345678901234567890'' ''5'' (Fin 1) =
            Inr (''ethereum:'' @ cc @ ''@'' @ Number_toString (Fin 1) @ ''/transfer?address='' @ cr @
                 ''&uint256=5''))"
proof -
  have v: "isValidAddressFormat ''0xe7c3d8c9a439fede00d2600032d5db0be71c3c29''"
      "isValidAddressFormat ''0x1234567890123456789012345678901234567890''"
    by code_simp+
  have "\<exists>cc cr. toChecksumAddress ''0xe7c3d8c9a439fede00d2600032d5db0be71c3c29'' = Inr cc \<and>
          toChecksumAddress ''0x1234567890123456789012345678901234567890'' = Inr cr \<and>
          encodeEIP681 ''0xe7c3d8c9a439fede00d2600032d5db0be71c3c29''
              ''0x1234567890123456789012345678901234567890'' ''5'' (Fin 1) =
            Inr (''ethereum:'' @ cc @ ''@'' @ Number_toString (Fin 1) @ ''/transfer?address='' @ cr @
                 ''&uint256='' @ ''5'')"
    using encodeEIP681_exact_format [THEN conjunct1, rule_format, OF conjI, OF v] .
  then show ?thesis
    using v by auto
qed

subsection \<open>Decimal strings and the converter\<close>

lemma match_prefix_none: "\<forall>w\<in>set ws. \<not> startsWith w s \<Longrightarrow> match_prefix ws s = 0"
proof -
  assume "\<forall>w\<in>set ws. \<not> startsWith w s"
  then have "filter (\<lambda>w. startsWith w s) ws = []"
    by (simp add: filter_empty_conv)
  then show ?thesis by (simp add: match_prefix_def)
qed

lemma skip_prefixes_none: "match_prefix ws s = 0 \<Longrightarrow> skip_prefixes ws s = s"
  by (subst skip_prefixes.simps) simp

text \<open>A printable ASCII character starts and ends no white space.\<close>

lemma skip_ws_plain:
  assumes "32 < (of_char c :: int)" "(of_char c :: int) < 128"
  shows "skip_ws (c # s) = c # s"
proof -
  have "\<forall>w\<in>set white_space. \<not> startsWith w (c # s)"
    using assms by (auto simp: white_space_def startsWith_def)
  then show ?thesis
    unfolding skip_ws_def by (intro skip_prefixes_none match_prefix_none)
qed

lemma skip_ws_Nil [simp]: "skip_ws [] = []"
  unfolding skip_ws_def
  by (intro skip_prefixes_none match_prefix_none) (simp add: white_space_def startsWith_def)

lemma skip_trailing_plain:
  assumes "32 < (of_char c :: int)" "(of_char c :: int) < 128"
  shows "skip_prefixes (map rev white_space) (c # s) = c # s"
proof -
  have "\<forall>w\<in>set (map rev white_space). \<not> startsWith w (c # s)"
    using assms by (auto simp: white_space_def startsWith_def)
  then show ?thesis
    by (intro skip_prefixes_none match_prefix_none)
qed

lemma skip_trailing_Nil [simp]: "skip_prefixes (map rev white_space) [] = []"
  by (intro skip_prefixes_none match_prefix_none) (simp add: white_space_def startsWith_def)

lemma is_digit_plain: "is_digit c \<Longrightarrow> 32 < (of_char c :: int) \<and> (of_char c :: int) < 128"
  by (simp add: is_digit_def)

lemma dot_facts [simp]: "\<not> is_digit (CHR ''.'')"
  by (simp_all add: is_digit_def)

lemma decimal_string_parts:
  assumes "is_decimal_string A"
  shows "list_all is_digit (int_part A)"
    and "list_all is_digit (frac_part A)"
    and "A = int_part A \<or> A = int_part A @ ''.'' @ frac_part A"
    and "int_part A \<noteq> [] \<or> frac_part A \<noteq> []"
    and "CHR ''.'' \<notin> set (int_part A)"
proof -
  let ?P = "\<lambda>c. c \<noteq> CHR ''.''"
  have all: "\<forall>c\<in>set A. is_digit c \<or> c = CHR ''.''"
    and cnt: "count_char (CHR ''.'') A \<le> 1"
    and ex: "\<exists>c\<in>set A. is_digit c"
    using assms by (simp_all add: is_decimal_string_def list_all_iff list_ex_iff)
  have split: "A = int_part A @ dropWhile ?P A"
    by (simp add: int_part_def)
  show nodot: "CHR ''.'' \<notin> set (int_part A)"
    unfolding int_part_def by (auto dest: set_takeWhileD)
  have ip_sub: "set (int_part A) \<subseteq> set A"
    unfolding int_part_def by (auto dest: set_takeWhileD)
  show ip: "list_all is_digit (int_part A)"
    using all nodot ip_sub by (auto simp: list_all_iff)
  have rest: "dropWhile ?P A = [] \<or> dropWhile ?P A = CHR ''.'' # frac_part A"
  proof (cases "dropWhile ?P A")
    case Nil
    then show ?thesis by simp
  next
    case (Cons x xs)
    then have "\<not> ?P x" using hd_dropWhile [of ?P A] by (metis list.sel(1) list.simps(3))
    then show ?thesis using Cons by (simp add: frac_part_def)
  qed
  show cases: "A = int_part A \<or> A = int_part A @ ''.'' @ frac_part A"
    using rest split by (metis append_Cons append_Nil append_Nil2)
  show fp: "list_all is_digit (frac_part A)"
  proof (cases "dropWhile ?P A = []")
    case True
    then show ?thesis unfolding frac_part_def by (simp del: dropWhile_eq_Nil_conv)
  next
    case False
    then have A: "A = int_part A @ CHR ''.'' # frac_part A"
      using rest split by metis
    have "count_char (CHR ''.'') A = count_char (CHR ''.'') (int_part A) + 1
            + count_char (CHR ''.'') (frac_part A)"
      by (subst A) (simp add: count_char_def)
    then have "count_char (CHR ''.'') (frac_part A) = 0"
      using cnt by simp
    then have nd: "CHR ''.'' \<notin> set (frac_part A)"
      by (auto simp: count_char_def filter_empty_conv)
    have "set (frac_part A) \<subseteq> set A"
      by (subst (2) A) auto
    then show ?thesis
      using all nd by (auto simp: list_all_iff)
  qed
  show "int_part A \<noteq> [] \<or> frac_part A \<noteq> []"
  proof (rule ccontr)
    assume "\<not> (int_part A \<noteq> [] \<or> frac_part A \<noteq> [])"
    then have "A = [] \<or> A = ''.''"
      using cases by auto
    then show False using ex by auto
  qed
qed

lemma split_on_no_sep: "c \<notin> set xs \<Longrightarrow> split_on c xs = [xs]"
  by (induction xs) auto

lemma split_on_sep: "c \<notin> set xs \<Longrightarrow> split_on c (xs @ c # ys) = xs # split_on c ys"
  by (induction xs) auto

lemma takeWhile_digits_all: "list_all is_digit ds \<Longrightarrow> takeWhile is_digit ds = ds"
  by (simp add: list_all_iff)

lemma takeWhile_digits_dot:
  "list_all is_digit ds \<Longrightarrow> takeWhile is_digit (ds @ CHR ''.'' # r) = ds"
  by (simp add: list_all_iff takeWhile_append2)

lemma dropWhile_digits_all: "list_all is_digit ds \<Longrightarrow> dropWhile is_digit ds = []"
  by (simp add: list_all_iff)

lemma dropWhile_digits_dot:
  "list_all is_digit ds \<Longrightarrow> dropWhile is_digit (ds @ CHR ''.'' # r) = CHR ''.'' # r"
  by (simp add: list_all_iff dropWhile_append2)

lemma not_Infinity_prefix:
  assumes "\<forall>c\<in>set A. is_digit c \<or> c = CHR ''.''"
  shows "\<not> startsWith ''Infinity'' A"
proof
  assume "startsWith ''Infinity'' A"
  then have "take (length ''Infinity'') A = ''Infinity''"
    unfolding startsWith_def .
  then have "set (take (length ''Infinity'') A) = set ''Infinity''"
    by (simp only:)
  then have "CHR ''I'' \<in> set (take (length ''Infinity'') A)"
    by simp
  then have "CHR ''I'' \<in> set A" by (rule in_set_takeD)
  then show False using assms by (auto simp: is_digit_def)
qed

lemma startsWith_dot [simp]: "startsWith ''.'' (CHR ''.'' # r)" "\<not> startsWith ''.'' []"
  by (simp_all add: startsWith_def)

lemma decimal_value_identity:
  "of_int a + of_int b / (10::rat) ^ n = of_int (a * 10 ^ n + b) * 10 powi (0 - int n)"
proof -
  have "(10::rat) powi (0 - int n) = 1 / 10 ^ n"
    by (simp add: power_int_minus inverse_eq_divide)
  then show ?thesis
    by (simp add: field_simps)
qed

lemma parseFloat_decimal_string:
  assumes "is_decimal_string A"
  shows "parseFloat A = round_double (decimal_value A)"
proof -
  note p = decimal_string_parts [OF assms]
  have all: "\<forall>c\<in>set A. is_digit c \<or> c = CHR ''.''"
    using assms by (simp add: is_decimal_string_def list_all_iff)
  have ne: "A \<noteq> []" using p(4) by (auto simp: int_part_def frac_part_def)
  then obtain a as where A: "A = a # as" by (cases A) auto
  have a: "is_digit a \<or> a = CHR ''.''" using all A by simp
  then have "32 < (of_char a :: int) \<and> (of_char a :: int) < 128"
    using is_digit_plain by auto
  then have nws: "skip_ws (a # as) = a # as"
    using skip_ws_plain by blast
  have nsign: "a \<noteq> CHR ''-''" "a \<noteq> CHR ''+''"
    using a by (auto simp: is_digit_def)
  have pf: "parseFloat A = parse_unsigned_decimal A"
    using nws nsign by (simp add: parseFloat_def A startsWith_def)
  have val: "decimal_value A =
      of_int (digits_to_int (int_part A @ frac_part A)) * 10 powi (0 - int (length (frac_part A)))"
    unfolding decimal_value_def digits_to_int_append by (rule decimal_value_identity)
  define ip fp where "ip = int_part A" and "fp = frac_part A"
  have dig: "list_all is_digit ip" "list_all is_digit fp" "ip \<noteq> [] \<or> fp \<noteq> []"
    using p(1,2,4) by (simp_all add: ip_def fp_def)
  have val': "decimal_value A = of_int (digits_to_int (ip @ fp)) * 10 powi (0 - int (length fp))"
    using val by (simp add: ip_def fp_def)
  have "A = ip \<or> A = ip @ CHR ''.'' # fp"
    using p(3) by (simp add: ip_def fp_def)
  then show ?thesis
  proof
    assume e: "A = ip"
    have "CHR ''.'' \<notin> set A"
      using e [unfolded ip_def] p(5) by metis
    then have "dropWhile (\<lambda>c. c \<noteq> CHR ''.'') A = []"
      by auto
    then have "fp = []"
      unfolding fp_def frac_part_def by (simp only: drop_Nil)
    moreover have "\<not> startsWith ''Infinity'' ip"
      using not_Infinity_prefix [OF all] e by simp
    then have "parse_unsigned_decimal ip = round_double (of_int (digits_to_int ip) * 10 powi (0 - 0))"
      using dig \<open>fp = []\<close>
      by (auto simp: parse_unsigned_decimal_def Let_def takeWhile_digits_all dropWhile_digits_all
           parse_exponent_def)
    ultimately show ?thesis using pf val' e by simp
  next
    assume e: "A = ip @ CHR ''.'' # fp"
    have "\<not> startsWith ''Infinity'' (ip @ CHR ''.'' # fp)"
      using not_Infinity_prefix [OF all] e by simp
    then have "parse_unsigned_decimal (ip @ CHR ''.'' # fp) =
          round_double (of_int (digits_to_int (ip @ fp)) * 10 powi (0 - int (length fp)))"
      using dig
      by (auto simp: parse_unsigned_decimal_def Let_def takeWhile_digits_dot dropWhile_digits_dot
           takeWhile_digits_all dropWhile_digits_all parse_exponent_def)
    then show ?thesis using pf val' e by simp
  qed
qed


lemma decimal_string_cases:
  assumes "is_decimal_string A"
  shows "(A = int_part A \<and> frac_part A = []) \<or> A = int_part A @ CHR ''.'' # frac_part A"
proof -
  note p = decimal_string_parts [OF assms]
  from p(3) show ?thesis
  proof
    assume e: "A = int_part A"
    then have "CHR ''.'' \<notin> set A" using p(5) by metis
    then have "dropWhile (\<lambda>c. c \<noteq> CHR ''.'') A = []" by auto
    then have "frac_part A = []"
      unfolding frac_part_def by (simp only: drop_Nil)
    then show ?thesis using e by blast
  next
    assume "A = int_part A @ ''.'' @ frac_part A"
    then show ?thesis by simp
  qed
qed

lemma startsWith_set: "startsWith p s \<Longrightarrow> set p \<subseteq> set s"
proof -
  assume "startsWith p s"
  then have "take (length p) s = p" by (simp add: startsWith_def)
  then have "set p = set (take (length p) s)" by simp
  then show ?thesis using set_take_subset by metis
qed

lemma dropWhile_none: "\<forall>x\<in>set xs. \<not> P x \<Longrightarrow> dropWhile P xs = xs"
  by (cases xs) auto

lemma trim_ws_id:
  assumes "\<forall>c\<in>set s. 32 < (of_char c :: int) \<and> (of_char c :: int) < 128"
  shows "trim_ws s = s"
proof (cases s)
  case Nil
  then show ?thesis by (simp add: trim_ws_def)
next
  case (Cons a as)
  have l: "skip_ws s = s"
    using assms skip_ws_plain [of a as] Cons by simp
  obtain b bs where r: "rev s = b # bs"
    using Cons by (cases "rev s") auto
  then have "b \<in> set s"
    by (metis list.set_intros(1) set_rev)
  then have "skip_prefixes (map rev white_space) (rev s) = rev s"
    using assms skip_trailing_plain [of b bs] r by simp
  then show ?thesis
    by (simp add: trim_ws_def l)
qed

lemma BigInt_digits:
  assumes "ds \<noteq> []" "list_all is_digit ds"
  shows "BigInt ds = Inr (digits_to_int ds)"
proof -
  have d: "\<forall>c\<in>set ds. is_digit c" using assms(2) by (simp add: list_all_iff)
  then have t: "trim_ws ds = ds" using is_digit_plain by (intro trim_ws_id) blast
  have no: "\<not> startsWith p ds" if "\<exists>c\<in>set p. \<not> is_digit c" for p
    using that d startsWith_set [of p ds] by blast
  have "\<not> startsWith ''0x'' ds" "\<not> startsWith ''0X'' ds" "\<not> startsWith ''0o'' ds"
    "\<not> startsWith ''0O'' ds" "\<not> startsWith ''0b'' ds" "\<not> startsWith ''0B'' ds"
    "\<not> startsWith ''-'' ds" "\<not> startsWith ''+'' ds"
    by (rule no, simp add: is_digit_def)+
  then show ?thesis
    using assms by (simp add: BigInt_def StringToBigInt_def t decimal_literal_def)
qed

lemma BigInt_nonneg_roundtrip: "0 \<le> n \<Longrightarrow> BigInt (int_to_digits n) = Inr n"
  using int_to_digits_props [of n] by (simp add: BigInt_digits)

lemma valid_decimals_nat:
  "d \<le> 18 \<Longrightarrow> \<not> invalid_decimals (Fin (of_nat d))" "to_length (Fin (of_nat d)) = d"
  by (simp_all add: invalid_decimals_def js_lt_def js_gt_def Number_isInteger_def to_length_def)

text \<open>The minor-unit integer the converter builds for a decimal string.\<close>

lemma jpyToWei_decimal_string:
  assumes A: "is_decimal_string A" and d: "d \<le> 18" and fin: "Number_isFinite (parseFloat A)"
  shows "jpyToWei (AmtString A) (Fin (of_nat d)) =
         Inr (int_to_digits (digits_to_int (int_part A) * 10 ^ d
               + digits_to_int (take d (frac_part A @ replicate (d - length (frac_part A)) (CHR ''0'')))))"
proof -
  note p = decimal_string_parts [OF A]
  define ip fp where "ip = int_part A" and "fp = frac_part A"
  define padded where "padded = take d (fp @ replicate (d - length fp) (CHR ''0''))"
  define intPart where "intPart = (if ip = [] then ''0'' else ip)"
  have dig: "list_all is_digit ip" "list_all is_digit fp" "CHR ''.'' \<notin> set ip"
    using p(1,2,5) by (simp_all add: ip_def fp_def)
  have fpdot: "CHR ''.'' \<notin> set fp"
    using dig(2) by (auto simp: list_all_iff)
  have all: "\<forall>c\<in>set A. is_digit c \<or> c = CHR ''.''"
    and cnt: "\<not> 1 < count_char (CHR ''.'') A"
    using A by (auto simp: is_decimal_string_def list_all_iff)
  have nneg: "\<not> startsWith ''-'' A"
  proof
    assume "startsWith ''-'' A"
    then have "CHR ''-'' \<in> set A" using startsWith_set [of "''-''" A] by simp
    then have "is_digit (CHR ''-'') \<or> CHR ''-'' = CHR ''.''" using all by blast
    then show False by (simp add: is_digit_def)
  qed
  have nnan: "\<not> Number_isNaN (parseFloat A)"
    by (simp add: parseFloat_decimal_string [OF A] Number_isNaN_def)
  have parts: "split_on (CHR ''.'') A = [ip] \<and> fp = [] \<or> split_on (CHR ''.'') A = [ip, fp]"
  proof -
    from decimal_string_cases [OF A]
    have "(A = ip \<and> fp = []) \<or> A = ip @ CHR ''.'' # fp"
      by (simp add: ip_def fp_def)
    then show ?thesis
    proof
      assume "A = ip \<and> fp = []"
      then show ?thesis using split_on_no_sep [OF dig(3)] by simp
    next
      assume "A = ip @ CHR ''.'' # fp"
      then show ?thesis
        using split_on_sep [OF dig(3), of fp] split_on_no_sep [OF fpdot] by simp
    qed
  qed
  have sel: "(case split_on (CHR ''.'') A of [] \<Rightarrow> ''0'' | p0 # _ \<Rightarrow> if p0 = [] then ''0'' else p0) = intPart"
    "(case split_on (CHR ''.'') A of _ # p1 # _ \<Rightarrow> p1 | _ \<Rightarrow> []) = fp"
    using parts by (auto simp: intPart_def)
  have pd: "list_all is_digit padded" "length padded = d"
    using dig(2) by (auto simp: padded_def list_all_iff dest: in_set_takeD simp: is_digit_def)
  have ipd: "list_all is_digit intPart" "intPart \<noteq> []" "digits_to_int intPart = digits_to_int ip"
    using dig(1) by (auto simp: intPart_def is_digit_def digits_to_int_Cons digit_value_def)
  have big: "BigInt (intPart @ padded) = Inr (digits_to_int ip * 10 ^ d + digits_to_int padded)"
    using ipd pd by (subst BigInt_digits) (simp_all add: digits_to_int_append)
  have nn: "0 \<le> digits_to_int ip * 10 ^ d + digits_to_int padded"
    using digits_to_int_bounds [OF dig(1)] digits_to_int_bounds [OF pd(1)] by simp
  have "jpyToWei (AmtString A) (Fin (of_nat d)) =
        Inr (BigInt_toString (digits_to_int ip * 10 ^ d + digits_to_int padded))"
    using valid_decimals_nat(1) [OF d] valid_decimals_nat(2) [of d] nneg nnan fin cnt big
    by (simp add: jpyToWei_def amount_toString_def Let_def sel padEnd_def padded_def)
  then show ?thesis
    using nn by (simp add: BigInt_toString_def ip_def fp_def padded_def)
qed

lemma padded_fraction_value:
  assumes "list_all is_digit fp"
  shows "digits_to_int (take d (fp @ replicate (d - length fp) (CHR ''0''))) =
         \<lfloor>of_int (digits_to_int fp) * (10::rat) ^ d / 10 ^ length fp\<rfloor>"
proof (cases "length fp \<le> d")
  case True
  then have "take d (fp @ replicate (d - length fp) (CHR ''0'')) = fp @ replicate (d - length fp) (CHR ''0'')"
    by simp
  then have l: "digits_to_int (take d (fp @ replicate (d - length fp) (CHR ''0''))) =
             digits_to_int fp * 10 ^ (d - length fp)"
    by (simp add: digits_to_int_append)
  have "(10::rat) ^ d = 10 ^ (d - length fp) * 10 ^ length fp"
    using True by (simp flip: power_add)
  then have "of_int (digits_to_int fp) * (10::rat) ^ d / 10 ^ length fp =
             of_int (digits_to_int fp * 10 ^ (d - length fp))"
    by simp
  then show ?thesis
    using l by (simp only: floor_of_int)
next
  case False
  then have lt: "d < length fp" by simp
  define k where "k = length fp - d"
  have fp: "fp = take d fp @ drop d fp" by simp
  have ld: "length (drop d fp) = k" by (simp add: k_def)
  have dd: "list_all is_digit (drop d fp)"
    using assms by (auto simp: list_all_iff dest: in_set_dropD)
  have v: "digits_to_int fp = digits_to_int (take d fp) * 10 ^ k + digits_to_int (drop d fp)"
    using digits_to_int_append [of "take d fp" "drop d fp"] ld by simp
  have b: "0 \<le> digits_to_int (drop d fp)" "digits_to_int (drop d fp) < 10 ^ k"
    using digits_to_int_bounds [OF dd] ld by simp_all
  have dv: "digits_to_int fp div 10 ^ k = digits_to_int (take d fp)"
    unfolding v using b by (simp add: div_pos_pos_trivial)
  have "(10::rat) ^ length fp = 10 ^ k * 10 ^ d"
    using lt by (simp add: k_def flip: power_add)
  then have "of_int (digits_to_int fp) * (10::rat) ^ d / 10 ^ length fp =
             of_int (digits_to_int fp) / of_int (10 ^ k)"
    by simp
  then have "\<lfloor>of_int (digits_to_int fp) * (10::rat) ^ d / 10 ^ length fp\<rfloor> =
             digits_to_int fp div 10 ^ k"
    by (simp only: floor_divide_of_int_eq)
  moreover have "take d (fp @ replicate (d - length fp) (CHR ''0'')) = take d fp"
    using lt by simp
  ultimately show ?thesis using dv by simp
qed

lemma minor_units_floor:
  assumes "list_all is_digit (frac_part A)"
  shows "digits_to_int (int_part A) * 10 ^ d
           + digits_to_int (take d (frac_part A @ replicate (d - length (frac_part A)) (CHR ''0'')))
         = \<lfloor>decimal_value A * 10 ^ d\<rfloor>"
proof -
  have "decimal_value A * 10 ^ d =
        of_int (digits_to_int (int_part A) * 10 ^ d)
        + of_int (digits_to_int (frac_part A)) * 10 ^ d / 10 ^ length (frac_part A)"
    by (simp add: decimal_value_def algebra_simps)
  then have "\<lfloor>decimal_value A * 10 ^ d\<rfloor> =
        \<lfloor>of_int (digits_to_int (int_part A) * 10 ^ d)
        + of_int (digits_to_int (frac_part A)) * (10::rat) ^ d / 10 ^ length (frac_part A)\<rfloor>"
    by (simp only:)
  also have "\<dots> = digits_to_int (int_part A) * 10 ^ d
        + \<lfloor>of_int (digits_to_int (frac_part A)) * (10::rat) ^ d / 10 ^ length (frac_part A)\<rfloor>"
    by (rule int_add_floor [symmetric])
  finally have "\<lfloor>decimal_value A * 10 ^ d\<rfloor> =
        digits_to_int (int_part A) * 10 ^ d
        + \<lfloor>of_int (digits_to_int (frac_part A)) * (10::rat) ^ d / 10 ^ length (frac_part A)\<rfloor>" .
  then show ?thesis
    using padded_fraction_value [OF assms, of d] by simp
qed

lemma decimal_value_nonneg: "is_decimal_string A \<Longrightarrow> 0 \<le> decimal_value A"
  using decimal_string_parts(1,2) [of A] digits_to_int_bounds
  by (simp add: decimal_value_def)

lemma parseFloat_finite_iff:
  assumes "is_decimal_string A"
  shows "Number_isFinite (parseFloat A) \<longleftrightarrow> decimal_value A < double_overflow"
proof (cases "decimal_value A < double_overflow")
  case True
  then have "\<bar>decimal_value A\<bar> < double_overflow"
    using decimal_value_nonneg [OF assms] by simp
  then show ?thesis
    using True round_double_finite by (simp add: parseFloat_decimal_string [OF assms])
next
  case False
  then show ?thesis
    using round_double_overflow [of "decimal_value A"]
    by (simp add: parseFloat_decimal_string [OF assms] Number_isFinite_def)
qed

lemma decimal_value_bound:
  assumes "is_decimal_string A"
  shows "decimal_value A < 10 ^ length (int_part A)"
proof -
  note p = decimal_string_parts [OF assms]
  have i: "digits_to_int (int_part A) + 1 \<le> 10 ^ length (int_part A)"
    using digits_to_int_bounds [OF p(1)] by simp
  have f: "digits_to_int (frac_part A) < 10 ^ length (frac_part A)"
    using digits_to_int_bounds [OF p(2)] by simp
  have "(of_int (digits_to_int (frac_part A)) :: rat) < of_int (10 ^ length (frac_part A))"
    using f by (simp only: of_int_less_iff)
  then have "(of_int (digits_to_int (frac_part A)) :: rat) / 10 ^ length (frac_part A) < 1"
    by simp
  moreover have "(of_int (digits_to_int (int_part A) + 1) :: rat) \<le> of_int (10 ^ length (int_part A))"
    using i by (simp only: of_int_le_iff)
  then have "(of_int (digits_to_int (int_part A)) :: rat) + 1 \<le> 10 ^ length (int_part A)"
    by simp
  ultimately show ?thesis
    unfolding decimal_value_def by linarith
qed

lemma ten_pow_300_lt_overflow: "(10::rat) ^ 300 < double_overflow"
  by (simp add: double_overflow_def)

lemma parseFloat_finite_short:
  assumes "is_decimal_string A" "length (int_part A) \<le> 300"
  shows "Number_isFinite (parseFloat A)"
proof -
  have "(10::rat) ^ length (int_part A) \<le> 10 ^ 300"
    using assms(2) by (intro power_increasing) simp_all
  then have "decimal_value A < double_overflow"
    using decimal_value_bound [OF assms(1)] ten_pow_300_lt_overflow by linarith
  then show ?thesis
    by (simp add: parseFloat_finite_iff [OF assms(1)])
qed

lemma jpyToWei_number:
  "jpyToWei (AmtNumber x) d = jpyToWei (AmtString (Number_toString x)) d"
  by (simp add: jpyToWei_def amount_toString_def)

lemma int_to_digits_100: "int_to_digits 100 = ''100''"
  by code_simp

lemma Number_toString_100: "Number_toString (Fin 100) = ''100''"
  using Number_toString_safe_int [of 100] by (simp add: int_to_digits_100)

lemma jpyToWei_truncation_scenario:
  "jpyToWei (AmtString ''0.123456789012345678901'') (Fin 18) = Inr ''123456789012345678''"
proof -
  have a: "is_decimal_string ''0.123456789012345678901''"
    by code_simp
  have b: "length (int_part ''0.123456789012345678901'') \<le> 300"
    by code_simp
  have c: "int_to_digits (digits_to_int (int_part ''0.123456789012345678901'') * 10 ^ 18
             + digits_to_int (take 18 (frac_part ''0.123456789012345678901''
                 @ replicate (18 - length (frac_part ''0.123456789012345678901'')) (CHR ''0''))))
           = ''123456789012345678''"
    by code_simp
  have "jpyToWei (AmtString ''0.123456789012345678901'') (Fin (of_nat 18)) = Inr ''123456789012345678''"
    unfolding c [symmetric]
    by (rule jpyToWei_decimal_string [OF a _ parseFloat_finite_short [OF a b]]) simp
  then show ?thesis by simp
qed

lemma jpyToWei_100_scenario:
  "jpyToWei (AmtNumber (Fin 100)) (Fin 18) = Inr ''100000000000000000000''"
proof -
  have a: "is_decimal_string ''100''"
    by code_simp
  have b: "length (int_part ''100'') \<le> 300"
    by code_simp
  have c: "int_to_digits (digits_to_int (int_part ''100'') * 10 ^ 18
             + digits_to_int (take 18 (frac_part ''100''
                 @ replicate (18 - length (frac_part ''100'')) (CHR ''0''))))
           = ''100000000000000000000''"
    by code_simp
  have "jpyToWei (AmtString ''100'') (Fin (of_nat 18)) = Inr ''100000000000000000000''"
    unfolding c [symmetric]
    by (rule jpyToWei_decimal_string [OF a _ parseFloat_finite_short [OF a b]]) simp
  then show ?thesis by (simp add: jpyToWei_number Number_toString_100)
qed

lemma jpyToWei_large_scenario:
  "jpyToWei (AmtString ''1000000000000000'') (Fin 18) = Inr ''1000000000000000000000000000000000''"
proof -
  have a: "is_decimal_string ''1000000000000000''"
    by code_simp
  have b: "length (int_part ''1000000000000000'') \<le> 300"
    by code_simp
  have c: "int_to_digits (digits_to_int (int_part ''1000000000000000'') * 10 ^ 18
             + digits_to_int (take 18 (frac_part ''1000000000000000''
                 @ replicate (18 - length (frac_part ''1000000000000000'')) (CHR ''0''))))
           = ''1000000000000000000000000000000000''"
    by code_simp
  have "jpyToWei (AmtString ''1000000000000000'') (Fin (of_nat 18)) =
        Inr ''1000000000000000000000000000000000''"
    unfolding c [symmetric]
    by (rule jpyToWei_decimal_string [OF a _ parseFloat_finite_short [OF a b]]) simp
  then show ?thesis by simp
qed

text \<open>
  Claim C6. For every decimal string the converter accepts (digits with at most one
  separator, read by \<^verbatim>\<open>parseFloat\<close> as a finite number) and every precision in 0..18,
  the result is the decimal rendering of the integer \<open>\<lfloor>A * 10 ^ p\<rfloor>\<close>, computed on
  unbounded integers: digits beyond the precision are cut, not rounded. The three
  scenarios hold: the 21-digit fraction loses its last three digits, 100 units give
  \<open>10 ^ 20\<close>, and \<open>10 ^ 15\<close> units give \<open>10 ^ 33\<close>.
\<close>

theorem jpyToWei_exact_floor:
  "(\<forall>A (d::nat). is_decimal_string A \<and> d \<le> 18 \<and> Number_isFinite (parseFloat A) \<longrightarrow>
      jpyToWei (AmtString A) (Fin (of_nat d)) = Inr (int_to_digits \<lfloor>decimal_value A * 10 ^ d\<rfloor>)) \<and>
   jpyToWei (AmtString ''0.123456789012345678901'') (Fin 18) = Inr ''123456789012345678'' \<and>
   jpyToWei (AmtNumber (Fin 100)) (Fin 18) = Inr ''100000000000000000000'' \<and>
   jpyToWei (AmtString ''1000000000000000'') (Fin 18) = Inr ''1000000000000000000000000000000000''"
proof (intro conjI allI impI)
  fix A and d :: nat
  assume h: "is_decimal_string A \<and> d \<le> 18 \<and> Number_isFinite (parseFloat A)"
  then show "jpyToWei (AmtString A) (Fin (of_nat d)) = Inr (int_to_digits \<lfloor>decimal_value A * 10 ^ d\<rfloor>)"
    using jpyToWei_decimal_string [of A d] minor_units_floor [OF decimal_string_parts(2), of A d]
    by simp
next
  show "jpyToWei (AmtString ''0.123456789012345678901'') (Fin 18) = Inr ''123456789012345678''"
    by (rule jpyToWei_truncation_scenario)
next
  show "jpyToWei (AmtNumber (Fin 100)) (Fin 18) = Inr ''100000000000000000000''"
    by (rule jpyToWei_100_scenario)
next
  show "jpyToWei (AmtString ''1000000000000000'') (Fin 18) = Inr ''1000000000000000000000000000000000''"
    by (rule jpyToWei_large_scenario)
qed


theorem jpyToWei_exact_floor_witness:
  "is_decimal_string ''1.239'' \<and> (2::nat) \<le> 18 \<and> Number_isFinite (parseFloat ''1.239'') \<and>
   jpyToWei (AmtString ''1.239'') (Fin (of_nat 2)) = Inr ''123'' \<and>
   \<lfloor>decimal_value ''1.239'' * 10 ^ 2\<rfloor> = 123"
proof -
  have a: "is_decimal_string ''1.239''"
    by code_simp
  have b: "length (int_part ''1.239'') \<le> 300"
    by code_simp
  have f: "Number_isFinite (parseFloat ''1.239'')"
    by (rule parseFloat_finite_short [OF a b])
  have c: "digits_to_int (int_part ''1.239'') * 10 ^ 2
             + digits_to_int (take 2 (frac_part ''1.239''
                 @ replicate (2 - length (frac_part ''1.239'')) (CHR ''0''))) = 123"
    by code_simp
  have v: "\<lfloor>decimal_value ''1.239'' * 10 ^ 2\<rfloor> = 123"
    using minor_units_floor [OF decimal_string_parts(2) [OF a], of 2] c by simp
  have i: "int_to_digits 123 = ''123''"
    by code_simp
  have "jpyToWei (AmtString ''1.239'') (Fin (of_nat 2)) =
        Inr (int_to_digits \<lfloor>decimal_value ''1.239'' * 10 ^ 2\<rfloor>)"
    using jpyToWei_exact_floor [THEN conjunct1, rule_format, of "''1.239''" 2] a f by simp
  then show ?thesis
    using a f v i by simp
qed

subsection \<open>The round trip through minor units\<close>

lemma strip_trailing_zeros_append_zeros [simp]:
  "strip_trailing_zeros (xs @ replicate n (CHR ''0'')) = strip_trailing_zeros xs"
  by (simp add: strip_trailing_zeros_def dropWhile_append)

lemma strip_trailing_zeros_zeros [simp]: "strip_trailing_zeros (replicate n (CHR ''0'')) = []"
  using strip_trailing_zeros_append_zeros [of "[]" n] by (simp add: strip_trailing_zeros_def)

lemma strip_trailing_zeros_all_zeros:
  "\<forall>c\<in>set s. c = CHR ''0'' \<Longrightarrow> strip_trailing_zeros s = []"
  by (simp add: strip_trailing_zeros_def)

lemma takeWhile_zeros: "takeWhile (\<lambda>c. c = CHR ''0'') ds = replicate (length (takeWhile (\<lambda>c. c = CHR ''0'') ds)) (CHR ''0'')"
  by (induction ds) auto

lemma strip_pad_digits:
  assumes "list_all is_digit ds"
  shows "strip_trailing_zeros (padStart (length ds) (CHR ''0'') (int_to_digits (digits_to_int ds)))
         = strip_trailing_zeros ds"
proof -
  let ?z = "takeWhile (\<lambda>c. c = CHR ''0'') ds" and ?t = "dropWhile (\<lambda>c. c = CHR ''0'') ds"
  have ds: "ds = ?z @ ?t" by simp
  have len: "length ds = length ?z + length ?t"
    by (subst ds) (simp only: length_append)
  have i: "int_to_digits (digits_to_int ds) = strip_leading_zeros ds"
    by (rule int_to_digits_of_digits [OF assms])
  show ?thesis
  proof (cases "?t = []")
    case True
    then have z: "ds = replicate (length ds) (CHR ''0'')"
      using takeWhile_zeros [of ds] ds by (metis append_Nil2)
    have "strip_trailing_zeros (padStart (length ds) (CHR ''0'') ''0'') = []"
      by (rule strip_trailing_zeros_all_zeros) (auto simp: padStart_def)
    moreover have "strip_trailing_zeros ds = []"
      by (subst z) simp
    ultimately show ?thesis
      using True by (simp add: i strip_leading_zeros_def del: dropWhile_eq_Nil_conv)
  next
    case False
    then have "strip_leading_zeros ds = ?t"
      by (simp add: strip_leading_zeros_def del: dropWhile_eq_Nil_conv)
    moreover have "padStart (length ds) (CHR ''0'') ?t = replicate (length ?z) (CHR ''0'') @ ?t"
      using len by (simp add: padStart_def)
    moreover have "replicate (length ?z) (CHR ''0'') @ ?t = ds"
      using takeWhile_zeros [of ds] ds by metis
    ultimately show ?thesis
      by (simp only: i)
  qed
qed

lemma weiToJpy_digits:
  assumes "0 \<le> vi" "0 \<le> vp" "vp < 10 ^ d" "d \<le> 18"
  shows "weiToJpy (int_to_digits (vi * 10 ^ d + vp)) (Fin (of_nat d)) =
         Inr (if strip_trailing_zeros (padStart d (CHR ''0'') (int_to_digits vp)) \<noteq> []
              then int_to_digits vi @ ''.'' @ strip_trailing_zeros (padStart d (CHR ''0'') (int_to_digits vp))
              else int_to_digits vi)"
proof -
  have nn: "0 \<le> vi * 10 ^ d + vp" using assms(1,2) by simp
  have dv: "(vi * 10 ^ d + vp) div 10 ^ d = vi" "(vi * 10 ^ d + vp) mod 10 ^ d = vp"
    using assms(2,3) by (simp_all add: div_pos_pos_trivial)
  have q: "BigInt_div (vi * 10 ^ d + vp) (10 ^ d) = vi"
  proof (cases "vi * 10 ^ d + vp = 0")
    case True
    then have "vi = 0" using dv(1) by simp
    then show ?thesis using True by (simp add: BigInt_div_def)
  next
    case False
    then have "0 < vi * 10 ^ d + vp" using nn by simp
    then show ?thesis using dv(1) by (simp add: BigInt_div_def)
  qed
  have r: "BigInt_mod (vi * 10 ^ d + vp) (10 ^ d) = vp"
  proof (cases "vi * 10 ^ d + vp = 0")
    case True
    then have "vp = 0" using dv(2) by simp
    then show ?thesis using True by (simp add: BigInt_mod_def)
  next
    case False
    then have "0 < vi * 10 ^ d + vp" using nn by simp
    then show ?thesis using dv(2) by (simp add: BigInt_mod_def)
  qed
  show ?thesis
    using valid_decimals_nat(1) [OF assms(4)] valid_decimals_nat(2) [of d] assms(1,2)
    by (simp add: weiToJpy_def BigInt_nonneg_roundtrip [OF nn] Let_def q r BigInt_toString_def)
qed

lemma roundtrip_decimal_string:
  assumes A: "is_decimal_string A" and d: "d \<le> 18" and f: "length (frac_part A) \<le> d"
    and fin: "Number_isFinite (parseFloat A)"
  shows "\<exists>w. jpyToWei (AmtString A) (Fin (of_nat d)) = Inr w \<and>
             weiToJpy w (Fin (of_nat d)) = Inr (canonical A)"
proof -
  note p = decimal_string_parts [OF A]
  define padded where "padded = frac_part A @ replicate (d - length (frac_part A)) (CHR ''0'')"
  have tk: "take d (frac_part A @ replicate (d - length (frac_part A)) (CHR ''0'')) = padded"
    using f by (simp add: padded_def)
  have pd: "list_all is_digit padded" "length padded = d"
    using p(2) f by (auto simp: padded_def list_all_iff is_digit_def)
  have b: "0 \<le> digits_to_int (int_part A)" "0 \<le> digits_to_int padded"
      "digits_to_int padded < 10 ^ d"
    using digits_to_int_bounds [OF p(1)] digits_to_int_bounds [OF pd(1)] pd(2) by simp_all
  have w: "jpyToWei (AmtString A) (Fin (of_nat d)) =
           Inr (int_to_digits (digits_to_int (int_part A) * 10 ^ d + digits_to_int padded))"
    using jpyToWei_decimal_string [OF A d fin] by (simp only: tk)
  have s: "strip_trailing_zeros (padStart d (CHR ''0'') (int_to_digits (digits_to_int padded)))
           = strip_trailing_zeros (frac_part A)"
    using strip_pad_digits [OF pd(1)] pd(2) by (simp add: padded_def)
  have "weiToJpy (int_to_digits (digits_to_int (int_part A) * 10 ^ d + digits_to_int padded))
          (Fin (of_nat d)) = Inr (canonical A)"
    unfolding weiToJpy_digits [OF b d] s
    by (simp add: canonical_def int_to_digits_of_digits [OF p(1)])
  then show ?thesis using w by blast
qed


lemma jpyToWei_not_finite:
  assumes A: "is_decimal_string A" and d: "d \<le> 18" and inf: "\<not> Number_isFinite (parseFloat A)"
  shows "jpyToWei (AmtString A) (Fin (of_nat d)) =
         Inl (JPYCPaymentError MsgAmountNotFinite INVALID_AMOUNT (AmountDetails A))"
proof -
  have all: "\<forall>c\<in>set A. is_digit c \<or> c = CHR ''.''"
    using A by (auto simp: is_decimal_string_def list_all_iff)
  have nneg: "\<not> startsWith ''-'' A"
  proof
    assume "startsWith ''-'' A"
    then have "CHR ''-'' \<in> set A" using startsWith_set [of "''-''" A] by simp
    then have "is_digit (CHR ''-'') \<or> CHR ''-'' = CHR ''.''" using all by blast
    then show False by (simp add: is_digit_def)
  qed
  have nnan: "\<not> Number_isNaN (parseFloat A)"
    by (simp add: parseFloat_decimal_string [OF A] Number_isNaN_def)
  show ?thesis
    using valid_decimals_nat(1) [OF d] nneg nnan inf
    by (simp add: jpyToWei_def amount_toString_def Let_def)
qed

lemma huge_amount_facts:
  "is_decimal_string (CHR ''1'' # replicate 309 (CHR ''0''))"
  "frac_part (CHR ''1'' # replicate 309 (CHR ''0'')) = []"
  "decimal_value (CHR ''1'' # replicate 309 (CHR ''0'')) = 10 ^ 309"
proof -
  let ?A = "CHR ''1'' # replicate 309 (CHR ''0'')"
  have nodot: "\<forall>c\<in>set ?A. c \<noteq> CHR ''.''" by simp
  have dig: "\<forall>c\<in>set ?A. is_digit c" by (simp add: is_digit_def)
  have "filter (\<lambda>x. x = CHR ''.'') ?A = []"
    using nodot by (auto simp only: filter_empty_conv)
  then show "is_decimal_string ?A"
    using dig by (simp add: is_decimal_string_def list_all_iff list_ex_iff count_char_def is_digit_def)
  have ip: "int_part ?A = ?A"
    unfolding int_part_def using nodot by (auto simp only: takeWhile_eq_all_conv)
  have "dropWhile (\<lambda>c. c \<noteq> CHR ''.'') ?A = []"
    using nodot by (auto simp only: dropWhile_eq_Nil_conv)
  then show fp: "frac_part ?A = []"
    unfolding frac_part_def by (simp only: drop_Nil)
  have "digits_to_int ?A = 10 ^ 309"
    by (simp add: digits_to_int_Cons digit_value_def)
  then show "decimal_value ?A = 10 ^ 309"
    by (simp add: decimal_value_def ip fp)
qed

lemma overflow_le_ten_pow_309: "double_overflow \<le> 10 ^ 309"
  by (simp add: double_overflow_def)

text \<open>
  Claim C1, as the code has it. For every precision in 0..18 and every non-negative decimal
  string with at most that many fractional digits that \<^verbatim>\<open>parseFloat\<close> reads as a finite
  number, converting to minor units and back returns the canonical form of the string. A
  decimal string is read as a finite number exactly when its value is below
  \<open>2 ^ 1024 - 2 ^ 970\<close>. For a decimal string of a larger value the converter throws
  INVALID_AMOUNT, at every precision in 0..18.
\<close>

theorem roundtrip_canonical:
  "(\<forall>A (d::nat). is_decimal_string A \<and> d \<le> 18 \<and> length (frac_part A) \<le> d
        \<and> Number_isFinite (parseFloat A) \<longrightarrow>
      (\<exists>w. jpyToWei (AmtString A) (Fin (of_nat d)) = Inr w \<and>
           weiToJpy w (Fin (of_nat d)) = Inr (canonical A))) \<and>
   (\<forall>A. is_decimal_string A \<longrightarrow>
      (Number_isFinite (parseFloat A) \<longleftrightarrow> decimal_value A < 2 ^ 1024 - 2 ^ 970)) \<and>
   (\<forall>A (d::nat). is_decimal_string A \<and> d \<le> 18 \<and> 2 ^ 1024 - 2 ^ 970 \<le> decimal_value A \<longrightarrow>
      jpyToWei (AmtString A) (Fin (of_nat d)) =
        Inl (JPYCPaymentError MsgAmountNotFinite INVALID_AMOUNT (AmountDetails A)))"
proof (intro conjI allI impI)
  fix A and d :: nat
  assume "is_decimal_string A \<and> d \<le> 18 \<and> length (frac_part A) \<le> d
            \<and> Number_isFinite (parseFloat A)"
  then show "\<exists>w. jpyToWei (AmtString A) (Fin (of_nat d)) = Inr w \<and>
                 weiToJpy w (Fin (of_nat d)) = Inr (canonical A)"
    using roundtrip_decimal_string [of A d] by blast
next
  fix A
  assume "is_decimal_string A"
  then show "Number_isFinite (parseFloat A) \<longleftrightarrow> decimal_value A < 2 ^ 1024 - 2 ^ 970"
    using parseFloat_finite_iff [of A] by (simp only: double_overflow_def)
next
  fix A and d :: nat
  assume a: "is_decimal_string A \<and> d \<le> 18 \<and> 2 ^ 1024 - 2 ^ 970 \<le> decimal_value A"
  then have "\<not> decimal_value A < double_overflow"
    by (simp only: double_overflow_def not_less)
  then have "\<not> Number_isFinite (parseFloat A)"
    using a parseFloat_finite_iff [of A] by blast
  then show "jpyToWei (AmtString A) (Fin (of_nat d)) =
        Inl (JPYCPaymentError MsgAmountNotFinite INVALID_AMOUNT (AmountDetails A))"
    using a jpyToWei_not_finite [of A d] by blast
qed

theorem roundtrip_canonical_witness:
  "is_decimal_string ''007.50'' \<and> (2::nat) \<le> 18 \<and> length (frac_part ''007.50'') \<le> 2 \<and>
   Number_isFinite (parseFloat ''007.50'') \<and>
   (\<exists>w. jpyToWei (AmtString ''007.50'') (Fin (of_nat 2)) = Inr w \<and>
        weiToJpy w (Fin (of_nat 2)) = Inr ''7.5'') \<and>
   is_decimal_string (CHR ''1'' # replicate 309 (CHR ''0'')) \<and>
   2 ^ 1024 - 2 ^ 970 \<le> decimal_value (CHR ''1'' # replicate 309 (CHR ''0'')) \<and>
   jpyToWei (AmtString (CHR ''1'' # replicate 309 (CHR ''0''))) (Fin (of_nat 18)) =
     Inl (JPYCPaymentError MsgAmountNotFinite INVALID_AMOUNT
            (AmountDetails (CHR ''1'' # replicate 309 (CHR ''0''))))"
proof -
  have a: "is_decimal_string ''007.50''"
    by code_simp
  have b: "length (int_part ''007.50'') \<le> 300" "length (frac_part ''007.50'') \<le> 2"
    by code_simp+
  have c: "canonical ''007.50'' = ''7.5''"
    by code_simp
  have f: "Number_isFinite (parseFloat ''007.50'')"
    by (rule parseFloat_finite_short [OF a b(1)])
  have "\<exists>w. jpyToWei (AmtString ''007.50'') (Fin (of_nat 2)) = Inr w \<and>
             weiToJpy w (Fin (of_nat 2)) = Inr (canonical ''007.50'')"
    using roundtrip_canonical [THEN conjunct1, rule_format, of "''007.50''" 2] a b(2) f
    by simp
  then have first: "is_decimal_string ''007.50'' \<and> (2::nat) \<le> 18 \<and>
      length (frac_part ''007.50'') \<le> 2 \<and> Number_isFinite (parseFloat ''007.50'') \<and>
      (\<exists>w. jpyToWei (AmtString ''007.50'') (Fin (of_nat 2)) = Inr w \<and>
           weiToJpy w (Fin (of_nat 2)) = Inr ''7.5'')"
    using a b(2) f by (simp only: c) simp
  let ?A = "CHR ''1'' # replicate 309 (CHR ''0'')"
  have big: "(2::rat) ^ 1024 - 2 ^ 970 \<le> decimal_value ?A"
    using overflow_le_ten_pow_309
    by (simp only: huge_amount_facts(3) double_overflow_def)
  have "is_decimal_string ?A \<and> (18::nat) \<le> 18 \<and> 2 ^ 1024 - 2 ^ 970 \<le> decimal_value ?A"
    using huge_amount_facts(1) big by simp
  from roundtrip_canonical [THEN conjunct2, THEN conjunct2, rule_format, OF this]
  have "jpyToWei (AmtString ?A) (Fin (of_nat 18)) =
        Inl (JPYCPaymentError MsgAmountNotFinite INVALID_AMOUNT (AmountDetails ?A))" .
  then show ?thesis
    using first huge_amount_facts(1) big by blast
qed

text \<open>
  The claim as stated fails: the decimal string of 1 followed by 309 zeros has no
  fractional digit, and the converter rejects it at precision 0, because
  \<^verbatim>\<open>parseFloat\<close> reads it as Infinity.
\<close>

theorem roundtrip_overflow_counterexample:
  "is_decimal_string (CHR ''1'' # replicate 309 (CHR ''0'')) \<and>
   length (frac_part (CHR ''1'' # replicate 309 (CHR ''0''))) \<le> 0 \<and>
   jpyToWei (AmtString (CHR ''1'' # replicate 309 (CHR ''0''))) (Fin 0) =
     Inl (JPYCPaymentError MsgAmountNotFinite INVALID_AMOUNT
            (AmountDetails (CHR ''1'' # replicate 309 (CHR ''0''))))"
proof -
  let ?A = "CHR ''1'' # replicate 309 (CHR ''0'')"
  have "parseFloat ?A = PosInf"
    using round_double_overflow [of "decimal_value ?A"] overflow_le_ten_pow_309
    by (simp add: parseFloat_decimal_string [OF huge_amount_facts(1)] huge_amount_facts(3))
  then have "\<not> Number_isFinite (parseFloat ?A)"
    by (simp add: Number_isFinite_def)
  then have "jpyToWei (AmtString ?A) (Fin (of_nat 0)) =
             Inl (JPYCPaymentError MsgAmountNotFinite INVALID_AMOUNT (AmountDetails ?A))"
    by (intro jpyToWei_not_finite huge_amount_facts(1)) simp
  then show ?thesis
    using huge_amount_facts(1,2) by simp
qed

subsection \<open>The validator and the request builder\<close>

lemma check_merchantAddress_append:
  "check_merchantAddress options errs = errs @ check_merchantAddress options []"
  by (simp add: check_merchantAddress_def split: option.splits)

lemma check_amount_append:
  "check_amount options (errs, warns) =
     (errs @ fst (check_amount options ([], [])), warns @ snd (check_amount options ([], [])))"
  by (simp add: check_amount_def Let_def)

lemma check_network_append:
  "check_network options errs = errs @ check_network options []"
  by (simp add: check_network_def split: option.splits)

lemma check_jpycContractAddress_append:
  "check_jpycContractAddress options (errs, warns) =
     (errs @ fst (check_jpycContractAddress options ([], [])),
      warns @ snd (check_jpycContractAddress options ([], [])))"
  by (simp add: check_jpycContractAddress_def split: option.splits)

lemma check_decimals_append:
  "check_decimals options (errs, warns) =
     (errs @ fst (check_decimals options ([], [])), warns @ snd (check_decimals options ([], [])))"
  by (simp add: check_decimals_def Let_def split: option.splits)

lemma validateGenerateOptions_eq:
  "validateGenerateOptions options =
     Inr \<lparr>valid =
            (check_merchantAddress options [] @ fst (check_amount options ([], []))
             @ check_network options [] @ fst (check_jpycContractAddress options ([], []))
             @ fst (check_decimals options ([], [])) = []),
          errors =
            check_merchantAddress options [] @ fst (check_amount options ([], []))
            @ check_network options [] @ fst (check_jpycContractAddress options ([], []))
            @ fst (check_decimals options ([], [])),
          vr_warnings =
            snd (check_amount options ([], [])) @ snd (check_jpycContractAddress options ([], []))
            @ snd (check_decimals options ([], []))\<rparr>"
proof -
  obtain e2 w2 where a: "check_amount options (check_merchantAddress options [], []) = (e2, w2)"
    by fastforce
  obtain e4 w4 where c: "check_jpycContractAddress options (check_network options e2, w2) = (e4, w4)"
    by fastforce
  obtain e5 w5 where d: "check_decimals options (e4, w4) = (e5, w5)"
    by fastforce
  have a': "e2 = check_merchantAddress options [] @ fst (check_amount options ([], []))"
      "w2 = snd (check_amount options ([], []))"
    using a check_amount_append [of options "check_merchantAddress options []" "[]"] by simp_all
  have c': "e4 = check_network options e2 @ fst (check_jpycContractAddress options ([], []))"
      "w4 = w2 @ snd (check_jpycContractAddress options ([], []))"
    using c check_jpycContractAddress_append [of options "check_network options e2" w2] by simp_all
  have d': "e5 = e4 @ fst (check_decimals options ([], []))"
      "w5 = w4 @ snd (check_decimals options ([], []))"
    using d check_decimals_append [of options e4 w4] by simp_all
  have "validateGenerateOptions options = Inr \<lparr>valid = (e5 = []), errors = e5, vr_warnings = w5\<rparr>"
    by (simp add: validateGenerateOptions_def Let_def a c d)
  then show ?thesis
    by (simp add: a' c' d'
        check_network_append [of options "check_merchantAddress options [] @ fst (check_amount options ([], []))"])
qed

lemma generatePaymentURI_invalid:
  assumes "validateGenerateOptions options = Inr r" "\<not> valid r"
  shows "generatePaymentURI options =
         Inl (JPYCPaymentError (MsgValidationFailed (errors r)) VALIDATION_FAILED
                (ErrorsDetails (errors r)))"
  using assms by (simp add: generatePaymentURI_def)

lemma example_two_defects:
  "validateGenerateOptions
     \<lparr>merchantAddress = Some ''invalid'', opt_amount = Some (AmtNumber (Fin (- 100))),
      opt_network = None, opt_jpycContractAddress = None, opt_decimals = None\<rparr> =
   Inr \<lparr>valid = False,
        errors = [InvalidMerchantFormat ''invalid'', AmountNotPositive (Fin (- 100))],
        vr_warnings = []\<rparr>"
  by code_simp

lemma example_valid_with_warning:
  "validateGenerateOptions
     \<lparr>merchantAddress = Some ''0x1234567890123456789012345678901234567890'',
      opt_amount = Some (AmtNumber (Fin (1 / 2))),
      opt_network = None, opt_jpycContractAddress = None, opt_decimals = None\<rparr> =
   Inr \<lparr>valid = True, errors = [],
        vr_warnings = [\<lparr>code = ''SMALL_AMOUNT'', message = SmallAmountWarning (Fin (1 / 2))\<rparr>]\<rparr>"
  by code_simp

text \<open>
  Claim C9. The validator always returns a result. Its error list is the concatenation of
  what each of the five checks finds on its own, in the order of the source, whatever the
  earlier checks found; the verdict is \<open>valid\<close> exactly when that list is empty; and a
  failing verdict makes \<^verbatim>\<open>generatePaymentURI\<close> throw one VALIDATION_FAILED error that
  carries the whole list. An invalid address together with an invalid amount gives both
  messages, and a valid amount below one unit passes with an advisory.
\<close>

theorem validateGenerateOptions_collects_every_error:
  "(\<forall>options. \<exists>r. validateGenerateOptions options = Inr r \<and>
      (valid r \<longleftrightarrow> errors r = []) \<and>
      errors r = check_merchantAddress options [] @ fst (check_amount options ([], []))
                 @ check_network options [] @ fst (check_jpycContractAddress options ([], []))
                 @ fst (check_decimals options ([], [])) \<and>
      (\<not> valid r \<longrightarrow>
         generatePaymentURI options =
           Inl (JPYCPaymentError (MsgValidationFailed (errors r)) VALIDATION_FAILED
                  (ErrorsDetails (errors r))))) \<and>
   validateGenerateOptions
     \<lparr>merchantAddress = Some ''invalid'', opt_amount = Some (AmtNumber (Fin (- 100))),
      opt_network = None, opt_jpycContractAddress = None, opt_decimals = None\<rparr> =
   Inr \<lparr>valid = False,
        errors = [InvalidMerchantFormat ''invalid'', AmountNotPositive (Fin (- 100))],
        vr_warnings = []\<rparr> \<and>
   validateGenerateOptions
     \<lparr>merchantAddress = Some ''0x1234567890123456789012345678901234567890'',
      opt_amount = Some (AmtNumber (Fin (1 / 2))),
      opt_network = None, opt_jpycContractAddress = None, opt_decimals = None\<rparr> =
   Inr \<lparr>valid = True, errors = [],
        vr_warnings = [\<lparr>code = ''SMALL_AMOUNT'', message = SmallAmountWarning (Fin (1 / 2))\<rparr>]\<rparr>"
proof (intro conjI allI)
  fix options
  obtain r where r: "validateGenerateOptions options = Inr r"
    using validateGenerateOptions_eq by blast
  then have "(valid r \<longleftrightarrow> errors r = []) \<and>
      errors r = check_merchantAddress options [] @ fst (check_amount options ([], []))
                 @ check_network options [] @ fst (check_jpycContractAddress options ([], []))
                 @ fst (check_decimals options ([], []))"
    unfolding validateGenerateOptions_eq by auto
  then show "\<exists>r. validateGenerateOptions options = Inr r \<and>
      (valid r \<longleftrightarrow> errors r = []) \<and>
      errors r = check_merchantAddress options [] @ fst (check_amount options ([], []))
                 @ check_network options [] @ fst (check_jpycContractAddress options ([], []))
                 @ fst (check_decimals options ([], [])) \<and>
      (\<not> valid r \<longrightarrow>
         generatePaymentURI options =
           Inl (JPYCPaymentError (MsgValidationFailed (errors r)) VALIDATION_FAILED
                  (ErrorsDetails (errors r))))"
    using r generatePaymentURI_invalid [OF r] by blast
qed (rule example_two_defects example_valid_with_warning)+

theorem validateGenerateOptions_collects_every_error_witness:
  "generatePaymentURI
     \<lparr>merchantAddress = Some ''invalid'', opt_amount = Some (AmtNumber (Fin (- 100))),
      opt_network = None, opt_jpycContractAddress = None, opt_decimals = None\<rparr> =
   Inl (JPYCPaymentError
          (MsgValidationFailed [InvalidMerchantFormat ''invalid'', AmountNotPositive (Fin (- 100))])
          VALIDATION_FAILED
          (ErrorsDetails [InvalidMerchantFormat ''invalid'', AmountNotPositive (Fin (- 100))]))"
proof -
  let ?o = "\<lparr>merchantAddress = Some ''invalid'', opt_amount = Some (AmtNumber (Fin (- 100))),
      opt_network = None, opt_jpycContractAddress = None, opt_decimals = None\<rparr>"
  from validateGenerateOptions_collects_every_error [THEN conjunct1, rule_format, of ?o]
  obtain r where r: "validateGenerateOptions ?o = Inr r"
    and f: "\<not> valid r \<longrightarrow> generatePaymentURI ?o =
           Inl (JPYCPaymentError (MsgValidationFailed (errors r)) VALIDATION_FAILED
                  (ErrorsDetails (errors r)))"
    by blast
  have "r = \<lparr>valid = False,
        errors = [InvalidMerchantFormat ''invalid'', AmountNotPositive (Fin (- 100))],
        vr_warnings = []\<rparr>"
    using r validateGenerateOptions_collects_every_error [THEN conjunct2, THEN conjunct1] by simp
  then show ?thesis using f by simp
qed

lemma check_merchantAddress_ok:
  "check_merchantAddress options [] = [] \<Longrightarrow>
   \<exists>m. merchantAddress options = Some m \<and> isValidAddressFormat m"
  by (auto simp: check_merchantAddress_def split: option.splits if_splits)

lemma check_amount_ok:
  "fst (check_amount options ([], [])) = [] \<Longrightarrow> \<exists>a. opt_amount options = Some a"
  by (cases "opt_amount options") (auto simp: check_amount_def)

lemma check_jpycContractAddress_ok:
  "fst (check_jpycContractAddress options ([], [])) = [] \<Longrightarrow>
   opt_jpycContractAddress options = Some c \<Longrightarrow> isValidAddressFormat c"
  by (auto simp: check_jpycContractAddress_def split: if_splits)

lemma CHAIN_CONFIGS_jpycAddress:
  "CHAIN_CONFIGS n = Some (OwnConfig cfg) \<Longrightarrow>
   jpycAddress cfg = ''0xe7c3d8c9a439fede00d2600032d5db0be71c3c29''"
  by (auto simp: CHAIN_CONFIGS_def split: if_splits)

lemma CHAIN_CONFIGS_default:
  "CHAIN_CONFIGS DEFAULT_NETWORK =
     Some (OwnConfig \<lparr>cfg_chainId = Fin 137, name = ''Polygon'',
           jpycAddress = ''0xe7c3d8c9a439fede00d2600032d5db0be71c3c29'',
           explorerUrl = ''https://polygonscan.com''\<rparr>)"
  by (simp add: CHAIN_CONFIGS_def DEFAULT_NETWORK_def)

lemma CHAIN_CONFIGS_toString: "CHAIN_CONFIGS ''toString'' = Some InheritedProperty"
  by code_simp

lemma encodeEIP681_succeeds:
  assumes "isValidAddressFormat c" "isValidAddressFormat r"
  shows "\<exists>u. encodeEIP681 c r a chainId = Inr u"
  using assms toChecksumAddress_valid encodeEIP681_valid by blast

text \<open>
  What the request builder does after a passing validation when the network is one of the
  registry's own: it throws what the converter throws, or it returns the record of the
  identifier, the network's chain id, the network, the contract address, the minor-unit
  amount, the amount as a string, the precision and the validator's advisories.
\<close>

lemma generatePaymentURI_valid:
  assumes r: "validateGenerateOptions options = Inr v" and ok: "valid v"
    and own: "CHAIN_CONFIGS (case opt_network options of None \<Rightarrow> ''polygon'' | Some n \<Rightarrow> n)
              = Some (OwnConfig chainConfig)"
  shows "\<exists>merchant amount.
           merchantAddress options = Some merchant \<and> opt_amount options = Some amount \<and>
           (case jpyToWei amount (case opt_decimals options of None \<Rightarrow> Fin 18 | Some d \<Rightarrow> d) of
              Inl e \<Rightarrow> generatePaymentURI options = Inl e
            | Inr wei \<Rightarrow>
                (\<exists>u. encodeEIP681
                        (case opt_jpycContractAddress options of
                           None \<Rightarrow> jpycAddress chainConfig | Some c \<Rightarrow> c)
                        merchant wei (cfg_chainId chainConfig) = Inr u \<and>
                     generatePaymentURI options =
                       Inr \<lparr>uri = u,
                            res_chainId = Some (cfg_chainId chainConfig),
                            res_network = (case opt_network options of None \<Rightarrow> ''polygon'' | Some n \<Rightarrow> n),
                            res_jpycContractAddress =
                              Some (case opt_jpycContractAddress options of
                                      None \<Rightarrow> jpycAddress chainConfig | Some c \<Rightarrow> c),
                            amountWei = wei,
                            amountJPY = amount_toString amount,
                            res_decimals = (case opt_decimals options of None \<Rightarrow> Fin 18 | Some d \<Rightarrow> d),
                            res_warnings = vr_warnings v\<rparr>))"
proof -
  define network where "network = (case opt_network options of None \<Rightarrow> ''polygon'' | Some n \<Rightarrow> n)"
  define decimals where "decimals = (case opt_decimals options of None \<Rightarrow> Fin 18 | Some d \<Rightarrow> d)"
  have e: "check_merchantAddress options [] = []" "fst (check_amount options ([], [])) = []"
      "fst (check_jpycContractAddress options ([], [])) = []"
    using r ok unfolding validateGenerateOptions_eq by auto
  obtain merchant where m: "merchantAddress options = Some merchant" "isValidAddressFormat merchant"
    using check_merchantAddress_ok [OF e(1)] by blast
  obtain amount where a: "opt_amount options = Some amount"
    using check_amount_ok [OF e(2)] by blast
  define contract where
    "contract = (case opt_jpycContractAddress options of None \<Rightarrow> jpycAddress chainConfig | Some c \<Rightarrow> c)"
  have cv: "isValidAddressFormat contract"
    using check_jpycContractAddress_ok [OF e(3)] CHAIN_CONFIGS_jpycAddress [OF own] jpyc_address_valid
    by (cases "opt_jpycContractAddress options") (simp_all add: contract_def)
  have g: "generatePaymentURI options =
        (case jpyToWei amount decimals of
           Inl e \<Rightarrow> Inl e
         | Inr wei \<Rightarrow>
             (case encodeEIP681 contract merchant wei (cfg_chainId chainConfig) of
                Inl e \<Rightarrow> Inl e
              | Inr u \<Rightarrow>
                  Inr \<lparr>uri = u, res_chainId = Some (cfg_chainId chainConfig), res_network = network,
                       res_jpycContractAddress = Some contract, amountWei = wei,
                       amountJPY = amount_toString amount, res_decimals = decimals,
                       res_warnings = vr_warnings v\<rparr>))"
    using r ok m(1) a own
    unfolding network_def decimals_def contract_def
    by (cases "opt_network options"; cases "opt_decimals options";
        cases "opt_jpycContractAddress options")
       (simp_all add: generatePaymentURI_def Let_def DEFAULT_NETWORK_def JPYC_DECIMALS_def
          encodeEIP681_untyped_def entry_chainId_def entry_jpycAddress_def split: sum.split)
  have "case jpyToWei amount decimals of
          Inl e \<Rightarrow> generatePaymentURI options = Inl e
        | Inr wei \<Rightarrow>
            (\<exists>u. encodeEIP681 contract merchant wei (cfg_chainId chainConfig) = Inr u \<and>
                 generatePaymentURI options =
                   Inr \<lparr>uri = u, res_chainId = Some (cfg_chainId chainConfig), res_network = network,
                        res_jpycContractAddress = Some contract, amountWei = wei,
                        amountJPY = amount_toString amount, res_decimals = decimals,
                        res_warnings = vr_warnings v\<rparr>)"
  proof (cases "jpyToWei amount decimals")
    case (Inl err)
    then show ?thesis using g by simp
  next
    case (Inr wei)
    obtain u where "encodeEIP681 contract merchant wei (cfg_chainId chainConfig) = Inr u"
      using encodeEIP681_succeeds [OF cv m(2)] by blast
    then show ?thesis using g Inr by simp
  qed
  then show ?thesis
    using m(1) a unfolding network_def decimals_def contract_def by blast
qed

lemma round_double_2: "round_double 2 = Fin 2"
  using round_double_int [of 2] by simp

lemma parseFloat_two_dots: "parseFloat ''2..'' = Fin 2"
proof -
  have c: "is_digit (CHR ''2'')" "skip_ws ''2..'' = ''2..''"
    by (simp_all add: is_digit_def skip_ws_plain)
  show ?thesis
    by (simp add: parseFloat_def parse_unsigned_decimal_def parse_exponent_def startsWith_def
        c Let_def digits_to_int_def digit_value_def round_double_2)
qed

lemma digits_address_valid: "isValidAddressFormat ''0x1234567890123456789012345678901234567890''"
  by code_simp

lemma validate_two_dots:
  "validateGenerateOptions
     \<lparr>merchantAddress = Some ''0x1234567890123456789012345678901234567890'',
      opt_amount = Some (AmtString ''2..''),
      opt_network = None, opt_jpycContractAddress = None, opt_decimals = None\<rparr> =
   Inr \<lparr>valid = True, errors = [], vr_warnings = []\<rparr>"
  by (simp add: validateGenerateOptions_def check_merchantAddress_def check_amount_def
      check_network_def check_jpycContractAddress_def check_decimals_def Let_def
      digits_address_valid amount_to_number_def parseFloat_two_dots Number_isNaN_def
      Number_isFinite_def js_le_def js_lt_def js_gt_def MAX_SAFE_AMOUNT_def)

lemma jpyToWei_two_dots:
  "jpyToWei (AmtString ''2..'') (Fin 18) =
   Inl (JPYCPaymentError (MsgMultipleDecimalPoints ''2..'') INVALID_AMOUNT (AmountDetails ''2..''))"
proof -
  have "\<not> invalid_decimals (Fin 18)"
    using valid_decimals_nat(1) [of 18] by simp
  then show ?thesis
    by (simp add: jpyToWei_def amount_toString_def startsWith_def parseFloat_two_dots
        Number_isNaN_def Number_isFinite_def count_char_def Let_def)
qed

lemma generate_two_dots:
  "generatePaymentURI
     \<lparr>merchantAddress = Some ''0x1234567890123456789012345678901234567890'',
      opt_amount = Some (AmtString ''2..''),
      opt_network = None, opt_jpycContractAddress = None, opt_decimals = None\<rparr> =
   Inl (JPYCPaymentError (MsgMultipleDecimalPoints ''2..'') INVALID_AMOUNT (AmountDetails ''2..''))"
  by (simp add: generatePaymentURI_def validate_two_dots Let_def CHAIN_CONFIGS_default
      JPYC_DECIMALS_def jpyToWei_two_dots)

text \<open>The number \<^verbatim>\<open>1e-7\<close> is the double \<open>944473296573929 / 2 ^ 73\<close>, and \<open>2 ^ 73 = 9444732965739290427392\<close>.\<close>

lemma toString_1em7:
  "Number_toString (Fin (944473296573929 / 9444732965739290427392)) = ''1e-7''"
  by code_simp

lemma parseFloat_1em7: "parseFloat ''1e-7'' = Fin (944473296573929 / 9444732965739290427392)"
  by code_simp


lemma validate_1em7:
  "validateGenerateOptions
     \<lparr>merchantAddress = Some ''0x1234567890123456789012345678901234567890'',
      opt_amount = Some (AmtNumber (Fin (944473296573929 / 9444732965739290427392))),
      opt_network = None, opt_jpycContractAddress = None, opt_decimals = None\<rparr> =
   Inr \<lparr>valid = True, errors = [],
        vr_warnings = [\<lparr>code = ''SMALL_AMOUNT'', message = SmallAmountWarning (Fin (944473296573929 / 9444732965739290427392))\<rparr>]\<rparr>"
  by code_simp

lemma jpyToWei_1em7: "jpyToWei (AmtNumber (Fin (944473296573929 / 9444732965739290427392))) (Fin 18) = Inl (Native SyntaxError)"
proof -
  have d: "\<not> invalid_decimals (Fin 18)" "to_length (Fin 18) = 18"
    using valid_decimals_nat(1) [of 18] valid_decimals_nat(2) [of 18] by simp_all
  have b: "BigInt ''1e-7000000000000000000'' = Inl (Native SyntaxError)"
    by code_simp
  have s: "split_on (CHR ''.'') ''1e-7'' = [''1e-7'']"
    by code_simp
  have p: "take 18 (padEnd 18 (CHR ''0'') []) = ''000000000000000000''"
    by code_simp
  have "jpyToWei (AmtString ''1e-7'') (Fin 18) = Inl (Native SyntaxError)"
    by (simp add: jpyToWei_def amount_toString_def parseFloat_1em7 d startsWith_def
        Number_isNaN_def Number_isFinite_def count_char_def Let_def s p b)
  then show ?thesis
    unfolding jpyToWei_number toString_1em7 .
qed

lemma generate_1em7:
  "generatePaymentURI
     \<lparr>merchantAddress = Some ''0x1234567890123456789012345678901234567890'',
      opt_amount = Some (AmtNumber (Fin (944473296573929 / 9444732965739290427392))),
      opt_network = None, opt_jpycContractAddress = None, opt_decimals = None\<rparr> =
   Inl (Native SyntaxError)"
  unfolding generatePaymentURI_def validate_1em7
  by (simp add: Let_def CHAIN_CONFIGS_default JPYC_DECIMALS_def jpyToWei_1em7)

lemma validate_toString:
  "validateGenerateOptions
     \<lparr>merchantAddress = Some ''0x1234567890123456789012345678901234567890'',
      opt_amount = Some (AmtNumber (Fin 100)),
      opt_network = Some ''toString'', opt_jpycContractAddress = None, opt_decimals = None\<rparr> =
   Inr \<lparr>valid = True, errors = [], vr_warnings = []\<rparr>"
  by code_simp

lemma generate_toString:
  "generatePaymentURI
     \<lparr>merchantAddress = Some ''0x1234567890123456789012345678901234567890'',
      opt_amount = Some (AmtNumber (Fin 100)),
      opt_network = Some ''toString'', opt_jpycContractAddress = None, opt_decimals = None\<rparr> =
   Inl (JPYCPaymentError MsgEncodeFailed ENCODING_FAILED (CauseDetails TypeError))"
  unfolding generatePaymentURI_def validate_toString
  by (simp add: Let_def CHAIN_CONFIGS_toString JPYC_DECIMALS_def jpyToWei_100_scenario
      encodeEIP681_untyped_def entry_jpycAddress_def entry_chainId_def)

lemma validate_toString_contract:
  "validateGenerateOptions
     \<lparr>merchantAddress = Some ''0x1234567890123456789012345678901234567890'',
      opt_amount = Some (AmtNumber (Fin 100)),
      opt_network = Some ''toString'', opt_jpycContractAddress = Some ''0xe7c3d8c9a439fede00d2600032d5db0be71c3c29'', opt_decimals = None\<rparr> =
   Inr \<lparr>valid = True, errors = [],
        vr_warnings = [\<lparr>code = ''CUSTOM_CONTRACT'', message = CustomContractWarning\<rparr>]\<rparr>"
  by code_simp

lemma generate_toString_contract:
  "generatePaymentURI
     \<lparr>merchantAddress = Some ''0x1234567890123456789012345678901234567890'',
      opt_amount = Some (AmtNumber (Fin 100)),
      opt_network = Some ''toString'', opt_jpycContractAddress = Some ''0xe7c3d8c9a439fede00d2600032d5db0be71c3c29'', opt_decimals = None\<rparr> =
   Inr \<lparr>uri = ''ethereum:0xE7C3D8C9a439feDe00D2600032D5dB0Be71C3c29@undefined/transfer?address=0x1234567890123456789012345678901234567890&uint256=100000000000000000000'',
        res_chainId = None, res_network = ''toString'',
        res_jpycContractAddress = Some ''0xe7c3d8c9a439fede00d2600032d5db0be71c3c29'',
        amountWei = ''100000000000000000000'', amountJPY = ''100'',
        res_decimals = Fin 18,
        res_warnings = [\<lparr>code = ''CUSTOM_CONTRACT'', message = CustomContractWarning\<rparr>]\<rparr>"
  unfolding generatePaymentURI_def validate_toString_contract
  by (simp add: Let_def CHAIN_CONFIGS_toString JPYC_DECIMALS_def jpyToWei_100_scenario
      encodeEIP681_untyped_def entry_jpycAddress_def entry_chainId_def
      toChecksumAddress_jpyc toChecksumAddress_digits_only EIP681_SCHEME_def
      TRANSFER_FUNCTION_def amount_toString_def Number_toString_100)

text \<open>
  Claim C10 does not hold of the program. Whenever the validator passes, the request
  builder should return the self-consistent record; but the validator passes options on
  which the builder throws or returns a record without a chain id. With the amount
  \<^verbatim>\<open>"2.."\<close>, which the validator reads with \<^verbatim>\<open>parseFloat\<close> as 2, the builder throws
  INInr \<lparr>valid = True, errors = [], vr_warnings = []\<rparr>_AMOUNT. With the amount \<^verbatim>\<open>1e-7\<close>, a number, it throws the SyntaxError of
  \<^verbatim>\<open>BigInt\<close>, which is no \<^verbatim>\<open>JPYCPaymentError\<close>. With the network \<^verbatim>\<open>toString\<close>, a key
  the registry inherits, it throws ENCODING_FAILED, and with a contract address of the
  caller's next to that network it returns a record whose chain id is \<^verbatim>\<open>undefined\<close> and
  whose identifier reads \<^verbatim>\<open>@undefined/\<close>.
\<close>

theorem generatePaymentURI_fails_after_validation:
  "validateGenerateOptions
     \<lparr>merchantAddress = Some ''0x1234567890123456789012345678901234567890'',
      opt_amount = Some (AmtString ''2..''),
      opt_network = None, opt_jpycContractAddress = None, opt_decimals = None\<rparr> =
   Inr \<lparr>valid = True, errors = [], vr_warnings = []\<rparr> \<and>
   generatePaymentURI
     \<lparr>merchantAddress = Some ''0x1234567890123456789012345678901234567890'',
      opt_amount = Some (AmtString ''2..''),
      opt_network = None, opt_jpycContractAddress = None, opt_decimals = None\<rparr> =
   Inl (JPYCPaymentError (MsgMultipleDecimalPoints ''2..'') INVALID_AMOUNT (AmountDetails ''2..'')) \<and>
   validateGenerateOptions
     \<lparr>merchantAddress = Some ''0x1234567890123456789012345678901234567890'',
      opt_amount = Some (AmtNumber (Fin (944473296573929 / 9444732965739290427392))),
      opt_network = None, opt_jpycContractAddress = None, opt_decimals = None\<rparr> =
   Inr \<lparr>valid = True, errors = [],
        vr_warnings = [\<lparr>code = ''SMALL_AMOUNT'', message = SmallAmountWarning (Fin (944473296573929 / 9444732965739290427392))\<rparr>]\<rparr> \<and>
   generatePaymentURI
     \<lparr>merchantAddress = Some ''0x1234567890123456789012345678901234567890'',
      opt_amount = Some (AmtNumber (Fin (944473296573929 / 9444732965739290427392))),
      opt_network = None, opt_jpycContractAddress = None, opt_decimals = None\<rparr> =
   Inl (Native SyntaxError) \<and>
   validateGenerateOptions
     \<lparr>merchantAddress = Some ''0x1234567890123456789012345678901234567890'',
      opt_amount = Some (AmtNumber (Fin 100)),
      opt_network = Some ''toString'', opt_jpycContractAddress = None, opt_decimals = None\<rparr> =
   Inr \<lparr>valid = True, errors = [], vr_warnings = []\<rparr> \<and>
   generatePaymentURI
     \<lparr>merchantAddress = Some ''0x1234567890123456789012345678901234567890'',
      opt_amount = Some (AmtNumber (Fin 100)),
      opt_network = Some ''toString'', opt_jpycContractAddress = None, opt_decimals = None\<rparr> =
   Inl (JPYCPaymentError MsgEncodeFailed ENCODING_FAILED (CauseDetails TypeError)) \<and>
   validateGenerateOptions
     \<lparr>merchantAddress = Some ''0x1234567890123456789012345678901234567890'',
      opt_amount = Some (AmtNumber (Fin 100)),
      opt_network = Some ''toString'', opt_jpycContractAddress = Some ''0xe7c3d8c9a439fede00d2600032d5db0be71c3c29'', opt_decimals = None\<rparr> =
   Inr \<lparr>valid = True, errors = [],
        vr_warnings = [\<lparr>code = ''CUSTOM_CONTRACT'', message = CustomContractWarning\<rparr>]\<rparr> \<and>
   generatePaymentURI
     \<lparr>merchantAddress = Some ''0x1234567890123456789012345678901234567890'',
      opt_amount = Some (AmtNumber (Fin 100)),
      opt_network = Some ''toString'', opt_jpycContractAddress = Some ''0xe7c3d8c9a439fede00d2600032d5db0be71c3c29'', opt_decimals = None\<rparr> =
   Inr \<lparr>uri = ''ethereum:0xE7C3D8C9a439feDe00D2600032D5dB0Be71C3c29@undefined/transfer?address=0x1234567890123456789012345678901234567890&uint256=100000000000000000000'',
        res_chainId = None, res_network = ''toString'',
        res_jpycContractAddress = Some ''0xe7c3d8c9a439fede00d2600032d5db0be71c3c29'',
        amountWei = ''100000000000000000000'', amountJPY = ''100'',
        res_decimals = Fin 18,
        res_warnings = [\<lparr>code = ''CUSTOM_CONTRACT'', message = CustomContractWarning\<rparr>]\<rparr>"
  by (intro conjI validate_two_dots generate_two_dots validate_1em7 generate_1em7
      validate_toString generate_toString validate_toString_contract
      generate_toString_contract)

text \<open>
  The record of the claim on options the registry knows: the amount 100 on the default
  network.
\<close>

lemma validate_hundred:
  "validateGenerateOptions
     \<lparr>merchantAddress = Some ''0x1234567890123456789012345678901234567890'',
      opt_amount = Some (AmtNumber (Fin 100)),
      opt_network = None, opt_jpycContractAddress = None, opt_decimals = None\<rparr> =
   Inr \<lparr>valid = True, errors = [], vr_warnings = []\<rparr>"
  by code_simp

lemma encode_hundred:
  "encodeEIP681 ''0xe7c3d8c9a439fede00d2600032d5db0be71c3c29''
     ''0x1234567890123456789012345678901234567890'' ''100000000000000000000'' (Fin 137) =
   Inr ''ethereum:0xE7C3D8C9a439feDe00D2600032D5dB0Be71C3c29@137/transfer?address=0x1234567890123456789012345678901234567890&uint256=100000000000000000000''"
  by (simp add: encodeEIP681_valid [OF toChecksumAddress_jpyc toChecksumAddress_digits_only]
      Number_toString_137)

lemma generate_hundred:
  "generatePaymentURI
     \<lparr>merchantAddress = Some ''0x1234567890123456789012345678901234567890'',
      opt_amount = Some (AmtNumber (Fin 100)),
      opt_network = None, opt_jpycContractAddress = None, opt_decimals = None\<rparr> =
   Inr \<lparr>uri = ''ethereum:0xE7C3D8C9a439feDe00D2600032D5dB0Be71C3c29@137/transfer?address=0x1234567890123456789012345678901234567890&uint256=100000000000000000000'',
        res_chainId = Some (Fin 137), res_network = ''polygon'',
        res_jpycContractAddress = Some ''0xe7c3d8c9a439fede00d2600032d5db0be71c3c29'',
        amountWei = ''100000000000000000000'', amountJPY = ''100'',
        res_decimals = Fin 18, res_warnings = []\<rparr>"
  unfolding generatePaymentURI_def validate_hundred
  by (simp add: Let_def CHAIN_CONFIGS_default [unfolded DEFAULT_NETWORK_def] JPYC_DECIMALS_def
      jpyToWei_100_scenario encodeEIP681_untyped_def entry_jpycAddress_def entry_chainId_def
      encode_hundred amount_toString_def Number_toString_100 DEFAULT_NETWORK_def)

lemma invalid_decimals_iff:
  "invalid_decimals d \<longleftrightarrow> \<not> (\<exists>n::int. d = Fin (of_int n) \<and> 0 \<le> n \<and> n \<le> 18)"
proof (cases d)
  case (Fin q)
  have "(\<exists>n::int. q = of_int n \<and> 0 \<le> n \<and> n \<le> 18) \<longleftrightarrow>
        (0 \<le> q \<and> q \<le> 18 \<and> q = of_int \<lfloor>q\<rfloor>)"
  proof
    assume "\<exists>n::int. q = of_int n \<and> 0 \<le> n \<and> n \<le> 18"
    then obtain n :: int where "q = of_int n" "0 \<le> n" "n \<le> 18" by blast
    then show "0 \<le> q \<and> q \<le> 18 \<and> q = of_int \<lfloor>q\<rfloor>" by simp
  next
    assume a: "0 \<le> q \<and> q \<le> 18 \<and> q = of_int \<lfloor>q\<rfloor>"
    then have "0 \<le> \<lfloor>q\<rfloor>" "\<lfloor>q\<rfloor> \<le> 18"
      by (simp_all add: floor_le_iff)
    with a show "\<exists>n::int. q = of_int n \<and> 0 \<le> n \<and> n \<le> 18" by blast
  qed
  then show ?thesis
    using Fin by (auto simp: invalid_decimals_def js_lt_def js_gt_def Number_isInteger_def)
qed (simp_all add: invalid_decimals_def js_lt_def js_gt_def Number_isInteger_def)

lemma jpyToWei_invalid_decimals:
  "invalid_decimals d \<Longrightarrow>
   jpyToWei a d = Inl (JPYCPaymentError (MsgDecimalsRange d) INVALID_DECIMALS NoDetails)"
  by (simp add: jpyToWei_def)

lemma jpyToWei_negative:
  "\<not> invalid_decimals d \<Longrightarrow> startsWith ''-'' (amount_toString a) \<Longrightarrow>
   jpyToWei a d =
     Inl (JPYCPaymentError MsgNegativeAmount INVALID_AMOUNT (AmountDetails (amount_toString a)))"
  by (simp add: jpyToWei_def Let_def)

lemma Number_toString_negative:
  "js_lt x (Fin 0) \<Longrightarrow> startsWith ''-'' (Number_toString x)"
  by (cases x) (simp_all add: js_lt_def Number_toString_def startsWith_def)

lemma jpyToWei_NaN:
  "\<not> invalid_decimals d \<Longrightarrow> parseFloat s = NaN \<Longrightarrow>
   \<exists>m. jpyToWei (AmtString s) d = Inl (JPYCPaymentError m INVALID_AMOUNT (AmountDetails s))"
  by (simp add: jpyToWei_def Let_def amount_toString_def Number_isNaN_def)

lemma check_amount_not_positive:
  assumes "opt_amount options = Some a" "a \<noteq> AmtString []" "js_le (amount_to_number a) (Fin 0)"
  shows "fst (check_amount options ([], [])) = [AmountNotPositive (amount_to_number a)]"
  using assms by (simp add: check_amount_def Let_def Number_isNaN_def js_le_def)

lemma check_amount_NaN:
  assumes "opt_amount options = Some a" "a \<noteq> AmtString []" "amount_to_number a = NaN"
  shows "fst (check_amount options ([], [])) = [InvalidAmountFormat (amount_toString a)]"
  using assms by (simp add: check_amount_def Let_def Number_isNaN_def)

lemma check_decimals_out_of_range:
  assumes "opt_decimals options = Some d" "invalid_decimals d"
  shows "DecimalsOutOfRange d \<in> set (fst (check_decimals options ([], [])))"
  using assms by (auto simp: check_decimals_def Let_def invalid_decimals_def)

lemma validation_error_reported:
  assumes "e \<in> set (check_merchantAddress options [] @ fst (check_amount options ([], []))
             @ check_network options [] @ fst (check_jpycContractAddress options ([], []))
             @ fst (check_decimals options ([], [])))"
  shows "\<exists>v. validateGenerateOptions options = Inr v \<and> \<not> valid v \<and> e \<in> set (errors v) \<and>
             generatePaymentURI options =
               Inl (JPYCPaymentError (MsgValidationFailed (errors v)) VALIDATION_FAILED
                      (ErrorsDetails (errors v)))"
proof -
  obtain v where v: "validateGenerateOptions options = Inr v"
    by (simp add: validateGenerateOptions_eq)
  have e: "errors v = check_merchantAddress options [] @ fst (check_amount options ([], []))
             @ check_network options [] @ fst (check_jpycContractAddress options ([], []))
             @ fst (check_decimals options ([], []))"
    and val: "valid v \<longleftrightarrow> errors v = []"
    using v unfolding validateGenerateOptions_eq by auto
  have "e \<in> set (errors v)" using assms e by simp
  moreover from this have "\<not> valid v" using val by auto
  ultimately show ?thesis
    using v generatePaymentURI_invalid [OF v] by blast
qed

lemma parseFloat_abc: "parseFloat ''abc'' = NaN"
  by code_simp

lemma jpyToWei_zero: "jpyToWei (AmtNumber (Fin 0)) (Fin 18) = Inr ''0''"
  by code_simp


lemma parseFloat_12abc: "parseFloat ''12abc'' = Fin 12"
proof -
  have r: "round_double 12 = Fin 12"
    using round_double_int [of 12] by simp
  show ?thesis
    by (simp add: parseFloat_def parse_unsigned_decimal_def parse_exponent_def startsWith_def
        is_digit_def skip_ws_plain Let_def digits_to_int_def digit_value_def r)
qed

lemma jpyToWei_12abc: "jpyToWei (AmtString ''12abc'') (Fin 18) = Inl (Native SyntaxError)"
proof -
  have d: "\<not> invalid_decimals (Fin 18)" "to_length (Fin 18) = 18"
    using valid_decimals_nat(1) [of 18] valid_decimals_nat(2) [of 18] by simp_all
  have b: "BigInt ''12abc000000000000000000'' = Inl (Native SyntaxError)"
    by code_simp
  have s: "split_on (CHR ''.'') ''12abc'' = [''12abc'']"
    by code_simp
  have p: "take 18 (padEnd 18 (CHR ''0'') []) = ''000000000000000000''"
    by code_simp
  show ?thesis
    by (simp add: jpyToWei_def amount_toString_def d startsWith_def parseFloat_12abc
        Number_isNaN_def Number_isFinite_def count_char_def Let_def s p b)
qed

lemma Number_toString_minus_5: "Number_toString (Fin (- 5)) = ''-5''"
proof -
  have "int_to_digits 5 = ''5''" by code_simp
  then have "positive_toString 5 = ''5''"
    using Number_toString_safe_int [of 5] by (simp add: Number_toString_def)
  then show ?thesis by (simp add: Number_toString_def)
qed

lemma invalid_decimals_19: "invalid_decimals (Fin 19)"
  by (simp add: invalid_decimals_def js_lt_def js_gt_def)

lemma validate_zero:
  "validateGenerateOptions
     \<lparr>merchantAddress = Some ''0x1234567890123456789012345678901234567890'',
      opt_amount = Some (AmtNumber (Fin 0)),
      opt_network = None, opt_jpycContractAddress = None, opt_decimals = None\<rparr> =
   Inr \<lparr>valid = False, errors = [AmountNotPositive (Fin 0)], vr_warnings = []\<rparr>"
  by code_simp

lemma parseFloat_space_minus_5: "parseFloat '' -5'' = Fin (- 5)"
proof -
  have r: "round_double 5 = Fin 5"
    using round_double_int [of 5] by simp
  have k: "skip_ws '' -5'' = ''-5''"
    by code_simp
  show ?thesis
    by (simp add: parseFloat_def k parse_unsigned_decimal_def parse_exponent_def startsWith_def
        is_digit_def Let_def digits_to_int_def digit_value_def r js_neg_def)
qed

lemma jpyToWei_space_minus_5:
  "jpyToWei (AmtString '' -5'') (Fin 18) = Inr ''-5000000000000000000''"
proof -
  have d: "\<not> invalid_decimals (Fin 18)" "to_length (Fin 18) = 18"
    using valid_decimals_nat(1) [of 18] valid_decimals_nat(2) [of 18] by simp_all
  have b: "BigInt '' -5000000000000000000'' = Inr (- 5000000000000000000)"
    by code_simp
  have t: "BigInt_toString (- 5000000000000000000) = ''-5000000000000000000''"
    by code_simp
  have s: "split_on (CHR ''.'') '' -5'' = ['' -5'']"
    by code_simp
  have p: "take 18 (padEnd 18 (CHR ''0'') []) = ''000000000000000000''"
    by code_simp
  show ?thesis
    by (simp add: jpyToWei_def amount_toString_def d startsWith_def parseFloat_space_minus_5
        Number_isNaN_def Number_isFinite_def count_char_def Let_def s p b t)
qed

text \<open>
  What holds of the claim's boundary inputs. The converter rejects a precision that is not
  an integer in [0,18] with INVALID_DECIMALS, whatever the amount; with a valid precision
  it rejects with INVALID_AMOUNT an amount whose string form starts with a minus sign (the
  string form of every negative number does) and a string that \<^verbatim>\<open>parseFloat\<close> reads as
  NaN. The validator throws nothing: an amount at most zero, an amount read as NaN and a
  precision outside the range each put their message into the error list, and the
  request builder then throws VALIDATION_FAILED with that list.
\<close>

lemma boundary_inputs_rejected:
  "(\<forall>a d. invalid_decimals d \<longrightarrow>
      jpyToWei a d = Inl (JPYCPaymentError (MsgDecimalsRange d) INVALID_DECIMALS NoDetails)) \<and>
   (\<forall>d. invalid_decimals d \<longleftrightarrow> \<not> (\<exists>n::int. d = Fin (of_int n) \<and> 0 \<le> n \<and> n \<le> 18)) \<and>
   (\<forall>a d. \<not> invalid_decimals d \<and> startsWith ''-'' (amount_toString a) \<longrightarrow>
      jpyToWei a d =
        Inl (JPYCPaymentError MsgNegativeAmount INVALID_AMOUNT (AmountDetails (amount_toString a)))) \<and>
   (\<forall>x. js_lt x (Fin 0) \<longrightarrow> startsWith ''-'' (amount_toString (AmtNumber x))) \<and>
   (\<forall>s d. \<not> invalid_decimals d \<and> parseFloat s = NaN \<longrightarrow>
      (\<exists>m. jpyToWei (AmtString s) d = Inl (JPYCPaymentError m INVALID_AMOUNT (AmountDetails s))))"
  using jpyToWei_invalid_decimals invalid_decimals_iff jpyToWei_negative jpyToWei_NaN
    Number_toString_negative
  by (intro conjI allI impI) (auto simp: amount_toString_def)

lemma validator_rejections:
  fixes options :: PaymentURIOptions
  shows "opt_amount options = Some a \<and> a \<noteq> AmtString [] \<and>
        js_le (amount_to_number a) (Fin 0) \<longrightarrow>
      (\<exists>v. validateGenerateOptions options = Inr v \<and> \<not> valid v \<and>
           AmountNotPositive (amount_to_number a) \<in> set (errors v) \<and>
           generatePaymentURI options =
             Inl (JPYCPaymentError (MsgValidationFailed (errors v)) VALIDATION_FAILED
                    (ErrorsDetails (errors v))))"
    and "opt_amount options = Some a \<and> a \<noteq> AmtString [] \<and>
        amount_to_number a = NaN \<longrightarrow>
      (\<exists>v. validateGenerateOptions options = Inr v \<and> \<not> valid v \<and>
           InvalidAmountFormat (amount_toString a) \<in> set (errors v) \<and>
           generatePaymentURI options =
             Inl (JPYCPaymentError (MsgValidationFailed (errors v)) VALIDATION_FAILED
                    (ErrorsDetails (errors v))))"
    and "opt_decimals options = Some d \<and> invalid_decimals d \<longrightarrow>
      (\<exists>v. validateGenerateOptions options = Inr v \<and> \<not> valid v \<and>
           DecimalsOutOfRange d \<in> set (errors v) \<and>
           generatePaymentURI options =
             Inl (JPYCPaymentError (MsgValidationFailed (errors v)) VALIDATION_FAILED
                    (ErrorsDetails (errors v))))"
proof -
  show "opt_amount options = Some a \<and> a \<noteq> AmtString [] \<and>
        js_le (amount_to_number a) (Fin 0) \<longrightarrow>
      (\<exists>v. validateGenerateOptions options = Inr v \<and> \<not> valid v \<and>
           AmountNotPositive (amount_to_number a) \<in> set (errors v) \<and>
           generatePaymentURI options =
             Inl (JPYCPaymentError (MsgValidationFailed (errors v)) VALIDATION_FAILED
                    (ErrorsDetails (errors v))))"
  proof
    assume "opt_amount options = Some a \<and> a \<noteq> AmtString [] \<and> js_le (amount_to_number a) (Fin 0)"
    then have "fst (check_amount options ([], [])) = [AmountNotPositive (amount_to_number a)]"
      using check_amount_not_positive by blast
    then show "\<exists>v. validateGenerateOptions options = Inr v \<and> \<not> valid v \<and>
           AmountNotPositive (amount_to_number a) \<in> set (errors v) \<and>
           generatePaymentURI options =
             Inl (JPYCPaymentError (MsgValidationFailed (errors v)) VALIDATION_FAILED
                    (ErrorsDetails (errors v)))"
      by (intro validation_error_reported) simp
  qed
  show "opt_amount options = Some a \<and> a \<noteq> AmtString [] \<and>
        amount_to_number a = NaN \<longrightarrow>
      (\<exists>v. validateGenerateOptions options = Inr v \<and> \<not> valid v \<and>
           InvalidAmountFormat (amount_toString a) \<in> set (errors v) \<and>
           generatePaymentURI options =
             Inl (JPYCPaymentError (MsgValidationFailed (errors v)) VALIDATION_FAILED
                    (ErrorsDetails (errors v))))"
  proof
    assume "opt_amount options = Some a \<and> a \<noteq> AmtString [] \<and> amount_to_number a = NaN"
    then have "fst (check_amount options ([], [])) = [InvalidAmountFormat (amount_toString a)]"
      using check_amount_NaN by blast
    then show "\<exists>v. validateGenerateOptions options = Inr v \<and> \<not> valid v \<and>
           InvalidAmountFormat (amount_toString a) \<in> set (errors v) \<and>
           generatePaymentURI options =
             Inl (JPYCPaymentError (MsgValidationFailed (errors v)) VALIDATION_FAILED
                    (ErrorsDetails (errors v)))"
      by (intro validation_error_reported) simp
  qed
  show "opt_decimals options = Some d \<and> invalid_decimals d \<longrightarrow>
      (\<exists>v. validateGenerateOptions options = Inr v \<and> \<not> valid v \<and>
           DecimalsOutOfRange d \<in> set (errors v) \<and>
           generatePaymentURI options =
             Inl (JPYCPaymentError (MsgValidationFailed (errors v)) VALIDATION_FAILED
                    (ErrorsDetails (errors v))))"
  proof
    assume "opt_decimals options = Some d \<and> invalid_decimals d"
    then have "DecimalsOutOfRange d \<in> set (fst (check_decimals options ([], [])))"
      using check_decimals_out_of_range by blast
    then show "\<exists>v. validateGenerateOptions options = Inr v \<and> \<not> valid v \<and>
           DecimalsOutOfRange d \<in> set (errors v) \<and>
           generatePaymentURI options =
             Inl (JPYCPaymentError (MsgValidationFailed (errors v)) VALIDATION_FAILED
                    (ErrorsDetails (errors v)))"
      by (intro validation_error_reported) simp
  qed
qed

text \<open>
  The amount 0 is converted to \<^verbatim>\<open>"0"\<close>; it is the validator that rejects it.
\<close>

lemma generate_zero:
  "generatePaymentURI
     \<lparr>merchantAddress = Some ''0x1234567890123456789012345678901234567890'',
      opt_amount = Some (AmtNumber (Fin 0)),
      opt_network = None, opt_jpycContractAddress = None, opt_decimals = None\<rparr> =
     Inl (JPYCPaymentError (MsgValidationFailed [AmountNotPositive (Fin 0)]) VALIDATION_FAILED
            (ErrorsDetails [AmountNotPositive (Fin 0)]))"
  using generatePaymentURI_invalid [OF validate_zero] by simp

text \<open>
  Claim C7 does not hold of the converter. A non-numeric string must fail with
  INVALID_AMOUNT, but a string with a numeric prefix is not read as NaN: the converter
  hands \<^verbatim>\<open>"12abc"\<close> to \<^verbatim>\<open>BigInt\<close>, whose SyntaxError leaves the converter as it is,
  no \<^verbatim>\<open>JPYCPaymentError\<close> and no INVALID_AMOUNT. A negative amount must fail with
  INVALID_AMOUNT, but only a leading minus sign is looked for: \<^verbatim>\<open>" -5"\<close>, a space
  before the sign, is converted to a negative minor-unit amount.
\<close>

theorem jpyToWei_boundary_inputs_escape:
  "jpyToWei (AmtString ''12abc'') (Fin 18) = Inl (Native SyntaxError) \<and>
   jpyToWei (AmtString '' -5'') (Fin 18) = Inr ''-5000000000000000000''"
  using jpyToWei_12abc jpyToWei_space_minus_5 by (rule conjI)

lemma digit_not_sign: "is_digit c \<Longrightarrow> c \<noteq> CHR ''-'' \<and> c \<noteq> CHR ''+''"
  by (auto simp: is_digit_def)

lemma parseInt10_digits:
  assumes g: "list_all is_digit g" and ne: "g \<noteq> []"
  shows "parseInt10 g = round_double (of_int (digits_to_int g))"
proof -
  obtain x xs where x: "g = x # xs" using ne by (cases g) auto
  then have dx: "is_digit x" using g by simp
  have d: "skip_ws g = g"
    unfolding x using is_digit_plain [OF dx] skip_ws_plain by blast
  have s: "\<not> startsWith ''-'' g" "\<not> startsWith ''+'' g"
    using digit_not_sign [OF dx] by (simp_all add: startsWith_def x)
  show ?thesis
    by (simp add: parseInt10_def Let_def d s takeWhile_digits_all [OF g] ne)
qed

lemma parseInt10_137: "parseInt10 ''137'' = Fin 137"
proof -
  have a: "list_all is_digit ''137''" "digits_to_int ''137'' = 137"
    by code_simp+
  show ?thesis
    using parseInt10_digits [of "''137''"] a round_double_int [of 137] by simp
qed

text \<open>The decoder returns a record or throws ENCODING_FAILED with the string it was given.\<close>

lemma decodeEIP681_cases:
  "(\<exists>d. decodeEIP681 u = Inr d) \<or>
   (\<exists>cause. decodeEIP681 u =
      Inl (JPYCPaymentError MsgDecodeFailed ENCODING_FAILED (UriDetails u cause)))"
  by (cases "decode_try u") (simp_all add: decodeEIP681_def)

text \<open>The identifier of the encoder's scenario holds the six fields and decodes to them.\<close>

lemma example_has_all_fields:
  "has_scheme ''ethereum:0xE7C3D8C9a439feDe00D2600032D5dB0Be71C3c29@137/transfer?address=0x1234567890123456789012345678901234567890&uint256=1000000000000000000'' \<and> has_contract ''ethereum:0xE7C3D8C9a439feDe00D2600032D5dB0Be71C3c29@137/transfer?address=0x1234567890123456789012345678901234567890&uint256=1000000000000000000'' \<and> has_chain_id ''ethereum:0xE7C3D8C9a439feDe00D2600032D5dB0Be71C3c29@137/transfer?address=0x1234567890123456789012345678901234567890&uint256=1000000000000000000'' \<and> has_function ''ethereum:0xE7C3D8C9a439feDe00D2600032D5dB0Be71C3c29@137/transfer?address=0x1234567890123456789012345678901234567890&uint256=1000000000000000000'' \<and>
   has_parameter ''address'' ''ethereum:0xE7C3D8C9a439feDe00D2600032D5dB0Be71C3c29@137/transfer?address=0x1234567890123456789012345678901234567890&uint256=1000000000000000000'' \<and> has_parameter ''uint256'' ''ethereum:0xE7C3D8C9a439feDe00D2600032D5dB0Be71C3c29@137/transfer?address=0x1234567890123456789012345678901234567890&uint256=1000000000000000000''"
  by code_simp

lemma decodeEIP681_example:
  "decodeEIP681 ''ethereum:0xE7C3D8C9a439feDe00D2600032D5dB0Be71C3c29@137/transfer?address=0x1234567890123456789012345678901234567890&uint256=1000000000000000000'' =
   Inr \<lparr>scheme = ''ethereum'',
        contractAddress = ''0xE7C3D8C9a439feDe00D2600032D5dB0Be71C3c29'',
        dec_chainId = Fin 137, functionName = ''transfer'',
        recipientAddress = ''0x1234567890123456789012345678901234567890'',
        dec_amount = ''1000000000000000000''\<rparr>"
proof -
  have m1: "match_anchored (\<lambda>c. c \<noteq> CHR '':'') (CHR '':'') ''ethereum:0xE7C3D8C9a439feDe00D2600032D5dB0Be71C3c29@137/transfer?address=0x1234567890123456789012345678901234567890&uint256=1000000000000000000'' = Some ''ethereum''"
    by code_simp
  have m2: "match_delimited (CHR '':'') (\<lambda>c. c \<noteq> CHR ''@'') (CHR ''@'') ''ethereum:0xE7C3D8C9a439feDe00D2600032D5dB0Be71C3c29@137/transfer?address=0x1234567890123456789012345678901234567890&uint256=1000000000000000000''
            = Some ''0xE7C3D8C9a439feDe00D2600032D5dB0Be71C3c29''"
    by code_simp
  have m3: "match_delimited (CHR ''@'') is_digit (CHR ''/'') ''ethereum:0xE7C3D8C9a439feDe00D2600032D5dB0Be71C3c29@137/transfer?address=0x1234567890123456789012345678901234567890&uint256=1000000000000000000'' = Some ''137''"
    by code_simp
  have m4: "match_delimited (CHR ''/'') (\<lambda>c. c \<noteq> CHR ''?'') (CHR ''?'') ''ethereum:0xE7C3D8C9a439feDe00D2600032D5dB0Be71C3c29@137/transfer?address=0x1234567890123456789012345678901234567890&uint256=1000000000000000000'' = Some ''transfer''"
    by code_simp
  have sp: "split_on (CHR ''?'') ''ethereum:0xE7C3D8C9a439feDe00D2600032D5dB0Be71C3c29@137/transfer?address=0x1234567890123456789012345678901234567890&uint256=1000000000000000000'' =
            [''ethereum:0xE7C3D8C9a439feDe00D2600032D5dB0Be71C3c29@137/transfer'',
             ''address=0x1234567890123456789012345678901234567890&uint256=1000000000000000000'']"
    by code_simp
  have ps: "URLSearchParams ''address=0x1234567890123456789012345678901234567890&uint256=1000000000000000000''
            = [(''address'', ''0x1234567890123456789012345678901234567890''),
               (''uint256'', ''1000000000000000000'')]"
    by code_simp
  have "decode_try ''ethereum:0xE7C3D8C9a439feDe00D2600032D5dB0Be71C3c29@137/transfer?address=0x1234567890123456789012345678901234567890&uint256=1000000000000000000'' = Inr \<lparr>scheme = ''ethereum'',
        contractAddress = ''0xE7C3D8C9a439feDe00D2600032D5dB0Be71C3c29'',
        dec_chainId = Fin 137, functionName = ''transfer'',
        recipientAddress = ''0x1234567890123456789012345678901234567890'',
        dec_amount = ''1000000000000000000''\<rparr>"
    unfolding decode_try_def m1 m2 m3 m4 sp
    by (simp add: ps URLSearchParams_get_def parseInt10_137 Let_def)
  then show ?thesis by (simp add: decodeEIP681_def)
qed

text \<open>
  The boundary scenario of the specification: the same identifier without its
  \<^verbatim>\<open>uint256\<close> parameter is refused.
\<close>

lemma missing_uint256: "\<not> has_parameter ''uint256'' ''ethereum:0xE7C3D8C9a439feDe00D2600032D5dB0Be71C3c29@137/transfer?address=0x1234567890123456789012345678901234567890''"
  by code_simp

lemma decodeEIP681_missing_uint256:
  "decodeEIP681 ''ethereum:0xE7C3D8C9a439feDe00D2600032D5dB0Be71C3c29@137/transfer?address=0x1234567890123456789012345678901234567890'' =
   Inl (JPYCPaymentError MsgDecodeFailed ENCODING_FAILED (UriDetails ''ethereum:0xE7C3D8C9a439feDe00D2600032D5dB0Be71C3c29@137/transfer?address=0x1234567890123456789012345678901234567890'' NoAmount))"
  by code_simp

text \<open>
  Claim C8 does not hold of the decoder. A string in which a mandatory field is absent
  must be refused with ENCODING_FAILED, never decoded to a record. In
  \<^verbatim>\<open>ethereum:@137/transfer?address=a:b@c&uint256=1\<close> nothing stands between the colon
  of the scheme and the \<^verbatim>\<open>@\<close>: the contract address is absent. The decoder looks for
  \<^verbatim>\<open>:\<close>, text, \<^verbatim>\<open>@\<close> anywhere in the string, finds \<^verbatim>\<open>:b@\<close> inside the query, and
  returns a record whose contract address is \<^verbatim>\<open>b\<close>.
\<close>

theorem decodeEIP681_absent_contract_decoded:
  "has_scheme ''ethereum:@137/transfer?address=a:b@c&uint256=1'' \<and> \<not> has_contract ''ethereum:@137/transfer?address=a:b@c&uint256=1'' \<and>
   decodeEIP681 ''ethereum:@137/transfer?address=a:b@c&uint256=1'' =
   Inr \<lparr>scheme = ''ethereum'', contractAddress = ''b'', dec_chainId = Fin 137,
        functionName = ''transfer'', recipientAddress = ''a:b@c'', dec_amount = ''1''\<rparr>"
proof -
  have h: "has_scheme ''ethereum:@137/transfer?address=a:b@c&uint256=1''" "\<not> has_contract ''ethereum:@137/transfer?address=a:b@c&uint256=1''"
    by code_simp+
  have m1: "match_anchored (\<lambda>c. c \<noteq> CHR '':'') (CHR '':'') ''ethereum:@137/transfer?address=a:b@c&uint256=1'' = Some ''ethereum''"
    by code_simp
  have m2: "match_delimited (CHR '':'') (\<lambda>c. c \<noteq> CHR ''@'') (CHR ''@'') ''ethereum:@137/transfer?address=a:b@c&uint256=1'' = Some ''b''"
    by code_simp
  have m3: "match_delimited (CHR ''@'') is_digit (CHR ''/'') ''ethereum:@137/transfer?address=a:b@c&uint256=1'' = Some ''137''"
    by code_simp
  have m4: "match_delimited (CHR ''/'') (\<lambda>c. c \<noteq> CHR ''?'') (CHR ''?'') ''ethereum:@137/transfer?address=a:b@c&uint256=1'' = Some ''transfer''"
    by code_simp
  have sp: "split_on (CHR ''?'') ''ethereum:@137/transfer?address=a:b@c&uint256=1'' = [''ethereum:@137/transfer'', ''address=a:b@c&uint256=1'']"
    by code_simp
  have ps: "URLSearchParams ''address=a:b@c&uint256=1'' = [(''address'', ''a:b@c''), (''uint256'', ''1'')]"
    by code_simp
  have "decode_try ''ethereum:@137/transfer?address=a:b@c&uint256=1'' = Inr \<lparr>scheme = ''ethereum'', contractAddress = ''b'', dec_chainId = Fin 137,
        functionName = ''transfer'', recipientAddress = ''a:b@c'', dec_amount = ''1''\<rparr>"
    unfolding decode_try_def m1 m2 m3 m4 sp
    by (simp add: ps URLSearchParams_get_def parseInt10_137 Let_def)
  then have "decodeEIP681 ''ethereum:@137/transfer?address=a:b@c&uint256=1'' = Inr \<lparr>scheme = ''ethereum'', contractAddress = ''b'', dec_chainId = Fin 137,
        functionName = ''transfer'', recipientAddress = ''a:b@c'', dec_amount = ''1''\<rparr>"
    by (simp add: decodeEIP681_def)
  then show ?thesis using h by blast
qed

end
